(* ===== verification/Prelude.thy ===== *)
theory Prelude
  imports Main "HOL-Library.Word" "HOL-Library.Char_ord" "HOL-Library.List_Lexorder"
begin

text \<open>
  Shared vocabulary of the development: the outcome type in which every operation of the
  server answers, the constants of the platform (\<open>MAX_PATH\<close>), the named collections of
  simplification rules, and generic lemmas on lists.

  An \<open>outcome\<close> is what a piece of the program's code can do: return a value, stop the process
  (an uncaught exception, a null dereference, an out-of-bounds access), or never return.
\<close>

named_theorems outcome_simps \<open>rules that compute with outcomes\<close>
named_theorems path_simps \<open>rules on path tokens\<close>
named_theorems vfs_simps \<open>rules on the virtual file system\<close>
named_theorems shell_simps \<open>rules that unfold the command handlers\<close>

subsection \<open>Platform constants\<close>

text \<open>\<open>MAX_PATH\<close> is \<open>PATH_MAX\<close>, which is 4096 on Linux.\<close>

definition MAX_PATH :: nat where
  "MAX_PATH = 4096"

abbreviation NUL :: char where "NUL \<equiv> CHR 0x00"
abbreviation LF :: char where "LF \<equiv> CHR 0x0A"
abbreviation CR :: char where "CR \<equiv> CHR 0x0D"
abbreviation BACKSLASH :: char where "BACKSLASH \<equiv> CHR 0x5C"
abbreviation DQUOTE :: char where "DQUOTE \<equiv> CHR 0x22"
abbreviation CRLF :: string where "CRLF \<equiv> [CR, LF]"

subsection \<open>Outcomes\<close>

datatype fault =
    NullReply          \<comment> \<open>a null \<open>redisReply\<close> is dereferenced\<close>
  | NullPointer        \<comment> \<open>a null pointer to an object of the program is dereferenced\<close>
  | BadCast            \<comment> \<open>\<open>boost::bad_lexical_cast\<close> is not caught\<close>
  | OutOfBounds        \<comment> \<open>an access outside an object: undefined behaviour\<close>
  | DivByZero          \<comment> \<open>an integer division by zero\<close>
  | UseAfterFree       \<comment> \<open>a freed object is used or freed again\<close>
  | Uninitialised      \<comment> \<open>a value is read that nothing was stored in\<close>

datatype 'a outcome =
    Ret (the_ret: 'a)
  | Crash fault
  | Hang

fun and_then :: "'a outcome \<Rightarrow> ('a \<Rightarrow> 'b outcome) \<Rightarrow> 'b outcome" where
  "and_then (Ret x) f = f x"
| "and_then (Crash e) f = Crash e"
| "and_then Hang f = Hang"

declare and_then.simps [outcome_simps]

lemma and_then_Ret_right [simp]: "and_then m Ret = m"
  by (cases m) auto

lemma and_then_assoc: "and_then (and_then m f) g = and_then m (\<lambda>x. and_then (f x) g)"
  by (cases m) auto

lemma and_then_eq_Ret:
  "and_then m f = Ret y \<longleftrightarrow> (\<exists>x. m = Ret x \<and> f x = Ret y)"
  by (cases m) auto

lemma and_then_cong [fundef_cong]:
  "m = m' \<Longrightarrow> (\<And>x. m' = Ret x \<Longrightarrow> f x = f' x) \<Longrightarrow> and_then m f = and_then m' f'"
  by (cases m') auto

subsection \<open>Lists\<close>

lemma butlast_append_single [simp]: "butlast (xs @ [y]) = xs"
  by (rule butlast_snoc)

lemma set_butlast_append:
  "ys \<noteq> [] \<Longrightarrow> set (butlast (xs @ ys)) = set xs \<union> set (butlast ys)"
  by (simp add: butlast_append)

lemma take_Suc_drop: "i < length s \<Longrightarrow> drop i s = s ! i # drop (Suc i) s"
  by (rule Cons_nth_drop_Suc[symmetric])

lemma split_at_nth: "i < length s \<Longrightarrow> s = take i s @ s ! i # drop (Suc i) s"
  by (rule id_take_nth_drop)

end
