(* ===== verification/CString.thy ===== *)
theory CString
  imports Prelude
begin

text \<open>
  C strings and the library functions the program calls on them. A C string is the list of its
  characters before the terminating NUL; a pointer into it is an index; \<open>memmove (p, p + k, ..)\<close>
  up to and with the terminator is dropping the \<open>k\<close> characters at \<open>p\<close>.
\<close>

subsection \<open>Searching\<close>

definition starts :: "string \<Rightarrow> string \<Rightarrow> bool" where
  "starts pat s \<longleftrightarrow> take (length pat) s = pat"

fun strstr :: "string \<Rightarrow> string \<Rightarrow> nat option" where
  "strstr [] pat = (if pat = [] then Some 0 else None)"
| "strstr (c # s) pat = (if starts pat (c # s) then Some 0 else map_option Suc (strstr s pat))"

text \<open>\<open>strstr (p + a, pat)\<close>, as an offset from \<open>p\<close>.\<close>

definition strstr_at :: "string \<Rightarrow> nat \<Rightarrow> string \<Rightarrow> nat option" where
  "strstr_at s a pat = map_option (\<lambda>i. a + i) (strstr (drop a s) pat)"

text \<open>Reading \<open>p[i]\<close>: the terminator is read at the length.\<close>

definition char_at :: "string \<Rightarrow> nat \<Rightarrow> char" where
  "char_at s i = (if i < length s then s ! i else NUL)"

definition cut :: "nat \<Rightarrow> nat \<Rightarrow> string \<Rightarrow> string" where
  "cut a k s = take a s @ drop (a + k) s"

lemma starts_append [simp]: "starts pat (pat @ s)"
  by (simp add: starts_def)

lemma starts_iff: "starts pat s \<longleftrightarrow> (\<exists>w. s = pat @ w)"
  by (metis append_eq_conv_conj append_take_drop_id starts_def)

lemma strstr_SomeD:
  "strstr s pat = Some i \<Longrightarrow>
     starts pat (drop i s) \<and> i \<le> length s \<and> (\<forall>j<i. \<not> starts pat (drop j s))"
proof (induction s arbitrary: i)
  case Nil
  then show ?case by (auto simp: starts_def split: if_splits)
next
  case (Cons c s)
  show ?case
  proof (cases "starts pat (c # s)")
    case True
    with Cons.prems show ?thesis by simp
  next
    case False
    with Cons.prems obtain i' where i': "strstr s pat = Some i'" "i = Suc i'" by auto
    from Cons.IH[OF i'(1)] i'(2) False show ?thesis
      by (auto simp: less_Suc_eq_0_disj)
  qed
qed

lemma strstr_None_starts: "strstr s pat = None \<Longrightarrow> \<not> starts pat (drop j s)"
proof (induction s arbitrary: j)
  case Nil
  then show ?case by (auto simp: starts_def split: if_splits)
next
  case (Cons c s)
  then show ?case by (cases j) (auto split: if_splits)
qed

lemma strstr_split:
  assumes "strstr s pat = Some i"
  shows "s = take i s @ pat @ drop (i + length pat) s" and "i + length pat \<le> length s"
proof -
  from strstr_SomeD[OF assms] obtain w where w: "drop i s = pat @ w" and i: "i \<le> length s"
    by (auto simp: starts_iff)
  have "drop (i + length pat) s = w"
    using arg_cong[OF w, of "drop (length pat)"] by (simp add: add.commute)
  with w show "s = take i s @ pat @ drop (i + length pat) s"
    by (metis append_take_drop_id)
  from w have "length s - i = length pat + length w"
    by (metis length_append length_drop)
  with i show "i + length pat \<le> length s" by arith
qed

lemma strstr_None_iff: "strstr s pat = None \<longleftrightarrow> (\<nexists>u v. s = u @ pat @ v)"
proof
  assume n: "strstr s pat = None"
  show "\<nexists>u v. s = u @ pat @ v"
  proof
    assume "\<exists>u v. s = u @ pat @ v"
    then obtain u v where "s = u @ pat @ v" by blast
    then have "starts pat (drop (length u) s)" by simp
    with n show False by (simp add: strstr_None_starts)
  qed
next
  assume "\<nexists>u v. s = u @ pat @ v"
  then show "strstr s pat = None"
    using strstr_split(1) by (metis option.exhaust)
qed

lemma strstr_at_SomeD:
  assumes "strstr_at s a pat = Some i"
  shows "a \<le> i" "starts pat (drop i s)" "\<forall>j. a \<le> j \<longrightarrow> j < i \<longrightarrow> \<not> starts pat (drop j s)"
    "pat \<noteq> [] \<Longrightarrow> i + length pat \<le> length s"
proof -
  from assms obtain k where k: "strstr (drop a s) pat = Some k" "i = a + k"
    by (auto simp: strstr_at_def)
  note d = strstr_SomeD[OF k(1)]
  show "a \<le> i" using k by simp
  show "starts pat (drop i s)" using d k by (simp add: add.commute)
  show "\<forall>j. a \<le> j \<longrightarrow> j < i \<longrightarrow> \<not> starts pat (drop j s)"
  proof (intro allI impI)
    fix j assume "a \<le> j" "j < i"
    then obtain m where "j = a + m" "m < k" using k(2) by (metis le_Suc_ex nat_add_left_cancel_less)
    then have "\<not> starts pat (drop m (drop a s))" using d by blast
    with \<open>j = a + m\<close> show "\<not> starts pat (drop j s)" by (simp add: add.commute)
  qed
  assume "pat \<noteq> []"
  then show "i + length pat \<le> length s"
    using strstr_split(2)[OF k(1)] k(2) by (cases "a \<le> length s") auto
qed

lemma strstr_at_bounds:
  "strstr_at s a (c # pat) = Some i \<Longrightarrow> a \<le> i \<and> i + length (c # pat) \<le> length s"
  using strstr_at_SomeD(1,4) by blast

lemma strstr_at_NoneD: "strstr_at s a pat = None \<Longrightarrow> a \<le> j \<Longrightarrow> \<not> starts pat (drop j s)"
  using strstr_None_starts[of "drop a s" pat "j - a"] by (simp add: strstr_at_def)

lemma starts_drop_split:
  assumes "starts pat (drop i s)" and "pat \<noteq> []"
  shows "s = take i s @ pat @ drop (i + length pat) s" and "i + length pat \<le> length s"
proof -
  from assms obtain w where w: "drop i s = pat @ w" by (auto simp: starts_iff)
  then have i: "i < length s" using assms(2) by (metis append_is_Nil_conv drop_eq_Nil not_le)
  have "drop (i + length pat) s = w"
    using arg_cong[OF w, of "drop (length pat)"] by (simp add: add.commute)
  with w show "s = take i s @ pat @ drop (i + length pat) s"
    by (metis append_take_drop_id)
  from w have "length s - i = length pat + length w"
    by (metis length_append length_drop)
  with i show "i + length pat \<le> length s" by arith
qed

subsection \<open>Splitting at a separator\<close>

text \<open>\<open>boost::split (tokens, s, is_any_of (sep))\<close>: the empty string has one empty token.\<close>

fun split :: "char \<Rightarrow> string \<Rightarrow> string list" where
  "split x [] = [[]]"
| "split x (c # s) = (if c = x then [] # split x s
     else (case split x s of [] \<Rightarrow> [[c]] | t # ts \<Rightarrow> (c # t) # ts))"

fun join :: "char \<Rightarrow> string list \<Rightarrow> string" where
  "join x [] = []"
| "join x [t] = t"
| "join x (t # ts) = t @ x # join x ts"

lemma split_not_Nil [simp]: "split x s \<noteq> []"
  by (induction s) (auto split: list.splits)

lemma split_no_sep: "x \<notin> set s \<Longrightarrow> split x s = [s]"
  by (induction s) auto

lemma join_Cons: "ts \<noteq> [] \<Longrightarrow> join x (t # ts) = t @ x # join x ts"
  by (cases ts) auto

lemma join_split [simp]: "join x (split x s) = s"
proof (induction s)
  case Nil
  then show ?case by simp
next
  case (Cons c s)
  obtain t ts where ts: "split x s = t # ts" by (cases "split x s") auto
  with Cons show ?case by (cases ts) auto
qed

lemma split_append_sep: "split x (u @ x # w) = split x u @ split x w"
proof (induction u)
  case Nil
  then show ?case by simp
next
  case (Cons c u)
  obtain t ts where "split x u = t # ts" by (cases "split x u") auto
  with Cons show ?case by simp
qed

lemma split_tokens_no_sep: "t \<in> set (split x s) \<Longrightarrow> x \<notin> set t"
proof (induction s arbitrary: t)
  case Nil
  then show ?case by simp
next
  case (Cons c s)
  obtain u ts where "split x s = u # ts" by (cases "split x s") auto
  with Cons show ?case by (auto split: if_splits)
qed

lemma split_join:
  assumes "ts \<noteq> []" and "\<forall>t\<in>set ts. x \<notin> set t"
  shows "split x (join x ts) = ts"
  using assms
proof (induction ts rule: join.induct)
  case (3 x t v va)
  then show ?case by (simp add: split_append_sep split_no_sep)
qed (auto simp: split_no_sep)

lemma split_eq_iff: "split x s = split x t \<longleftrightarrow> s = t"
  by (metis join_split)

lemma join_append: "as \<noteq> [] \<Longrightarrow> bs \<noteq> [] \<Longrightarrow> join x (as @ bs) = join x as @ x # join x bs"
proof (induction "as")
  case Nil
  then show ?case by simp
next
  case (Cons a as')
  show ?case
  proof (cases "as' = []")
    case True
    with Cons show ?thesis by (simp add: join_Cons)
  next
    case False
    with Cons show ?thesis by (simp add: join_Cons)
  qed
qed

lemma length_split_tokens: "t \<in> set (split x s) \<Longrightarrow> length t \<le> length s"
proof (induction s arbitrary: t)
  case Nil
  then show ?case by simp
next
  case (Cons c s)
  obtain u ts where "split x s = u # ts" by (cases "split x s") auto
  with Cons show ?case by (fastforce split: if_splits)
qed

subsection \<open>Character classes\<close>

definition code_of :: "char \<Rightarrow> nat" where
  "code_of c = of_char c"

definition isdigit :: "char \<Rightarrow> bool" where
  "isdigit c \<longleftrightarrow> 48 \<le> code_of c \<and> code_of c \<le> 57"

definition isalpha :: "char \<Rightarrow> bool" where
  "isalpha c \<longleftrightarrow> (65 \<le> code_of c \<and> code_of c \<le> 90) \<or> (97 \<le> code_of c \<and> code_of c \<le> 122)"

definition isalnum :: "char \<Rightarrow> bool" where
  "isalnum c \<longleftrightarrow> isalpha c \<or> isdigit c"

definition isspace :: "char \<Rightarrow> bool" where
  "isspace c \<longleftrightarrow> code_of c = 32 \<or> (9 \<le> code_of c \<and> code_of c \<le> 13)"

definition toupper :: "char \<Rightarrow> char" where
  "toupper c = (if 97 \<le> code_of c \<and> code_of c \<le> 122 then char_of (code_of c - 32) else c)"

subsection \<open>Decimal numbers\<close>

definition digit_char :: "nat \<Rightarrow> char" where
  "digit_char d = char_of (48 + d)"

definition digit_val :: "char \<Rightarrow> nat" where
  "digit_val c = code_of c - 48"

fun show_nat :: "nat \<Rightarrow> string" where
  "show_nat n = (if n < 10 then [digit_char n] else show_nat (n div 10) @ [digit_char (n mod 10)])"

declare show_nat.simps [simp del]

definition show_int :: "int \<Rightarrow> string" where
  "show_int i = (if i < 0 then CHR ''-'' # show_nat (nat (- i)) else show_nat (nat i))"

definition nat_of_digits :: "string \<Rightarrow> nat" where
  "nat_of_digits s = foldl (\<lambda>n c. 10 * n + digit_val c) 0 s"

lemma code_digit_char: "d < 10 \<Longrightarrow> code_of (digit_char d) = 48 + d"
  by (simp add: code_of_def digit_char_def)

lemma isdigit_digit_char: "d < 10 \<Longrightarrow> isdigit (digit_char d)"
  by (simp add: isdigit_def code_digit_char)

lemma digit_val_digit_char: "d < 10 \<Longrightarrow> digit_val (digit_char d) = d"
  by (simp add: digit_val_def code_digit_char)

lemma show_nat_digits: "\<forall>c\<in>set (show_nat n). isdigit c"
proof (induction n rule: show_nat.induct)
  case (1 n)
  then show ?case
    by (subst show_nat.simps) (auto simp: isdigit_digit_char)
qed

lemma show_nat_nonempty [simp]: "show_nat n \<noteq> []"
  by (subst show_nat.simps) simp

lemma nat_of_digits_snoc: "nat_of_digits (s @ [c]) = 10 * nat_of_digits s + digit_val c"
  by (simp add: nat_of_digits_def)

lemma nat_of_digits_show_nat [simp]: "nat_of_digits (show_nat n) = n"
proof (induction n rule: show_nat.induct)
  case (1 n)
  show ?case
  proof (cases "n < 10")
    case True
    then show ?thesis
      by (subst show_nat.simps) (simp add: nat_of_digits_def digit_val_digit_char)
  next
    case False
    with "1.IH" show ?thesis
      by (subst show_nat.simps) (simp add: nat_of_digits_snoc digit_val_digit_char)
  qed
qed

lemma show_nat_inject [simp]: "show_nat m = show_nat n \<longleftrightarrow> m = n"
  by (metis nat_of_digits_show_nat)

lemma not_isdigit_minus [simp]: "\<not> isdigit (CHR ''-'')" "\<not> isdigit (CHR ''+'')"
  by (simp_all add: isdigit_def code_of_def)

lemma show_nat_no_sign: "CHR ''-'' \<notin> set (show_nat n)" "CHR ''+'' \<notin> set (show_nat n)"
  using show_nat_digits[of n] not_isdigit_minus by blast+

text \<open>\<open>%02d\<close>, \<open>%04d\<close>: zero padded to a width.\<close>

definition pad_left :: "char \<Rightarrow> nat \<Rightarrow> string \<Rightarrow> string" where
  "pad_left c w s = replicate (w - length s) c @ s"

lemma length_pad_left: "length (pad_left c w s) = max w (length s)"
  by (simp add: pad_left_def)

subsection \<open>Reading numbers\<close>

text \<open>
  \<open>strtol\<close> with base 10: leading white space, an optional sign, the longest run of digits; no
  digits give 0; out of range values are clamped to \<open>long\<close> (64 bits). \<open>atoi\<close> is
  \<open>(int) strtol\<close>, so it keeps the low 32 bits.
\<close>

definition clamp64 :: "int \<Rightarrow> int" where
  "clamp64 i = max (- (2 ^ 63)) (min (2 ^ 63 - 1) i)"

definition strtol :: "string \<Rightarrow> int" where
  "strtol s = (let t = dropWhile isspace s in
     (case t of
        [] \<Rightarrow> 0
      | c # r \<Rightarrow>
          if c = CHR ''-'' then clamp64 (- int (nat_of_digits (takeWhile isdigit r)))
          else if c = CHR ''+'' then clamp64 (int (nat_of_digits (takeWhile isdigit r)))
          else clamp64 (int (nat_of_digits (takeWhile isdigit t)))))"

definition atoi :: "string \<Rightarrow> int" where
  "atoi s = sint (word_of_int (strtol s) :: 32 word)"

text \<open>
  \<open>boost::lexical_cast<long long>\<close>: the whole string must be an optional sign and digits in
  range, otherwise \<open>bad_lexical_cast\<close> is thrown.
\<close>

definition lexical_ll :: "string \<Rightarrow> int option" where
  "lexical_ll s =
     (let (neg, d) = (case s of
         c # r \<Rightarrow> if c = CHR ''-'' then (True, r) else if c = CHR ''+'' then (False, r) else (False, s)
       | [] \<Rightarrow> (False, []));
       v = (if neg then - int (nat_of_digits d) else int (nat_of_digits d))
     in if d \<noteq> [] \<and> (\<forall>c\<in>set d. isdigit c) \<and> - (2 ^ 63) \<le> v \<and> v < 2 ^ 63 then Some v else None)"

lemma not_isspace_digit: "isdigit c \<Longrightarrow> \<not> isspace c"
  by (auto simp: isdigit_def isspace_def)

lemma show_nat_hd: "\<exists>c r. show_nat n = c # r \<and> isdigit c"
  using show_nat_digits[of n] by (cases "show_nat n") auto

lemma strtol_digits:
  assumes "isdigit c" and "\<forall>x\<in>set r. isdigit x"
  shows "strtol (c # r) = clamp64 (int (nat_of_digits (c # r)))"
proof -
  have "\<not> isspace c" using assms(1) by (rule not_isspace_digit)
  moreover have "c \<noteq> CHR ''-''" "c \<noteq> CHR ''+''" using assms(1) not_isdigit_minus by auto
  ultimately show ?thesis using assms
    by (simp add: strtol_def takeWhile_eq_all_conv[THEN iffD2])
qed

lemma strtol_show_nat: "int n < 2 ^ 63 \<Longrightarrow> strtol (show_nat n) = int n"
proof -
  assume n: "int n < 2 ^ 63"
  obtain c r where cr: "show_nat n = c # r" using show_nat_hd by blast
  with show_nat_digits[of n] have "strtol (show_nat n) = clamp64 (int (nat_of_digits (show_nat n)))"
    by (simp add: strtol_digits)
  with n show ?thesis by (simp add: clamp64_def)
qed

lemma atoi_show_nat: "n < 2 ^ 31 \<Longrightarrow> atoi (show_nat n) = int n"
proof -
  assume n: "n < 2 ^ 31"
  then have "strtol (show_nat n) = int n" by (simp add: strtol_show_nat)
  moreover have "sint (word_of_int (int n) :: 32 word) = int n"
    using n by (subst sint_sbintrunc') (simp add: signed_take_bit_int_eq_self)
  ultimately show ?thesis by (simp add: atoi_def)
qed

lemma lexical_ll_show_nat: "int n < 2 ^ 63 \<Longrightarrow> lexical_ll (show_nat n) = Some (int n)"
proof -
  assume n: "int n < 2 ^ 63"
  obtain c r where cr: "show_nat n = c # r" "isdigit c" using show_nat_hd by blast
  then have sg: "c \<noteq> CHR ''-''" "c \<noteq> CHR ''+''" using not_isdigit_minus by auto
  have "lexical_ll (show_nat n) = (if show_nat n \<noteq> [] \<and> (\<forall>c\<in>set (show_nat n). isdigit c) \<and>
      - (2 ^ 63) \<le> int (nat_of_digits (show_nat n)) \<and> int (nat_of_digits (show_nat n)) < 2 ^ 63
      then Some (int (nat_of_digits (show_nat n))) else None)"
    using cr sg by (simp add: lexical_ll_def)
  then show ?thesis using n show_nat_digits[of n] by simp
qed

text \<open>
  \<open>%u\<close> of an integer argument: hiredis takes an \<open>unsigned int\<close>, so on the platforms the server
  runs on the low 32 bits of the argument are printed.
\<close>

definition fmt_u :: "int \<Rightarrow> string" where
  "fmt_u i = show_nat (nat (i mod 2 ^ 32))"

lemma fmt_u_inject: "fmt_u i = fmt_u j \<longleftrightarrow> i mod 2 ^ 32 = j mod 2 ^ 32"
  by (auto simp: fmt_u_def)

end
