(* ===== verification/Paths.thy ===== *)
theory Paths
  imports CString
begin

text \<open>
  Path names: \<open>CFtpServer::SimplifyPath\<close>, \<open>CClientEntry::BuildVirtualPath\<close> and
  \<open>CClientEntry::BuildPath\<close> (src/src/CFtpServer/CFtpServer.cpp), translated loop by loop, and
  the reference definition they are proved equal to: split the path at its slashes, interpret
  the tokens with a stack (\<open>resolve\<close>), print the stack (\<open>canonical\<close>).
\<close>

section \<open>SimplifyPath\<close>

subsection \<open>The loops of the routine\<close>

text \<open>Replace every backslash by a slash.\<close>

definition unbackslash :: "string \<Rightarrow> string" where
  "unbackslash s = List.map (\<lambda>c. if c = BACKSLASH then CHR ''/'' else c) s"

text \<open>\<open>while ((a = strstr (p, "//")) != NULL) memmove (a, a + 1, strlen (a))\<close>\<close>

function collapse_slashes :: "string \<Rightarrow> string" where
  "collapse_slashes s = (case strstr s ''//'' of
      None \<Rightarrow> s
    | Some a \<Rightarrow> collapse_slashes (cut a 1 s))"
  by pat_completeness auto
termination
  by (relation "measure length") (auto simp: cut_def dest!: strstr_split(2))

text \<open>\<open>while ((a = strstr (p, "/./")) != NULL) memmove (a, a + 2, strlen (a + 1))\<close>\<close>

function drop_dot_dirs :: "string \<Rightarrow> string" where
  "drop_dot_dirs s = (case strstr s ''/./'' of
      None \<Rightarrow> s
    | Some a \<Rightarrow> drop_dot_dirs (cut a 2 s))"
  by pat_completeness auto
termination
  by (relation "measure length") (auto simp: cut_def dest!: strstr_split(2))

text \<open>A leading \<open>./\<close> and then a leading \<open>../\<close> lose their dots.\<close>

definition drop_leading_dots :: "string \<Rightarrow> string" where
  "drop_leading_dots s =
     (let s1 = (if starts ''./'' s then drop 1 s else s)
      in if starts ''../'' s1 then drop 2 s1 else s1)"

text \<open>The first \<open>/.\<close>, when it ends the path.\<close>

definition drop_first_end_dot :: "string \<Rightarrow> string" where
  "drop_first_end_dot s = (case strstr s ''/.'' of
      Some a \<Rightarrow> if a + 2 = length s then take (a + 1) s else s
    | None \<Rightarrow> s)"

text \<open>The loop that looks for a \<open>/.\<close> ending the path, from the position \<open>a\<close> on.\<close>

function drop_end_dot :: "string \<Rightarrow> nat \<Rightarrow> string" where
  "drop_end_dot s a = (case strstr_at s a ''/.'' of
      None \<Rightarrow> s
    | Some i \<Rightarrow> if i + 2 = length s then drop_end_dot (take (i + 1) s) i else drop_end_dot s (i + 1))"
  by pat_completeness auto
termination
  by (relation "measures [\<lambda>(s, a). length s, \<lambda>(s, a). length s - a]")
     (auto dest: strstr_at_bounds)

text \<open>
  One \<open>/..\<close> at \<open>a > 0\<close>: walk back from \<open>a\<close> (\<open>b\<close> is the C pointer before its decrement) to the
  slash before, or to the start of the path, and splice the parent out. The second result is the
  pointer with which the outer loop goes on (\<open>None\<close> is NULL).
\<close>

fun splice_parent :: "string \<Rightarrow> nat \<Rightarrow> nat \<Rightarrow> string \<times> nat option" where
  "splice_parent s a 0 = (s, Some a)"
| "splice_parent s a (Suc b) =
     (if s ! b = CHR ''/'' then
        (let s' = (if b = 0 \<or> (b = 2 \<and> isalpha (s ! 0) \<and> s ! 1 = CHR '':'')
                   then (if char_at s (a + 3) = CHR ''/'' then take b s @ drop (a + 3) s
                         else take (b + 1) s)
                   else take b s @ drop (a + 3) s)
         in (s', strstr s' ''/..''))
      else if b = 0 then
        (let s' = (if char_at s (a + 3) = CHR ''/'' then take a s @ drop (a + 3) s
                   else take (a + 1) s)
         in (s', strstr s' ''/..''))
      else splice_parent s a b)"

lemma splice_parent_shorter:
  "b \<le> a \<Longrightarrow> 0 < b \<Longrightarrow> a + 3 \<le> length s \<Longrightarrow> length (fst (splice_parent s a b)) < length s"
  by (induction s a b rule: splice_parent.induct) (auto simp: Let_def)

text \<open>The loop over \<open>/..\<close>.\<close>

function drop_dotdots :: "string \<Rightarrow> nat \<Rightarrow> string" where
  "drop_dotdots s a0 = (case strstr_at s a0 ''/..'' of
      None \<Rightarrow> s
    | Some a \<Rightarrow>
        if a + 3 = length s \<or> s ! (a + 3) = CHR ''/'' then
          if a = 0 then
            if a + 3 < length s then drop_dotdots (drop 3 s) 0 else take 1 s
          else (case splice_parent s a a of
              (s', None) \<Rightarrow> s'
            | (s', Some a') \<Rightarrow> drop_dotdots s' a')
        else drop_dotdots s (a + 1))"
  by pat_completeness auto
termination
proof (relation "measures [\<lambda>(s, a). length s, \<lambda>(s, a). length s - a]", goal_cases)
  case (3 s a0 a)
  then have "a + 3 \<le> length s" by (auto dest: strstr_at_bounds)
  with 3 splice_parent_shorter[of a a s] show ?case by (auto simp: prod_eq_iff)
qed (auto dest: strstr_at_bounds)

text \<open>Remove the ending slash, but not the one of \<open>/\<close> or of \<open>C:/\<close>.\<close>

definition strip_end_slash :: "string \<Rightarrow> string" where
  "strip_end_slash s =
     (let n = length s in
      if isalpha (char_at s 0) \<and> char_at s 1 = CHR '':'' \<and> char_at s 2 = CHR ''/'' then
        (if n > 3 \<and> s ! (n - 1) = CHR ''/'' then take (n - 1) s else s)
      else if char_at s 0 = CHR ''/'' then
        (if n > 1 \<and> s ! (n - 1) = CHR ''/'' then take (n - 1) s else s)
      else if s ! (n - 1) = CHR ''/'' then take (n - 1) s else s)"

definition simplify_path :: "string \<Rightarrow> string" where
  "simplify_path p =
     (let s1 = collapse_slashes (unbackslash p);
          s2 = drop_leading_dots (drop_dot_dirs s1);
          s3 = drop_end_dot (drop_first_end_dot s2) 0;
          s4 = strip_end_slash (drop_dotdots s3 0)
      in if s4 = [] \<or> s4 = ''..'' \<or> s4 = ''.'' then ''/'' else s4)"

text \<open>The routine itself: a null or empty path is refused and left alone.\<close>

definition SimplifyPath :: "string option \<Rightarrow> bool \<times> string option" where
  "SimplifyPath p = (case p of
      None \<Rightarrow> (False, None)
    | Some s \<Rightarrow> if s = [] then (False, Some s) else (True, Some (simplify_path s)))"

declare collapse_slashes.simps [simp del] drop_dot_dirs.simps [simp del]
  drop_end_dot.simps [simp del] drop_dotdots.simps [simp del]

section \<open>The reference definition\<close>

fun push_token :: "string list \<Rightarrow> string \<Rightarrow> string list" where
  "push_token st t =
     (if t = [] \<or> t = ''.'' then st else if t = ''..'' then tl st else t # st)"

text \<open>The stack of an absolute path, innermost component first, after reading the tokens.\<close>

definition resolve :: "string list \<Rightarrow> string list" where
  "resolve ts = rev (foldl push_token [] ts)"

definition tokens :: "string \<Rightarrow> string list" where
  "tokens s = split (CHR ''/'') s"

fun canonical :: "string list \<Rightarrow> string" where
  "canonical [] = ''/''"
| "canonical cs = concat (map (\<lambda>c. CHR ''/'' # c) cs)"

definition component :: "string \<Rightarrow> bool" where
  "component c \<longleftrightarrow> c \<noteq> [] \<and> c \<noteq> ''.'' \<and> c \<noteq> ''..'' \<and> CHR ''/'' \<notin> set c"

subsection \<open>Tokens\<close>

lemma tokens_not_Nil [simp]: "tokens s \<noteq> []"
  by (simp add: tokens_def)

lemma tokens_append: "tokens (u @ CHR ''/'' # w) = tokens u @ tokens w"
  by (simp add: tokens_def split_append_sep)

lemma tokens_Cons_slash [simp]: "tokens (CHR ''/'' # w) = [] # tokens w"
  by (simp add: tokens_def)

lemma tokens_no_slash: "CHR ''/'' \<notin> set s \<Longrightarrow> tokens s = [s]"
  by (simp add: tokens_def split_no_sep)

lemma tokens_Nil [simp]: "tokens [] = [[]]"
  by (simp add: tokens_def)

lemma tokens_up [simp]: "tokens (CHR ''.'' # CHR ''.'' # CHR ''/'' # v) = ''..'' # tokens v"
  by (simp add: tokens_def split: list.splits)

lemma tokens_inject: "tokens s = tokens t \<longleftrightarrow> s = t"
  by (simp add: tokens_def split_eq_iff)

lemma token_no_slash: "t \<in> set (tokens s) \<Longrightarrow> CHR ''/'' \<notin> set t"
  by (auto simp: tokens_def dest: split_tokens_no_sep)

text \<open>The tokens between two slashes, and the token after the last slash.\<close>

definition mids :: "string \<Rightarrow> string list" where
  "mids s = butlast (tl (tokens s))"

lemma tokens_mid:
  "CHR ''/'' \<notin> set t \<Longrightarrow> tokens (u @ CHR ''/'' # t @ CHR ''/'' # v) = tokens u @ t # tokens v"
  by (simp add: tokens_append tokens_no_slash)

lemma mids_append: "mids (u @ CHR ''/'' # w) = tl (tokens u) @ butlast (tokens w)"
  by (simp add: mids_def tokens_append tl_append butlast_append split: list.splits)

lemma mids_mid:
  "CHR ''/'' \<notin> set t \<Longrightarrow>
     mids (u @ CHR ''/'' # t @ CHR ''/'' # v) = tl (tokens u) @ t # butlast (tokens v)"
  using tokens_mid[of t "[]" v] by (simp add: mids_append)

lemma mid_token_iff:
  assumes "CHR ''/'' \<notin> set t"
  shows "t \<in> set (mids s) \<longleftrightarrow> (\<exists>u v. s = u @ (CHR ''/'' # t @ ''/'') @ v)"
proof
  assume "\<exists>u v. s = u @ (CHR ''/'' # t @ ''/'') @ v"
  then obtain u v where "s = u @ CHR ''/'' # t @ CHR ''/'' # v" by auto
  then show "t \<in> set (mids s)"
    using assms by (simp add: mids_append tokens_append tokens_no_slash butlast_append)
next
  assume m: "t \<in> set (mids s)"
  obtain h ts where hts: "tokens s = h # ts" by (cases "tokens s") auto
  with m have "t \<in> set (butlast ts)" by (simp add: mids_def)
  then obtain xs ys where ts: "ts = xs @ t # ys" "ys \<noteq> []"
    by (metis append.right_neutral append_butlast_last_id append_Cons append_assoc
        butlast.simps(1) in_set_conv_decomp list.distinct(1) list.set_cases split_list)
  have s: "s = join (CHR ''/'') ((h # xs) @ t # ys)"
    using hts ts by (metis append_Cons join_split tokens_def)
  have "s = join (CHR ''/'') (h # xs) @ CHR ''/'' # join (CHR ''/'') (t # ys)"
    unfolding s by (rule join_append) auto
  also have "join (CHR ''/'') (t # ys) = t @ CHR ''/'' # join (CHR ''/'') ys"
    using ts(2) by (rule join_Cons)
  finally show "\<exists>u v. s = u @ (CHR ''/'' # t @ ''/'') @ v" by auto
qed

lemma strstr_mid_None:
  "CHR ''/'' \<notin> set t \<Longrightarrow> strstr s (CHR ''/'' # t @ ''/'') = None \<longleftrightarrow> t \<notin> set (mids s)"
  using mid_token_iff[of t s] by (auto simp: strstr_None_iff)

lemma no_double_slash: "strstr s ''//'' = None \<longleftrightarrow> [] \<notin> set (mids s)"
  using strstr_mid_None[of "[]" s] by simp

lemma no_dot_dir: "strstr s ''/./'' = None \<longleftrightarrow> ''.'' \<notin> set (mids s)"
  using strstr_mid_None[of "''.''" s] by simp

text \<open>The interpretation of a string's tokens does not see empty and dot tokens.\<close>

definition interp :: "string \<Rightarrow> string list" where
  "interp s = resolve (tokens s)"

lemma foldl_push_append:
  "foldl push_token st (as @ bs) = foldl push_token (foldl push_token st as) bs"
  by simp

lemma interp_skip:
  assumes "t = [] \<or> t = ''.''"
  shows "interp (u @ CHR ''/'' # t @ CHR ''/'' # v) = interp (u @ CHR ''/'' # v)"
proof -
  have "CHR ''/'' \<notin> set t" using assms by auto
  with assms show ?thesis
    by (auto simp: interp_def resolve_def tokens_append tokens_no_slash)
qed

lemma interp_end_dot: "interp (u @ ''/.'') = interp (u @ ''/'')"
  by (simp add: interp_def resolve_def tokens_append tokens_no_slash)

subsection \<open>What the loops keep\<close>

definition absolute :: "string \<Rightarrow> bool" where
  "absolute s \<longleftrightarrow> (\<exists>r. s = CHR ''/'' # r)"

lemma absolute_Cons [simp]: "absolute (c # r) \<longleftrightarrow> c = CHR ''/''"
  by (simp add: absolute_def)

lemma not_absolute_Nil [simp]: "\<not> absolute []"
  by (simp add: absolute_def)

lemma absolute_append: "absolute u \<Longrightarrow> absolute (u @ w)"
  by (auto simp: absolute_def)

lemma absolute_append_slash: "absolute (u @ CHR ''/'' # w) \<longleftrightarrow> u = [] \<or> absolute u"
  by (cases u) auto

lemma absolute_tokens: "absolute s \<longleftrightarrow> (\<exists>ts. ts \<noteq> [] \<and> tokens s = [] # ts)"
proof
  assume "absolute s"
  then show "\<exists>ts. ts \<noteq> [] \<and> tokens s = [] # ts" by (auto simp: absolute_def)
next
  assume "\<exists>ts. ts \<noteq> [] \<and> tokens s = [] # ts"
  then obtain ts where "ts \<noteq> []" "tokens s = [] # ts" by blast
  then have "s = join (CHR ''/'') ([] # ts)" by (metis join_split tokens_def)
  with \<open>ts \<noteq> []\<close> show "absolute s" by (simp add: join_Cons)
qed

lemma strstr_cut:
  assumes "strstr s (x # pat) = Some a"
  obtains u v where "s = u @ x # pat @ v" "length u = a"
  using strstr_split[OF assms] by (metis add_leD1 append_Cons length_take min.absorb2)

lemma cut_mid: "k \<le> length pat \<Longrightarrow> length u = a \<Longrightarrow> cut a k (u @ pat @ v) = u @ drop k pat @ v"
  by (simp add: cut_def)

lemma collapse_slashes_correct:
  "absolute s \<Longrightarrow> absolute (collapse_slashes s) \<and> interp (collapse_slashes s) = interp s \<and>
     [] \<notin> set (mids (collapse_slashes s))"
proof (induction s rule: collapse_slashes.induct)
  case (1 s)
  show ?case
  proof (cases "strstr s ''//''")
    case None
    then show ?thesis using 1 by (simp add: no_double_slash[symmetric] collapse_slashes.simps[of s])
  next
    case (Some a)
    then obtain u v where s: "s = u @ ''//'' @ v" "length u = a"
      by (elim strstr_cut) auto
    then have c: "cut a 1 s = u @ CHR ''/'' # v" using cut_mid[of 1 "''//''" u a v] by simp
    moreover have "absolute (cut a 1 s)" using "1.prems" s c by (auto simp: absolute_append_slash)
    moreover have "interp (cut a 1 s) = interp s" using interp_skip[of "[]" u v] s c by simp
    ultimately show ?thesis using "1.IH"[OF Some] Some by (simp add: collapse_slashes.simps[of s])
  qed
qed

lemma drop_dot_dirs_correct:
  "absolute s \<Longrightarrow> [] \<notin> set (mids s) \<Longrightarrow>
     absolute (drop_dot_dirs s) \<and> interp (drop_dot_dirs s) = interp s \<and>
     [] \<notin> set (mids (drop_dot_dirs s)) \<and> ''.'' \<notin> set (mids (drop_dot_dirs s))"
proof (induction s rule: drop_dot_dirs.induct)
  case (1 s)
  show ?case
  proof (cases "strstr s ''/./''")
    case None
    then show ?thesis using 1 by (simp add: no_dot_dir[symmetric] drop_dot_dirs.simps[of s])
  next
    case (Some a)
    then obtain u v where s: "s = u @ ''/./'' @ v" "length u = a"
      by (elim strstr_cut) auto
    then have c: "cut a 2 s = u @ CHR ''/'' # v" using cut_mid[of 2 "''/./''" u a v] by simp
    moreover have "absolute (cut a 2 s)" using "1.prems" s c by (auto simp: absolute_append_slash)
    moreover have "interp (cut a 2 s) = interp s" using interp_skip[of "''.''" u v] s c by simp
    moreover have "[] \<notin> set (mids (cut a 2 s))"
      using "1.prems"(2) s c mids_mid[of "''.''" u v] by (simp add: mids_append)
    ultimately show ?thesis using "1.IH"[OF Some] Some by (simp add: drop_dot_dirs.simps[of s])
  qed
qed

lemma drop_leading_dots_absolute: "absolute s \<Longrightarrow> drop_leading_dots s = s"
  by (auto simp: absolute_def drop_leading_dots_def starts_def)

definition last_token :: "string \<Rightarrow> string" where
  "last_token s = last (tokens s)"

lemma last_token_append: "last_token (u @ CHR ''/'' # w) = last_token w"
  by (simp add: last_token_def tokens_append)

lemma ends_dot_iff: "absolute s \<Longrightarrow> last_token s = ''.'' \<longleftrightarrow> (\<exists>u. s = u @ ''/.'')"
proof
  assume a: "absolute s" and l: "last_token s = ''.''"
  then obtain ts where ts: "tokens s = [] # ts" "ts \<noteq> []" by (auto simp: absolute_tokens)
  then have "tokens s = butlast (tokens s) @ [''.'']" "butlast (tokens s) \<noteq> []"
    using l by (auto simp: last_token_def) (metis append_butlast_last_id)
  then have "s = join (CHR ''/'') (butlast (tokens s)) @ CHR ''/'' # ''.''"
    by (metis join.simps(2) join_append join_split list.distinct(1) tokens_def)
  then show "\<exists>u. s = u @ ''/.''" by auto
next
  assume "\<exists>u. s = u @ ''/.''"
  then show "last_token s = ''.''"
    by (auto simp: last_token_def tokens_append tokens_no_slash)
qed

text \<open>The two steps that remove an ending \<open>/.\<close>, on a path with neither empty nor dot tokens
  inside.\<close>

text \<open>Both steps replace an ending \<open>/.\<close> by \<open>/\<close> or leave the path alone.\<close>

lemma drop_first_end_dot_cases:
  "drop_first_end_dot s = s \<or> (\<exists>u. s = u @ ''/.'' \<and> drop_first_end_dot s = u @ ''/'')"
proof (cases "strstr s ''/.''")
  case None
  then show ?thesis by (simp add: drop_first_end_dot_def)
next
  case (Some a)
  then obtain u v where "s = u @ ''/.'' @ v" "length u = a" by (elim strstr_cut) auto
  with Some show ?thesis by (cases "v = []") (simp_all add: drop_first_end_dot_def)
qed

lemma drop_end_dot_slash: "drop_end_dot (u @ ''/'') (length u) = u @ ''/''"
  by (simp add: drop_end_dot.simps[of "u @ ''/''" "length u"] strstr_at_def starts_def)

lemma strstr_at_end:
  assumes "strstr_at s a (c # pat) = Some i" and "i + length (c # pat) = length s"
  shows "s = take i s @ c # pat"
proof -
  have "starts (c # pat) (drop i s)" using assms(1) by (rule strstr_at_SomeD(2))
  then have "take (length (c # pat)) (drop i s) = c # pat" by (simp add: starts_def)
  moreover have "take (length (c # pat)) (drop i s) = drop i s" using assms(2) by auto
  ultimately show ?thesis by (metis append_take_drop_id)
qed

lemma drop_end_dot_cases:
  "(drop_end_dot s a = s \<and> (\<nexists>u. s = u @ ''/.'' \<and> a \<le> length u)) \<or>
   (\<exists>u. s = u @ ''/.'' \<and> drop_end_dot s a = u @ ''/'')"
proof (induction s a rule: drop_end_dot.induct)
  case (1 s a)
  show ?case
  proof (cases "strstr_at s a ''/.''")
    case None
    have "\<not> (\<exists>u. s = u @ ''/.'' \<and> a \<le> length u)"
    proof
      assume "\<exists>u. s = u @ ''/.'' \<and> a \<le> length u"
      then obtain u where "s = u @ ''/.''" "a \<le> length u" by blast
      with strstr_at_NoneD[OF None, of "length u"] show False by (simp add: starts_def)
    qed
    with None show ?thesis by (simp add: drop_end_dot.simps[of s a])
  next
    case (Some i)
    note b = strstr_at_bounds[OF Some]
    show ?thesis
    proof (cases "i + 2 = length s")
      case True
      with strstr_at_end[OF Some] have s: "s = take i s @ ''/.''" by simp
      have l: "length (take i s) = i" using b by simp
      have "take (i + 1) s = take i s @ ''/''"
        using arg_cong[OF s, of "take (i + 1)"] l by simp
      then have "drop_end_dot s a = take i s @ ''/''"
        using Some True drop_end_dot_slash[of "take i s"] l
        by (simp add: drop_end_dot.simps[of s a])
      with s show ?thesis by blast
    next
      case False
      have later: "i + 1 \<le> length u" if "s = u @ ''/.''" "a \<le> length u" for u
      proof (rule ccontr)
        assume "\<not> i + 1 \<le> length u"
        moreover have "length u \<noteq> i" using that(1) False by auto
        ultimately have "length u < i" by arith
        with strstr_at_SomeD(3)[OF Some] that show False by (auto simp: starts_def)
      qed
      have "drop_end_dot s a = drop_end_dot s (i + 1)"
        using Some False by (simp add: drop_end_dot.simps[of s a])
      with "1.IH"(2)[OF Some False] later show ?thesis by auto
    qed
  qed
qed

lemma end_dot_step:
  assumes "s' = s \<or> (\<exists>u. s = u @ ''/.'' \<and> s' = u @ ''/'')" and "absolute s"
  shows "absolute s' \<and> interp s' = interp s \<and> mids s' = mids s"
  using assms interp_end_dot
  by (auto simp: absolute_append_slash mids_append tokens_no_slash)

lemma remove_end_dot_correct:
  assumes "absolute s"
  defines "s' \<equiv> drop_end_dot (drop_first_end_dot s) 0"
  shows "absolute s' \<and> interp s' = interp s \<and> mids s' = mids s \<and> last_token s' \<noteq> ''.''"
proof -
  let ?s1 = "drop_first_end_dot s"
  have 1: "absolute ?s1 \<and> interp ?s1 = interp s \<and> mids ?s1 = mids s"
    by (rule end_dot_step[OF drop_first_end_dot_cases assms(1)])
  have c: "(s' = ?s1 \<and> (\<nexists>u. ?s1 = u @ ''/.'' \<and> 0 \<le> length u)) \<or>
      (\<exists>u. ?s1 = u @ ''/.'' \<and> s' = u @ ''/'')"
    unfolding s'_def by (rule drop_end_dot_cases)
  have 2: "absolute s' \<and> interp s' = interp ?s1 \<and> mids s' = mids ?s1"
    by (rule end_dot_step) (use c 1 in auto)
  from c have "last_token s' \<noteq> ''.''"
  proof
    assume "s' = ?s1 \<and> (\<nexists>u. ?s1 = u @ ''/.'' \<and> 0 \<le> length u)"
    then show ?thesis using ends_dot_iff[of s'] 2 by auto
  next
    assume "\<exists>u. ?s1 = u @ ''/.'' \<and> s' = u @ ''/''"
    then show ?thesis by (auto simp: last_token_append) (simp add: last_token_def)
  qed
  with 1 2 show ?thesis by simp
qed

subsection \<open>The loop over \<open>/..\<close>\<close>

text \<open>A \<open>/..\<close> that is a whole component.\<close>

definition real_up :: "string \<Rightarrow> nat \<Rightarrow> bool" where
  "real_up s j \<longleftrightarrow> starts ''/..'' (drop j s) \<and> (j + 3 = length s \<or> s ! (j + 3) = CHR ''/'')"

definition tidy :: "string \<Rightarrow> bool" where
  "tidy s \<longleftrightarrow> absolute s \<and> [] \<notin> set (mids s) \<and> ''.'' \<notin> set (mids s) \<and> last_token s \<noteq> ''.''"

lemma real_up_append:
  "w = [] \<or> (\<exists>v. w = CHR ''/'' # v) \<Longrightarrow> real_up (u @ ''/..'' @ w) (length u)"
  by (auto simp: real_up_def starts_def nth_append)

lemma no_real_up:
  assumes "absolute s" and "\<forall>j. \<not> real_up s j"
  shows "''..'' \<notin> set (tl (tokens s))"
proof
  assume m: "''..'' \<in> set (tl (tokens s))"
  from assms(1) obtain ts where ts: "tokens s = [] # ts" "ts \<noteq> []" by (auto simp: absolute_tokens)
  show False
  proof (cases "''..'' \<in> set (mids s)")
    case True
    then obtain u v where "s = u @ ''/..'' @ CHR ''/'' # v"
      using mid_token_iff[of "''..''" s] by auto
    with real_up_append[of "CHR ''/'' # v" u] assms(2) show False by auto
  next
    case False
    with m ts have "last ts = ''..''"
      by (metis append_butlast_last_id in_set_conv_decomp list.sel(3) mids_def
          rotate1.simps(2) set_ConsD set_rotate1)
    with ts have "s = join (CHR ''/'') (([] # butlast ts) @ [''..''])"
      by (metis append_Cons append_butlast_last_id join_split tokens_def)
    then have "s = join (CHR ''/'') ([] # butlast ts) @ ''/..''"
      by (simp add: join_append del: append_Cons)
    with real_up_append[of "[]"] assms(2) show False by (metis append_Nil2)
  qed
qed

lemma real_up_split:
  assumes "real_up s a"
  obtains w where "s = take a s @ ''/..'' @ w" "w = [] \<or> (\<exists>v. w = CHR ''/'' # v)" "a + 3 \<le> length s"
proof -
  from assms have st: "starts ''/..'' (drop a s)" by (simp add: real_up_def)
  note sp = starts_drop_split[OF st]
  let ?w = "drop (a + 3) s"
  have "s = take a s @ ''/..'' @ ?w" "a + 3 \<le> length s"
    using sp by (simp_all add: eval_nat_numeral)
  moreover have "?w = [] \<or> (\<exists>v. ?w = CHR ''/'' # v)"
    using assms by (auto simp: real_up_def) (metis Cons_nth_drop_Suc leI drop_all)
  ultimately show thesis using that by blast
qed

lemma parent_split:
  assumes "absolute s" and "0 < a" and "a \<le> length s"
  obtains u c where "take a s = u @ CHR ''/'' # c" "CHR ''/'' \<notin> set c" "u = [] \<or> absolute u"
proof -
  from assms obtain r where r: "s = CHR ''/'' # r" by (auto simp: absolute_def)
  with assms(2) have "CHR ''/'' \<in> set (take a s)" by (cases a) auto
  then obtain u c where uc: "take a s = u @ CHR ''/'' # c" "CHR ''/'' \<notin> set c"
    by (meson split_list_last)
  moreover have "u = [] \<or> absolute u"
    using uc(1) r assms(2) by (cases u; cases a) auto
  ultimately show thesis using that by blast
qed

lemma splice_parent_walk:
  assumes "s = u @ CHR ''/'' # c @ z" and "CHR ''/'' \<notin> set c"
  shows "b \<le> length c \<Longrightarrow> splice_parent s a (Suc (length u + b)) = splice_parent s a (Suc (length u))"
proof (induction b)
  case 0
  then show ?case by simp
next
  case (Suc b)
  have "s ! (Suc (length u + b)) = c ! b" using Suc.prems assms(1) by (simp add: nth_append)
  moreover have "c ! b \<noteq> CHR ''/''" using Suc.prems assms(2) by (metis nth_mem Suc_le_lessD)
  ultimately show ?case using Suc by simp
qed

lemma not_isalpha_slash [simp]: "\<not> isalpha (CHR ''/'')"
  by (simp add: isalpha_def code_of_def)

lemma splice_parent_result:
  assumes s: "s = u @ CHR ''/'' # c @ ''/..'' @ w" and c: "CHR ''/'' \<notin> set c"
    and u: "u = [] \<or> absolute u" and w: "w = [] \<or> (\<exists>v. w = CHR ''/'' # v)"
  defines "a \<equiv> Suc (length u + length c)"
  defines "s' \<equiv> (if u = [] \<and> w = [] then ''/'' else u @ w)"
  shows "splice_parent s a a = (s', strstr s' ''/..'')"
proof -
  have 1: "splice_parent s a a = splice_parent s a (Suc (length u))"
    unfolding a_def by (rule splice_parent_walk[OF s c]) simp
  have 2: "s ! length u = CHR ''/''" using s by simp
  have 3: "\<not> isalpha (s ! 0)" using u s by (auto simp: absolute_def)
  have "s = (u @ CHR ''/'' # c @ ''/..'') @ w" using s by simp
  moreover have "length (u @ CHR ''/'' # c @ ''/..'') = a + 3" by (simp add: a_def)
  ultimately have 4: "drop (a + 3) s = w" "take (length u) s = u"
    by (metis append_eq_conv_conj) (simp add: s)
  have 5: "char_at s (a + 3) = CHR ''/'' \<longleftrightarrow> w \<noteq> []"
    using w s by (auto simp: char_at_def a_def nth_append)
  have 6: "take (Suc (length u)) s = u @ ''/''" using s by simp
  show ?thesis unfolding 1 s'_def using 2 3 4 5 6 by (auto simp: Let_def)
qed

text \<open>Splicing a component and the \<open>..\<close> after it out of a tidy path.\<close>

lemma interp_pop:
  assumes "component c"
  shows "foldl push_token st [c, ''..''] = st"
  using assms by (simp add: component_def)

lemma splice_keeps_tidy:
  assumes s: "s = u @ CHR ''/'' # c @ ''/..'' @ w" and c: "CHR ''/'' \<notin> set c" "c \<noteq> ''..''"
    and u: "u = [] \<or> absolute u" and w: "w = [] \<or> (\<exists>v. w = CHR ''/'' # v)" and t: "tidy s"
  defines "s' \<equiv> (if u = [] \<and> w = [] then ''/'' else u @ w)"
  shows "tidy s' \<and> interp s' = interp s"
proof -
  have "c \<in> set (mids s)" using mids_mid[OF c(1), of u "''..'' @ w"] s by simp
  with t have comp: "component c" using c by (auto simp: tidy_def component_def)
  show ?thesis
  proof (cases "w = []")
    case False
    with w obtain v where v: "w = CHR ''/'' # v" by blast
    then have tok: "tokens s = tokens u @ [c, ''..''] @ tokens v" "tokens s' = tokens u @ tokens v"
      using s c by (simp_all add: s'_def tokens_append tokens_no_slash)
    have "absolute s'" using u v by (auto simp: s'_def absolute_append)
    moreover have "set (mids s') \<subseteq> set (mids s)"
      by (cases "tokens u") (auto simp: mids_def tok butlast_append)
    moreover have "last_token s' = last_token s" by (simp add: last_token_def tok)
    moreover have "interp s' = interp s"
      using comp by (simp add: interp_def resolve_def tok component_def)
    ultimately show ?thesis using t by (auto simp: tidy_def)
  next
    case True
    show ?thesis
    proof (cases "u = []")
      case T: True
      with True s c comp show ?thesis
        by (simp add: s'_def tidy_def mids_def last_token_def interp_def resolve_def
            tokens_append tokens_no_slash component_def)
    next
      case False
      with u obtain ts where ts: "tokens u = [] # ts" "ts \<noteq> []" by (auto simp: absolute_tokens)
      have tok: "tokens s = tokens u @ [c, ''..'']" "s' = u"
        using s c True False by (simp_all add: s'_def tokens_append tokens_no_slash)
      have "set (tl (tokens u)) \<subseteq> set (mids s)" by (auto simp: mids_def tok ts butlast_append)
      then have sub: "set ts \<subseteq> set (mids s)" by (simp add: ts)
      then have "set (mids s') \<subseteq> set (mids s)"
        by (auto simp: mids_def[of u] tok ts dest: in_set_butlastD)
      moreover have "last_token s' \<in> set (mids s)"
        using sub ts last_in_set[of ts] by (auto simp: last_token_def tok)
      then have "last_token s' \<noteq> ''.''" using t by (auto simp: tidy_def)
      moreover have "interp s' = interp s"
        using comp by (simp add: interp_def resolve_def tok component_def)
      ultimately show ?thesis using t u False tok by (auto simp: tidy_def)
    qed
  qed
qed

lemma leading_up_tidy:
  assumes "s = ''/..'' @ w" and "w = [] \<or> (\<exists>v. w = CHR ''/'' # v)" and "tidy s"
  defines "s' \<equiv> (if w = [] then ''/'' else w)"
  shows "tidy s' \<and> interp s' = interp s"
proof (cases "w = []")
  case True
  with assms show ?thesis
    by (simp add: tidy_def mids_def last_token_def interp_def resolve_def tokens_no_slash)
next
  case False
  with assms obtain v where v: "w = CHR ''/'' # v" by blast
  have tok: "tokens s = [[], ''..''] @ tokens v" "tokens s' = [] # tokens v"
    using assms(1) v tokens_mid[of "''..''" "[]" v] by (simp_all add: s'_def)
  then show ?thesis using assms(3) v
    by (auto simp: tidy_def mids_def last_token_def interp_def resolve_def s'_def)
qed

text \<open>One round of the loop at a real \<open>/..\<close>: at the start of the path, and after it.\<close>

lemma leading_round:
  assumes "tidy s" and "real_up s 0"
  defines "s' \<equiv> (if 3 < length s then drop 3 s else take 1 s)"
  shows "tidy s' \<and> interp s' = interp s"
proof -
  from assms(2) obtain w where w: "s = ''/..'' @ w" "w = [] \<or> (\<exists>v. w = CHR ''/'' # v)"
    by (rule real_up_split) auto
  with leading_up_tidy[OF w assms(1)] show ?thesis by (cases w) (auto simp: s'_def)
qed

lemma parent_round:
  assumes "tidy s" and "real_up s a" and "\<forall>j<a. \<not> real_up s j" and "0 < a"
  obtains s' where "splice_parent s a a = (s', strstr s' ''/..'')" "tidy s'" "interp s' = interp s"
proof -
  from assms(2) obtain w where w: "s = take a s @ ''/..'' @ w" "w = [] \<or> (\<exists>v. w = CHR ''/'' # v)"
    and len: "a + 3 \<le> length s" by (rule real_up_split)
  have "absolute s" "a \<le> length s" using assms(1) len by (auto simp: tidy_def)
  then obtain u c where uc: "take a s = u @ CHR ''/'' # c" "CHR ''/'' \<notin> set c"
      "u = [] \<or> absolute u" using parent_split[OF _ assms(4)] by metis
  have s: "s = u @ CHR ''/'' # c @ ''/..'' @ w" using w(1) uc(1) by simp
  have a: "a = Suc (length u + length c)" using arg_cong[OF uc(1), of length] len by simp
  have "c \<noteq> ''..''"
  proof
    assume "c = ''..''"
    then have "real_up s (length u)" using s real_up_append[of "''/..'' @ w" u] by simp
    with assms(3) a show False by simp
  qed
  from splice_keeps_tidy[OF s uc(2) this uc(3) w(2) assms(1)] show thesis
    using that[OF splice_parent_result[OF s uc(2,3) w(2), folded a]] by blast
qed

lemma drop_dotdots_correct:
  "tidy s \<Longrightarrow> \<forall>j<a0. \<not> real_up s j \<Longrightarrow>
     tidy (drop_dotdots s a0) \<and> interp (drop_dotdots s a0) = interp s \<and>
     ''..'' \<notin> set (tl (tokens (drop_dotdots s a0)))"
proof (induction s a0 rule: drop_dotdots.induct)
  case (1 s a0)
  note tidy = "1.prems"(1)
  then have abs: "absolute s" by (simp add: tidy_def)
  show ?case
  proof (cases "strstr_at s a0 ''/..''")
    case None
    have "\<not> real_up s j" for j
      using "1.prems"(2) strstr_at_NoneD[OF None, of j] by (cases "j < a0") (auto simp: real_up_def)
    with None tidy no_real_up[OF abs] show ?thesis by (simp add: drop_dotdots.simps[of s a0])
  next
    case (Some a)
    note st = strstr_at_SomeD[OF Some]
    have before: "\<forall>j<a. \<not> real_up s j" using "1.prems"(2) st(3) by (meson not_le real_up_def)
    show ?thesis
    proof (cases "a + 3 = length s \<or> s ! (a + 3) = CHR ''/''")
      case False
      then have "\<forall>j<a + 1. \<not> real_up s j" using before by (auto simp: less_Suc_eq real_up_def)
      with "1.IH"(3)[OF Some False] tidy Some False show ?thesis
        by (simp add: drop_dotdots.simps[of s a0])
    next
      case True
      with st(2) have ru: "real_up s a" by (simp add: real_up_def)
      show ?thesis
      proof (cases "a = 0")
        case T: True
        have "tokens ''/'' = [[], []]" by simp
        moreover have "length s \<noteq> 3 \<Longrightarrow> 3 < length s" using st(4) T by simp
        moreover have "take 1 s = ''/''" using abs by (auto simp: absolute_def)
        ultimately show ?thesis using leading_round[OF tidy] ru T "1.IH"(1)[OF Some True T] Some True
          by (cases "3 < length s") (simp_all add: drop_dotdots.simps[of s a0])
      next
        case F: False
        then obtain s' where sp: "splice_parent s a a = (s', strstr s' ''/..'')"
          and t: "tidy s'" "interp s' = interp s" using parent_round[OF tidy ru before] by auto
        show ?thesis
        proof (cases "strstr s' ''/..''")
          case None
          then have "\<not> real_up s' j" for j using strstr_None_starts by (auto simp: real_up_def)
          with no_real_up[of s'] t Some True F sp None show ?thesis
            by (simp add: drop_dotdots.simps[of s a0] tidy_def)
        next
          case S: (Some a')
          then have "\<forall>j<a'. \<not> real_up s' j" using strstr_SomeD[OF S] by (auto simp: real_up_def)
          with "1.IH"(2)[OF Some True F sp[symmetric] S] t Some True F sp S show ?thesis
            by (simp add: drop_dotdots.simps[of s a0])
        qed
      qed
    qed
  qed
qed

subsection \<open>The routine is the reference definition\<close>

lemma push_token_components:
  "\<forall>c\<in>set st. component c \<Longrightarrow> CHR ''/'' \<notin> set t \<Longrightarrow> \<forall>c\<in>set (push_token st t). component c"
  by (cases st) (auto simp: component_def)

lemma foldl_push_token_components:
  "\<forall>t\<in>set ts. CHR ''/'' \<notin> set t \<Longrightarrow> \<forall>c\<in>set st. component c \<Longrightarrow>
     \<forall>c\<in>set (foldl push_token st ts). component c"
proof (induction ts arbitrary: st)
  case Nil
  then show ?case by simp
next
  case (Cons t ts)
  then have "\<forall>c\<in>set (push_token st t). component c" by (intro push_token_components) auto
  with Cons show ?case by (simp del: push_token.simps)
qed

lemma resolve_components: "\<forall>t\<in>set ts. CHR ''/'' \<notin> set t \<Longrightarrow> \<forall>c\<in>set (resolve ts). component c"
  using foldl_push_token_components[of ts "[]"] by (simp add: resolve_def)

lemma interp_components: "\<forall>c\<in>set (interp s). component c"
  unfolding interp_def by (rule resolve_components) (auto dest: token_no_slash)

lemma foldl_push_components:
  "\<forall>c\<in>set cs. component c \<Longrightarrow> foldl push_token st cs = rev cs @ st"
  by (induction cs arbitrary: st) (auto simp: component_def)

lemma resolve_plain: "\<forall>c\<in>set cs. component c \<Longrightarrow> resolve cs = cs"
  by (simp add: resolve_def foldl_push_components)

lemma concat_slash: "cs \<noteq> [] \<Longrightarrow> concat (map (\<lambda>c. CHR ''/'' # c) cs) = CHR ''/'' # join (CHR ''/'') cs"
  by (induction cs rule: join.induct) auto

lemma canonical_join: "cs \<noteq> [] \<Longrightarrow> canonical cs = CHR ''/'' # join (CHR ''/'') cs"
  by (metis canonical.elims concat_slash)

lemma tokens_canonical:
  "\<forall>c\<in>set cs. component c \<Longrightarrow> tokens (canonical cs) = [] # (if cs = [] then [[]] else cs)"
  using split_join[of cs "CHR ''/''"] by (auto simp: canonical_join component_def tokens_def)

lemma interp_canonical: "\<forall>c\<in>set cs. component c \<Longrightarrow> interp (canonical cs) = cs"
  using resolve_plain[of cs] by (auto simp: interp_def tokens_canonical resolve_def)

text \<open>A tidy path without \<open>..\<close> becomes canonical when its ending slash goes.\<close>

lemma strip_canonical:
  assumes "tidy s" and up: "''..'' \<notin> set (tl (tokens s))"
  shows "strip_end_slash s = canonical (interp s)"
proof -
  from assms(1) obtain r where r: "s = CHR ''/'' # r" by (auto simp: tidy_def absolute_def)
  define cs l where "cs = butlast (tokens r)" and "l = last (tokens r)"
  have ts: "tokens r = cs @ [l]" by (simp add: cs_def l_def)
  have rj: "r = join (CHR ''/'') (cs @ [l])" by (metis join_split tokens_def ts)
  have no: "CHR ''/'' \<notin> set t" if "t \<in> set (cs @ [l])" for t using token_no_slash ts that by metis
  have cs: "\<forall>c\<in>set cs. component c"
    using assms no by (auto simp: tidy_def mids_def component_def r ts)
  have l: "l = [] \<or> component l"
    using assms no by (auto simp: tidy_def last_token_def component_def r ts)
  have interp: "interp s = cs @ (if l = [] then [] else [l])"
    using cs l by (auto simp: interp_def resolve_def r ts foldl_push_components)
       (auto simp: component_def)
  have strip: "strip_end_slash s = (if r \<noteq> [] \<and> last r = CHR ''/'' then CHR ''/'' # butlast r else s)"
    by (auto simp: strip_end_slash_def r char_at_def Let_def last_conv_nth butlast_conv_take nth_Cons'
        take_Cons')
  show ?thesis
  proof (cases "l = []")
    case True
    then have "r = (if cs = [] then [] else join (CHR ''/'') cs @ ''/'')"
      using rj by (simp add: join_append)
    with interp strip True r show ?thesis by (simp add: canonical_join)
  next
    case False
    have "r \<noteq> [] \<and> last r = last l"
      using rj False by (cases "cs = []") (auto simp: join_append)
    moreover have "last l \<noteq> CHR ''/''" using no[of l] False last_in_set by force
    ultimately show ?thesis using interp strip False rj r by (simp add: canonical_join)
  qed
qed

lemma simplify_path_absolute:
  assumes "absolute (unbackslash p)"
  shows "simplify_path p = canonical (interp (unbackslash p))"
proof -
  let ?s1 = "collapse_slashes (unbackslash p)"
  let ?s2 = "drop_dot_dirs ?s1"
  let ?s3 = "drop_end_dot (drop_first_end_dot ?s2) 0"
  let ?s4 = "drop_dotdots ?s3 0"
  note 1 = collapse_slashes_correct[OF assms]
  then have 2: "absolute ?s2 \<and> interp ?s2 = interp ?s1 \<and> [] \<notin> set (mids ?s2) \<and> ''.'' \<notin> set (mids ?s2)"
    by (intro drop_dot_dirs_correct) auto
  then have 3: "absolute ?s3 \<and> interp ?s3 = interp ?s2 \<and> mids ?s3 = mids ?s2 \<and> last_token ?s3 \<noteq> ''.''"
    by (intro remove_end_dot_correct) auto
  with 2 have "tidy ?s3" by (auto simp: tidy_def)
  then have 4: "tidy ?s4 \<and> interp ?s4 = interp ?s3 \<and> ''..'' \<notin> set (tl (tokens ?s4))"
    by (rule drop_dotdots_correct) simp
  then have "strip_end_slash ?s4 = canonical (interp (unbackslash p))"
    using strip_canonical[of ?s4] 1 2 3 by simp
  moreover have "canonical cs \<noteq> [] \<and> canonical cs \<noteq> ''..'' \<and> canonical cs \<noteq> ''.''" for cs
    by (cases cs) auto
  ultimately show ?thesis
    using 2 by (simp add: simplify_path_def Let_def drop_leading_dots_absolute)
qed

lemma unbackslash_id: "BACKSLASH \<notin> set s \<Longrightarrow> unbackslash s = s"
  unfolding unbackslash_def by (induction s) auto

lemma unbackslash_no_backslash: "BACKSLASH \<notin> set (unbackslash s)"
  by (auto simp: unbackslash_def)

lemma unbackslash_append: "unbackslash (s @ t) = unbackslash s @ unbackslash t"
  by (simp add: unbackslash_def)

lemma absolute_canonical [simp]: "absolute (canonical cs)"
  by (cases cs) auto

lemma token_subset: "t \<in> set (tokens s) \<Longrightarrow> set t \<subseteq> set s"
proof -
  have "t \<in> set (split x s) \<Longrightarrow> set t \<subseteq> set s" for x
  proof (induction s arbitrary: t)
    case (Cons c s)
    then show ?case by (cases "split x s") (fastforce split: if_splits)+
  qed simp
  then show "t \<in> set (tokens s) \<Longrightarrow> set t \<subseteq> set s" by (simp add: tokens_def)
qed

lemma set_push_token: "set (push_token st t) \<subseteq> insert t (set st)"
  by (cases st) auto

lemma set_foldl_push_token: "set (foldl push_token st ts) \<subseteq> set st \<union> set ts"
proof (induction ts arbitrary: st)
  case (Cons t ts)
  from Cons[of "push_token st t"] set_push_token[of st t] show ?case
    by (auto simp del: push_token.simps)
qed simp

lemma interp_subset: "set (interp s) \<subseteq> set (tokens s)"
  using set_foldl_push_token[of "[]" "tokens s"] by (simp add: interp_def resolve_def)

lemma canonical_chars: "set (canonical cs) \<subseteq> insert (CHR ''/'') (\<Union> (set ` set cs))"
  by (cases cs) auto

lemma canonical_no_backslash:
  "BACKSLASH \<notin> set s \<Longrightarrow> BACKSLASH \<notin> set (canonical (interp s))"
  using canonical_chars[of "interp s"] interp_subset[of s] token_subset by fastforce

section \<open>BuildVirtualPath and BuildPath\<close>

text \<open>\<open>snprintf (buffer, MAX_PATH + 4, "%s/%s", a, b)\<close>: at most \<open>MAX_PATH + 3\<close> characters.\<close>

definition snprintf_path :: "string \<Rightarrow> string \<Rightarrow> string" where
  "snprintf_path a b = take (MAX_PATH + 3) (a @ CHR ''/'' # b)"

lemma snprintf_path_fits:
  "length a + length b \<le> MAX_PATH + 2 \<Longrightarrow> snprintf_path a b = a @ CHR ''/'' # b"
  by (simp add: snprintf_path_def)

text \<open>
  The path a command names, from the client's point of view: \<open>wd\<close> is the working directory,
  \<open>asked\<close> the argument (\<open>None\<close> when the command has none). A path that is too long gives NULL.
\<close>

definition BuildVirtualPath :: "string \<Rightarrow> string option \<Rightarrow> string option" where
  "BuildVirtualPath wd asked =
     (let buffer = (case asked of
          None \<Rightarrow> wd
        | Some p \<Rightarrow>
            if char_at p 0 = CHR ''/'' then simplify_path p
            else simplify_path (snprintf_path wd p))
      in if length buffer \<le> MAX_PATH then Some buffer else None)"

text \<open>
  The path in the virtual file system: the user's start directory, the virtual path, simplified.
  \<open>start\<close> is \<open>None\<close> when the client has no user. The result is the full and the virtual path.
\<close>

definition BuildPath :: "string option \<Rightarrow> string \<Rightarrow> string option \<Rightarrow> (string \<times> string) option" where
  "BuildPath start wd asked = (case start of
      None \<Rightarrow> None
    | Some dir \<Rightarrow> (case BuildVirtualPath wd asked of
          None \<Rightarrow> None
        | Some vp \<Rightarrow>
            let buffer = simplify_path (snprintf_path dir vp)
            in if length buffer \<le> MAX_PATH then Some (buffer, vp) else None))"

text \<open>A working directory as the server keeps it: a canonical path that is not too long.\<close>

definition canonical_path :: "string \<Rightarrow> bool" where
  "canonical_path s \<longleftrightarrow> s = canonical (interp s) \<and> BACKSLASH \<notin> set s"

lemma canonical_path_absolute: "canonical_path s \<Longrightarrow> absolute s"
  by (metis absolute_canonical canonical_path_def)

lemma canonical_path_root [simp]: "canonical_path ''/''"
  by (simp add: canonical_path_def interp_def resolve_def)

lemma canonical_path_simplify:
  "absolute (unbackslash p) \<Longrightarrow> canonical_path (simplify_path p)"
  by (simp add: simplify_path_absolute canonical_path_def interp_canonical interp_components
      canonical_no_backslash unbackslash_no_backslash)

lemma absolute_unbackslash: "absolute p \<Longrightarrow> absolute (unbackslash p)"
  by (auto simp: absolute_def unbackslash_def)

lemma absolute_snprintf: "absolute a \<Longrightarrow> absolute (snprintf_path a b)"
  by (auto simp: snprintf_path_def absolute_def eval_nat_numeral)

lemma char_at_0_slash: "char_at p 0 = CHR ''/'' \<longleftrightarrow> absolute p"
  by (cases p) (auto simp: char_at_def)

lemma canonical_path_fixed: "canonical_path s \<Longrightarrow> simplify_path s = s"
  by (metis absolute_unbackslash canonical_path_absolute canonical_path_def simplify_path_absolute
      unbackslash_id)

lemma BuildVirtualPath_canonical:
  assumes "canonical_path wd" and "BuildVirtualPath wd asked = Some vp"
  shows "canonical_path vp" and "length vp \<le> MAX_PATH"
proof -
  show "length vp \<le> MAX_PATH" using assms(2) by (auto simp: BuildVirtualPath_def Let_def split: if_splits)
  have wd: "absolute wd" using assms(1) by (rule canonical_path_absolute)
  show "canonical_path vp"
  proof (cases asked)
    case None
    with assms show ?thesis by (auto simp: BuildVirtualPath_def Let_def split: if_splits)
  next
    case (Some p)
    have "absolute (unbackslash (snprintf_path wd p))"
      using wd by (intro absolute_unbackslash absolute_snprintf)
    moreover have "absolute p \<Longrightarrow> absolute (unbackslash p)" by (rule absolute_unbackslash)
    ultimately show ?thesis using assms(2) Some
      by (auto simp: BuildVirtualPath_def Let_def char_at_0_slash intro: canonical_path_simplify
          split: if_splits)
  qed
qed

lemma interp_append_canonical:
  assumes "canonical_path vp"
  shows "interp (d @ CHR ''/'' # vp) = interp d @ interp vp"
proof -
  from assms have vp: "vp = canonical (interp vp)" by (simp add: canonical_path_def)
  have "tokens (d @ CHR ''/'' # vp) = tokens d @ tokens vp" by (rule tokens_append)
  moreover have "tokens vp = [] # (if interp vp = [] then [[]] else interp vp)"
    by (subst vp) (rule tokens_canonical[OF interp_components])
  moreover have "foldl push_token st (interp vp) = rev (interp vp) @ st" for st
    by (rule foldl_push_components[OF interp_components])
  ultimately have "resolve (tokens (d @ CHR ''/'' # vp)) = resolve (tokens d) @ interp vp"
    by (simp add: resolve_def)
  then show ?thesis by (simp add: interp_def)
qed

lemma BuildPath_parts:
  assumes "BuildPath start wd asked = Some (p, vp)"
  obtains dir where "start = Some dir" "BuildVirtualPath wd asked = Some vp"
    "p = simplify_path (snprintf_path dir vp)" "length p \<le> MAX_PATH"
  using assms by (auto simp: BuildPath_def Let_def split: option.splits if_splits)

section \<open>The properties\<close>

text \<open>C1: \<open>SimplifyPath\<close>, with its nine string-rewriting passes, computes on every path that
  begins with a slash (or a backslash) exactly the reference: read backslashes as slashes, split
  at the slashes, ignore empty and \<open>.\<close> tokens, let \<open>..\<close> drop the component before it (nothing at
  the root), and print the components, each after a slash.\<close>

theorem SimplifyPath_reference:
  assumes "p \<noteq> []" and "absolute (unbackslash p)"
  shows "SimplifyPath (Some p) = (True, Some (canonical (resolve (tokens (unbackslash p)))))"
  using assms by (simp add: SimplifyPath_def simplify_path_absolute interp_def)

theorem SimplifyPath_reference_witness:
  "SimplifyPath (Some ''/a//b/./../c/'') = (True, Some ''/a/c'')"
proof -
  have "absolute (unbackslash ''/a//b/./../c/'')" by (simp add: unbackslash_def)
  then have "SimplifyPath (Some ''/a//b/./../c/'') =
      (True, Some (canonical (resolve (tokens (unbackslash ''/a//b/./../c/'')))))"
    by (intro SimplifyPath_reference) simp
  also have "canonical (resolve (tokens (unbackslash ''/a//b/./../c/''))) = ''/a/c''" by code_simp
  finally show ?thesis .
qed



text \<open>The virtual path of a command is canonical and fits the working directory buffer, and
  building it again from itself changes nothing (a \<open>CWD\<close> to the directory one is in is the
  identity).\<close>

theorem BuildVirtualPath_stable:
  assumes "canonical_path wd" and "BuildVirtualPath wd asked = Some vp"
  shows "canonical_path vp \<and> length vp \<le> MAX_PATH \<and> BuildVirtualPath vp (Some vp) = Some vp \<and>
    BuildVirtualPath vp None = Some vp"
proof -
  note c = BuildVirtualPath_canonical[OF assms]
  then have "absolute vp" by (intro canonical_path_absolute)
  with c show ?thesis by (simp add: BuildVirtualPath_def char_at_0_slash canonical_path_fixed)
qed

theorem BuildVirtualPath_stable_witness:
  "canonical_path ''/pub'' \<and> BuildVirtualPath ''/pub'' (Some ''a/../b'') = Some ''/pub/b'' \<and>
   BuildVirtualPath ''/pub/b'' (Some ''/pub/b'') = Some ''/pub/b''"
proof -
  have 1: "canonical_path ''/pub''" by code_simp
  have "simplify_path ''/pub/a/../b'' = ''/pub/b''" by code_simp
  then have 2: "BuildVirtualPath ''/pub'' (Some ''a/../b'') = Some ''/pub/b''"
    by (simp add: BuildVirtualPath_def char_at_def snprintf_path_fits MAX_PATH_def)
  from BuildVirtualPath_stable[OF 1 2] 1 2 show ?thesis by simp
qed

end
