(* ===== verification/RedisDb.thy ===== *)
theory RedisDb
  imports CString "HOL-Library.AList"
begin

text \<open>
  The Redis server as the program sees it through hiredis: a function from commands to replies,
  which is a parameter of every definition that talks to the database (record \<open>redis\<close>). What the
  program relies on is the locale \<open>redis_server\<close>: the documented behaviour of the hash and counter
  commands and of \<open>MULTI\<close>/\<open>EXEC\<close>. An in-memory store shows that the laws can hold.
\<close>

section \<open>Commands and replies\<close>

datatype rcmd =
    SELECT nat
  | HGETALL string
  | HLEN string
  | HSET string string string
  | HDEL string string
  | DEL string
  | INCR string
  | SET string string
  | FLUSHDB
  | MULTI
  | EXEC
  | Malformed string      \<comment> \<open>a command line Redis rejects\<close>

datatype redisReply =
    ReplyArray "string list"
  | ReplyInteger int
  | ReplyStatus
  | ReplyError

text \<open>\<open>reply->elements\<close> and \<open>reply->integer\<close>: hiredis allocates replies zeroed.\<close>

fun elements :: "redisReply \<Rightarrow> nat" where
  "elements (ReplyArray xs) = length xs"
| "elements _ = 0"

fun reply_integer :: "redisReply \<Rightarrow> int" where
  "reply_integer (ReplyInteger i) = i"
| "reply_integer _ = 0"

text \<open>
  A connection: \<open>redis_cmd\<close> is \<open>redisCommand\<close> (\<open>None\<close> is the NULL it returns when the connection
  fails) and \<open>redis_err\<close> is \<open>c->err\<close>. \<open>'db\<close> is the state of the server and of the connection.
\<close>

record 'db redis =
  redis_cmd :: "rcmd \<Rightarrow> 'db \<Rightarrow> redisReply option \<times> 'db"
  redis_err :: "'db \<Rightarrow> bool"

text \<open>A command whose reply is read: a null reply is dereferenced.\<close>

definition query :: "'db redis \<Rightarrow> rcmd \<Rightarrow> 'db \<Rightarrow> (redisReply \<times> 'db) outcome" where
  "query R c db = (case redis_cmd R c db of
      (None, db') \<Rightarrow> Crash NullReply
    | (Some r, db') \<Rightarrow> Ret (r, db'))"

text \<open>Commands whose replies are only freed.\<close>

definition run_all :: "'db redis \<Rightarrow> rcmd list \<Rightarrow> 'db \<Rightarrow> 'db" where
  "run_all R cs db = fold (\<lambda>c db. snd (redis_cmd R c db)) cs db"

lemma run_all_append: "run_all R (as @ bs) db = run_all R bs (run_all R as db)"
  by (simp add: run_all_def)

lemma run_all_Cons: "run_all R (c # cs) db = run_all R cs (snd (redis_cmd R c db))"
  by (simp add: run_all_def)

lemma run_all_Nil [simp]: "run_all R [] db = db"
  by (simp add: run_all_def)

section \<open>The laws\<close>

text \<open>The contents of a database: the hashes, the counters, and the commands queued by \<open>MULTI\<close>.\<close>

record rview =
  hashes :: "string \<Rightarrow> string \<rightharpoonup> string"
  counters :: "string \<Rightarrow> int"
  queue :: "rcmd list option"

fun is_write :: "rcmd \<Rightarrow> bool" where
  "is_write (HSET k f v) = True"
| "is_write (HDEL k f) = True"
| "is_write (DEL k) = True"
| "is_write _ = False"

fun apply_write :: "rcmd \<Rightarrow> (string \<Rightarrow> string \<rightharpoonup> string) \<Rightarrow> string \<Rightarrow> string \<rightharpoonup> string" where
  "apply_write (HSET k f v) h = h(k := (h k)(f \<mapsto> v))"
| "apply_write (HDEL k f) h = h(k := (h k)(f := None))"
| "apply_write (DEL k) h = h(k := Map.empty)"
| "apply_write _ h = h"

definition apply_writes :: "rcmd list \<Rightarrow> (string \<Rightarrow> string \<rightharpoonup> string) \<Rightarrow> string \<Rightarrow> string \<rightharpoonup> string" where
  "apply_writes cs h = fold apply_write cs h"

lemma apply_writes_simps [simp]:
  "apply_writes [] h = h"
  "apply_writes (c # cs) h = apply_writes cs (apply_write c h)"
  by (simp_all add: apply_writes_def)

lemma apply_writes_append: "apply_writes (as @ bs) h = apply_writes bs (apply_writes as h)"
  by (simp add: apply_writes_def)

fun flatten :: "(string \<times> string) list \<Rightarrow> string list" where
  "flatten [] = []"
| "flatten ((k, v) # ps) = k # v # flatten ps"

lemma length_flatten [simp]: "length (flatten ps) = 2 * length ps"
  by (induction ps rule: flatten.induct) auto

text \<open>A usable connection: live and not inside a transaction.\<close>

definition usable :: "('db \<Rightarrow> rview) \<Rightarrow> ('db \<Rightarrow> bool) \<Rightarrow> 'db \<Rightarrow> bool" where
  "usable view live db \<longleftrightarrow> live db \<and> queue (view db) = None"

locale redis_server =
  fixes R :: "'db redis"
    and view :: "'db \<Rightarrow> rview"
    and live :: "'db \<Rightarrow> bool"
  assumes live_err: "live db \<Longrightarrow> \<not> redis_err R db"
    and finite_hash: "live db \<Longrightarrow> finite (dom (hashes (view db) k))"
    and hgetall: "live db \<Longrightarrow> queue (view db) = None \<Longrightarrow>
      \<exists>ps. redis_cmd R (HGETALL k) db = (Some (ReplyArray (flatten ps)), db) \<and>
           distinct (map fst ps) \<and> map_of ps = hashes (view db) k"
    and hlen: "live db \<Longrightarrow> queue (view db) = None \<Longrightarrow>
      redis_cmd R (HLEN k) db = (Some (ReplyInteger (int (card (dom (hashes (view db) k))))), db)"
    and incr: "live db \<Longrightarrow> queue (view db) = None \<Longrightarrow>
      \<exists>db'. redis_cmd R (INCR k) db = (Some (ReplyInteger (counters (view db) k + 1)), db') \<and> live db' \<and>
        view db' = (view db)\<lparr>counters := (counters (view db))(k := counters (view db) k + 1)\<rparr>"
    and direct_write: "live db \<Longrightarrow> queue (view db) = None \<Longrightarrow> is_write c \<Longrightarrow>
      live (snd (redis_cmd R c db)) \<and>
      view (snd (redis_cmd R c db)) = (view db)\<lparr>hashes := apply_write c (hashes (view db))\<rparr>"
    and sel: "live db \<Longrightarrow> queue (view db) = None \<Longrightarrow>
      live (snd (redis_cmd R (SELECT n) db)) \<and> view (snd (redis_cmd R (SELECT n) db)) = view db"
    and multi: "live db \<Longrightarrow> queue (view db) = None \<Longrightarrow>
      live (snd (redis_cmd R MULTI db)) \<and> view (snd (redis_cmd R MULTI db)) = (view db)\<lparr>queue := Some []\<rparr>"
    and enqueue: "live db \<Longrightarrow> queue (view db) = Some q \<Longrightarrow> is_write c \<Longrightarrow>
      live (snd (redis_cmd R c db)) \<and>
      view (snd (redis_cmd R c db)) = (view db)\<lparr>queue := Some (q @ [c])\<rparr>"
    and exec: "live db \<Longrightarrow> queue (view db) = Some q \<Longrightarrow>
      live (snd (redis_cmd R EXEC db)) \<and>
      view (snd (redis_cmd R EXEC db)) =
        (view db)\<lparr>hashes := apply_writes q (hashes (view db)), queue := None\<rparr>"
begin

abbreviation idle :: "'db \<Rightarrow> bool" where
  "idle db \<equiv> usable view live db"

lemma enqueue_all:
  "live db \<Longrightarrow> queue (view db) = Some q \<Longrightarrow> \<forall>c\<in>set cs. is_write c \<Longrightarrow>
     live (run_all R cs db) \<and> view (run_all R cs db) = (view db)\<lparr>queue := Some (q @ cs)\<rparr>"
proof (induction cs arbitrary: db q)
  case Nil
  then show ?case by (simp add: rview.equality)
next
  case (Cons c cs)
  have e: "live (snd (redis_cmd R c db))"
    "view (snd (redis_cmd R c db)) = (view db)\<lparr>queue := Some (q @ [c])\<rparr>"
    using enqueue[of db q c] Cons.prems by auto
  with Cons.IH[of "snd (redis_cmd R c db)" "q @ [c]"] Cons.prems show ?case
    by (simp add: run_all_Cons)
qed

lemma transaction:
  assumes "idle db" and "\<forall>c\<in>set cs. is_write c"
  defines "db' \<equiv> run_all R (MULTI # cs @ [EXEC]) db"
  shows "idle db'" and "view db' = (view db)\<lparr>hashes := apply_writes cs (hashes (view db))\<rparr>"
proof -
  let ?m = "snd (redis_cmd R MULTI db)"
  have m: "live ?m" "view ?m = (view db)\<lparr>queue := Some []\<rparr>"
    using multi[of db] assms(1) by (auto simp: usable_def)
  have q: "live (run_all R cs ?m)" "view (run_all R cs ?m) = (view db)\<lparr>queue := Some cs\<rparr>"
    using enqueue_all[of ?m "[]" cs] m assms(2) by auto
  have db': "db' = snd (redis_cmd R EXEC (run_all R cs ?m))"
    by (simp add: db'_def run_all_Cons run_all_append)
  show "idle db'" "view db' = (view db)\<lparr>hashes := apply_writes cs (hashes (view db))\<rparr>"
    using exec[of "run_all R cs ?m" cs] q assms(1) unfolding db' by (auto simp: usable_def)
qed

lemma query_hgetall:
  assumes "idle db"
  obtains ps where "query R (HGETALL k) db = Ret (ReplyArray (flatten ps), db)"
    "distinct (map fst ps)" "map_of ps = hashes (view db) k"
  using hgetall[of db k] assms by (auto simp: usable_def query_def)

lemma query_hlen:
  "idle db \<Longrightarrow> query R (HLEN k) db = Ret (ReplyInteger (int (card (dom (hashes (view db) k)))), db)"
  using hlen[of db k] by (auto simp: usable_def query_def)

lemma query_incr:
  assumes "idle db"
  obtains db' where "query R (INCR k) db = Ret (ReplyInteger (counters (view db) k + 1), db')" "idle db'"
    "view db' = (view db)\<lparr>counters := (counters (view db))(k := counters (view db) k + 1)\<rparr>"
  using incr[of db k] assms by (auto simp: usable_def query_def)

lemma idle_err: "idle db \<Longrightarrow> \<not> redis_err R db"
  by (simp add: usable_def live_err)

end

text \<open>
  What the initialisation of a database relies on besides: \<open>FLUSHDB\<close>, setting a counter, and that a
  command with a wrong number of arguments does nothing.
\<close>

locale redis_admin = redis_server +
  assumes flush: "live db \<Longrightarrow> queue (view db) = None \<Longrightarrow>
      live (snd (redis_cmd R FLUSHDB db)) \<and>
      view (snd (redis_cmd R FLUSHDB db)) = (view db)\<lparr>hashes := (\<lambda>_. Map.empty), counters := (\<lambda>_. 0)\<rparr>"
    and set_counter: "live db \<Longrightarrow> queue (view db) = None \<Longrightarrow> lexical_ll v = Some i \<Longrightarrow>
      live (snd (redis_cmd R (SET k v) db)) \<and>
      view (snd (redis_cmd R (SET k v) db)) =
        (view db)\<lparr>hashes := (hashes (view db))(k := Map.empty), counters := (counters (view db))(k := i)\<rparr>"
    and malformed: "live db \<Longrightarrow> queue (view db) = None \<Longrightarrow>
      live (snd (redis_cmd R (Malformed l) db)) \<and> view (snd (redis_cmd R (Malformed l) db)) = view db"
begin

text \<open>The effect of a command on the contents.\<close>

fun effect_of :: "rcmd \<Rightarrow> rview \<Rightarrow> rview" where
  "effect_of FLUSHDB v = v\<lparr>hashes := (\<lambda>_. Map.empty), counters := (\<lambda>_. 0)\<rparr>"
| "effect_of (SET k s) v = v\<lparr>hashes := (hashes v)(k := Map.empty),
     counters := (counters v)(k := the (lexical_ll s))\<rparr>"
| "effect_of (Malformed l) v = v"
| "effect_of c v = v\<lparr>hashes := apply_write c (hashes v)\<rparr>"

fun settable :: "rcmd \<Rightarrow> bool" where
  "settable FLUSHDB = True"
| "settable (SET k s) = (lexical_ll s \<noteq> None)"
| "settable (Malformed l) = True"
| "settable c = is_write c"

lemma effect_one:
  assumes "idle db" and "settable c"
  shows "idle (snd (redis_cmd R c db)) \<and> view (snd (redis_cmd R c db)) = effect_of c (view db)"
  using assms direct_write[of db c] flush[of db] set_counter[of db] malformed[of db]
  by (cases c) (auto simp: usable_def)

lemma effect_all:
  "idle db \<Longrightarrow> \<forall>c\<in>set cs. settable c \<Longrightarrow>
     idle (run_all R cs db) \<and> view (run_all R cs db) = fold effect_of cs (view db)"
proof (induction cs arbitrary: db)
  case (Cons c cs)
  then have "idle (snd (redis_cmd R c db))" "view (snd (redis_cmd R c db)) = effect_of c (view db)"
    using effect_one by auto
  with Cons.IH[of "snd (redis_cmd R c db)"] Cons.prems show ?case by (simp add: run_all_Cons)
qed simp

end

section \<open>An in-memory server\<close>

text \<open>A server that keeps everything in memory, hashes as association lists in insertion order.\<close>

record mem =
  m_hash :: "string \<Rightarrow> (string \<times> string) list"
  m_count :: "string \<Rightarrow> int"
  m_queue :: "rcmd list option"

fun mem_write :: "rcmd \<Rightarrow> mem \<Rightarrow> mem" where
  "mem_write (HSET k f v) m = m\<lparr>m_hash := (m_hash m)(k := AList.update f v (m_hash m k))\<rparr>"
| "mem_write (HDEL k f) m = m\<lparr>m_hash := (m_hash m)(k := AList.delete f (m_hash m k))\<rparr>"
| "mem_write (DEL k) m = m\<lparr>m_hash := (m_hash m)(k := [])\<rparr>"
| "mem_write c m = m"

fun mem_command :: "rcmd \<Rightarrow> mem \<Rightarrow> redisReply option \<times> mem" where
  "mem_command MULTI m = (Some ReplyStatus, m\<lparr>m_queue := Some []\<rparr>)"
| "mem_command EXEC m = (case m_queue m of
      None \<Rightarrow> (Some ReplyError, m)
    | Some q \<Rightarrow> (Some (ReplyArray []), fold mem_write q (m\<lparr>m_queue := None\<rparr>)))"
| "mem_command c m = (case m_queue m of
      Some q \<Rightarrow> (Some ReplyStatus, m\<lparr>m_queue := Some (q @ [c])\<rparr>)
    | None \<Rightarrow> (case c of
        HGETALL k \<Rightarrow> (Some (ReplyArray (flatten (m_hash m k))), m)
      | HLEN k \<Rightarrow> (Some (ReplyInteger (int (length (m_hash m k)))), m)
      | INCR k \<Rightarrow> (Some (ReplyInteger (m_count m k + 1)), m\<lparr>m_count := (m_count m)(k := m_count m k + 1)\<rparr>)
      | FLUSHDB \<Rightarrow> (Some ReplyStatus, m\<lparr>m_hash := (\<lambda>_. []), m_count := (\<lambda>_. 0)\<rparr>)
      | SET k v \<Rightarrow> (Some ReplyStatus, m\<lparr>m_hash := (m_hash m)(k := []),
          m_count := (m_count m)(k := (case lexical_ll v of Some i \<Rightarrow> i | None \<Rightarrow> 0))\<rparr>)
      | Malformed l \<Rightarrow> (Some ReplyError, m)
      | _ \<Rightarrow> (Some ReplyStatus, mem_write c m)))"

definition mem_redis :: "mem redis" where
  "mem_redis = \<lparr>redis_cmd = mem_command, redis_err = (\<lambda>_. False)\<rparr>"

definition mem_view :: "mem \<Rightarrow> rview" where
  "mem_view m = \<lparr>hashes = (\<lambda>k. map_of (m_hash m k)), counters = m_count m, queue = m_queue m\<rparr>"

definition mem_live :: "mem \<Rightarrow> bool" where
  "mem_live m \<longleftrightarrow> (\<forall>k. distinct (map fst (m_hash m k)))"

definition empty_mem :: mem where
  "empty_mem = \<lparr>m_hash = (\<lambda>_. []), m_count = (\<lambda>_. 0), m_queue = None\<rparr>"

lemma mem_live_empty [simp]: "mem_live empty_mem"
  by (simp add: mem_live_def empty_mem_def)

lemma mem_write_live: "mem_live m \<Longrightarrow> mem_live (mem_write c m)"
  by (cases c) (auto simp: mem_live_def distinct_update distinct_delete)

lemma mem_write_view:
  "mem_view (mem_write c m) = (mem_view m)\<lparr>hashes := apply_write c (hashes (mem_view m))\<rparr>"
  by (cases c) (auto simp: mem_view_def fun_eq_iff update_conv' delete_conv')

lemma mem_writes:
  "mem_live m \<Longrightarrow> mem_live (fold mem_write q m) \<and>
     mem_view (fold mem_write q m) = (mem_view m)\<lparr>hashes := apply_writes q (hashes (mem_view m))\<rparr>"
  by (induction q arbitrary: m) (simp_all add: mem_write_live mem_write_view)

interpretation mem: redis_server mem_redis mem_view mem_live
proof (unfold_locales, goal_cases)
  case (1 db) then show ?case by (simp add: mem_redis_def)
next
  case (2 db k) then show ?case by (simp add: mem_view_def finite_dom_map_of)
next
  case (3 db k)
  then show ?case by (intro exI[of _ "m_hash db k"]) (auto simp: mem_redis_def mem_view_def mem_live_def)
next
  case (4 db k)
  then have "distinct (map fst (m_hash db k))" by (simp add: mem_live_def)
  then have "card (dom (map_of (m_hash db k))) = length (m_hash db k)"
    using distinct_card[of "map fst (m_hash db k)"] by (simp add: dom_map_of_conv_image_fst)
  with 4 show ?case by (simp add: mem_redis_def mem_view_def)
next
  case (5 db k) then show ?case by (simp add: mem_redis_def mem_view_def mem_live_def)
next
  case (6 db c)
  then have "snd (mem_command c db) = mem_write c db" by (cases c) (auto simp: mem_view_def)
  with 6 show ?case by (simp add: mem_redis_def mem_write_live mem_write_view)
next
  case (7 db n) then show ?case by (simp add: mem_redis_def mem_view_def mem_live_def)
next
  case (8 db) then show ?case by (simp add: mem_redis_def mem_view_def mem_live_def)
next
  case (9 db q c)
  then have "snd (mem_command c db) = db\<lparr>m_queue := Some (q @ [c])\<rparr>" by (cases c) (auto simp: mem_view_def)
  with 9 show ?case by (simp add: mem_redis_def mem_view_def mem_live_def)
next
  case (10 db q)
  have "mem_live (db\<lparr>m_queue := None\<rparr>)" using 10 by (simp add: mem_live_def)
  from mem_writes[OF this, of q] 10 show ?case by (simp add: mem_redis_def mem_view_def)
qed

interpretation mem: redis_admin mem_redis mem_view mem_live
proof (unfold_locales, goal_cases)
  case (1 db) then show ?case by (simp add: mem_redis_def mem_view_def mem_live_def fun_eq_iff)
next
  case (2 db v i k) then show ?case by (auto simp: mem_redis_def mem_view_def mem_live_def fun_eq_iff)
next
  case (3 db l) then show ?case by (simp add: mem_redis_def mem_view_def mem_live_def)
qed

lemma mem_usable: "usable mem_view mem_live m \<longleftrightarrow> mem_live m \<and> m_queue m = None"
  by (simp add: usable_def mem_view_def)

end
