(* ===== verification/RedisVfs.thy ===== *)
theory RedisVfs
  imports Paths RedisDb
begin

text \<open>
  The virtual file system (\<open>redis_classes.hpp\<close>): the directory tree in Redis. A directory with file
  id \<open>f\<close> is the hash \<open>dirent:f\<close> from names to file ids, every file has its attributes in \<open>stat:f\<close>.
  The operations are the static functions of \<open>redis_vfs\<close>; the lemmas of the second half hold for
  every server that obeys the laws of \<open>redis_server\<close>. \<open>freeReplyObject\<close> takes a null reply.
\<close>

section \<open>Replies as maps\<close>

text \<open>\<open>std::map\<close>: an association list sorted by key; \<open>row[k] = v\<close>.\<close>

fun map_put :: "string \<Rightarrow> 'v \<Rightarrow> (string \<times> 'v) list \<Rightarrow> (string \<times> 'v) list" where
  "map_put k v [] = [(k, v)]"
| "map_put k v ((k', v') # m) =
     (if k < k' then (k, v) # (k', v') # m
      else if k = k' then (k, v) # m
      else (k', v') # map_put k v m)"

text \<open>\<open>to_map<T>\<close>, with \<open>boost::lexical_cast<T>\<close> as \<open>cast\<close>.\<close>

fun rows :: "(string \<Rightarrow> 'v option) \<Rightarrow> string list \<Rightarrow> (string \<times> 'v) list \<Rightarrow> (string \<times> 'v) list outcome" where
  "rows cast [] m = Ret m"
| "rows cast [k] m = Crash OutOfBounds"
| "rows cast (k # v # r) m = (case cast v of
      None \<Rightarrow> Crash BadCast
    | Some x \<Rightarrow> rows cast r (map_put k x m))"

definition to_map :: "(string \<Rightarrow> 'v option) \<Rightarrow> redisReply \<Rightarrow> (string \<times> 'v) list outcome" where
  "to_map cast r = (case r of ReplyArray xs \<Rightarrow> rows cast xs [] | _ \<Rightarrow> Ret [])"

text \<open>\<open>m[k]\<close> of a \<open>map<string, string>\<close>: a missing key gives the empty string.\<close>

definition field :: "(string \<times> string) list \<Rightarrow> string \<Rightarrow> string" where
  "field m k = (case map_of m k of None \<Rightarrow> [] | Some v \<Rightarrow> v)"

text \<open>\<open>to_set<T>\<close>, on strings.\<close>

fun set_put :: "string \<Rightarrow> string list \<Rightarrow> string list" where
  "set_put k [] = [k]"
| "set_put k (x # xs) = (if k < x then k # x # xs else if k = x then x # xs else x # set_put k xs)"

definition to_set :: "redisReply \<Rightarrow> string list" where
  "to_set r = (case r of ReplyArray xs \<Rightarrow> fold set_put xs [] | _ \<Rightarrow> [])"

section \<open>Keys\<close>

definition dirent_key :: "int \<Rightarrow> string" where
  "dirent_key fid = ''dirent:'' @ fmt_u fid"

definition stat_key :: "int \<Rightarrow> string" where
  "stat_key fid = ''stat:'' @ fmt_u fid"

definition diren_key :: "int \<Rightarrow> string" where
  "diren_key fid = ''diren:'' @ fmt_u fid"

text \<open>The conversion of a \<open>long long\<close> to \<open>int\<close>, and of an \<open>int\<close> to unsigned types.\<close>

definition to_int :: "int \<Rightarrow> int" where
  "to_int i = sint (word_of_int i :: 32 word)"

definition to_unsigned :: "int \<Rightarrow> int" where
  "to_unsigned i = i mod 2 ^ 32"

definition to_ushort :: "int \<Rightarrow> nat" where
  "to_ushort i = nat (i mod 2 ^ 16)"

section \<open>Looking up a path\<close>

text \<open>
  The loop of \<open>lookup_fid\<close> over the tokens that are left. A directory without entries answers an
  empty array, and then the loop polls the same hash again: \<open>None\<close> is not returning.
\<close>

partial_function (option) lookup_loop ::
  "'db redis \<Rightarrow> int \<Rightarrow> string list \<Rightarrow> 'db \<Rightarrow> (int \<times> 'db) outcome option" where
  "lookup_loop R fid ts db =
     (if ts = [] then Some (Ret (fid, db))
      else (case query R (HGETALL (dirent_key fid)) db of
          Crash e \<Rightarrow> Some (Crash e)
        | Hang \<Rightarrow> None
        | Ret rd \<Rightarrow>
            (if elements (fst rd) > 0 then
               (case to_map lexical_ll (fst rd) of
                  Crash e \<Rightarrow> Some (Crash e)
                | Hang \<Rightarrow> None
                | Ret m \<Rightarrow> (case map_of m (hd ts) of
                      None \<Rightarrow> Some (Ret (- 1, snd rd))
                    | Some v \<Rightarrow> lookup_loop R (to_int v) (tl ts) (snd rd)))
             else lookup_loop R fid ts (snd rd))))"

text \<open>
  \<open>tokens.back ()\<close> on an empty vector is an access out of bounds; \<open>tokens.erase (tokens.end ())\<close>
  is undefined too, and drops the last token in the library the server is built with.
\<close>

definition lookup_fid :: "'db redis \<Rightarrow> string \<Rightarrow> 'db \<Rightarrow> (int \<times> 'db) outcome" where
  "lookup_fid R path db =
     (let ts = tokens path in
      if length ts = 2 \<and> ts ! 1 = [] then Ret (0, db)
      else if tl ts = [] then Crash OutOfBounds
      else (let ts' = (if last (tl ts) = [] then butlast (tl ts) else tl ts)
            in case lookup_loop R 0 ts' db of None \<Rightarrow> Hang | Some r \<Rightarrow> r))"

text \<open>
  The split at the last slash or backslash. \<open>find_last_of\<close> answers \<open>npos\<close>, all ones, when there is
  none; then \<open>found + 1\<close> is 0.
\<close>

definition separator :: "char \<Rightarrow> bool" where
  "separator c \<longleftrightarrow> c = CHR ''/'' \<or> c = BACKSLASH"

definition parentpath :: "string \<Rightarrow> string" where
  "parentpath s = rev (dropWhile (\<lambda>c. \<not> separator c) (rev s))"

definition entry_name :: "string \<Rightarrow> string" where
  "entry_name s = rev (takeWhile (\<lambda>c. \<not> separator c) (rev s))"

section \<open>The operations\<close>

text \<open>\<open>VDIR\<close>: the entries not read yet; \<open>None\<close> once the map is deleted.\<close>

type_synonym vdir = "(string \<times> int) list option"

definition opendir :: "'db redis \<Rightarrow> string \<Rightarrow> 'db \<Rightarrow> ((string \<times> int) list option \<times> 'db) outcome" where
  "opendir R path db = and_then (lookup_fid R path db) (\<lambda>(fid, db1).
     if fid < 0 then Ret (None, db1)
     else and_then (query R (HGETALL (dirent_key fid)) db1) (\<lambda>(r, db2).
       if elements r > 0 then and_then (to_map lexical_ll r) (\<lambda>m. Ret (Some m, db2))
       else Ret (None, db2)))"

record dirent =
  d_name :: string
  d_ino :: int

text \<open>\<open>readdir\<close> copies the name into the 256 characters of \<open>d_name\<close>.\<close>

definition readdir :: "vdir \<Rightarrow> (dirent option \<times> vdir) outcome" where
  "readdir dp = (case dp of
      None \<Rightarrow> Crash UseAfterFree
    | Some [] \<Rightarrow> Ret (None, None)
    | Some ((name, fid) # rest) \<Rightarrow>
        if length name \<ge> 256 then Crash OutOfBounds
        else Ret (Some \<lparr>d_name = name, d_ino = fid mod 2 ^ 64\<rparr>, Some rest))"

record stat_buf =
  st_mode :: int
  st_size :: int
  st_uid :: int
  st_gid :: int
  st_mtime :: int

text \<open>\<open>stat\<close>: \<open>None\<close> is the result \<open>-1\<close>, which leaves the buffer alone.\<close>

definition stat_of :: "(string \<times> string) list \<Rightarrow> stat_buf" where
  "stat_of m = \<lparr>st_mode = to_unsigned (atoi (field m ''st_mode'')),
     st_size = atoi (field m ''st_size''),
     st_uid = to_unsigned (atoi (field m ''st_uid'')),
     st_gid = to_unsigned (atoi (field m ''st_gid'')),
     st_mtime = atoi (field m ''st_mtime'')\<rparr>"

definition vfs_stat :: "'db redis \<Rightarrow> string \<Rightarrow> 'db \<Rightarrow> (stat_buf option \<times> 'db) outcome" where
  "vfs_stat R path db = and_then (lookup_fid R path db) (\<lambda>(fid, db1).
     if fid < 0 then Ret (None, db1)
     else and_then (query R (HGETALL (stat_key fid)) db1) (\<lambda>(r, db2).
       if elements r > 0 then and_then (to_map Some r) (\<lambda>m. Ret (Some (stat_of m), db2))
       else Ret (None, db2)))"

definition get_new_fid :: "'db redis \<Rightarrow> 'db \<Rightarrow> (int \<times> 'db) outcome" where
  "get_new_fid R db = and_then (query R (INCR ''fid_counter'') db) (\<lambda>(r, db1). Ret (reply_integer r, db1))"

definition get_new_transaction_id :: "'db redis \<Rightarrow> 'db \<Rightarrow> (int \<times> 'db) outcome" where
  "get_new_transaction_id R db =
     and_then (query R (INCR ''transaction_counter'') db) (\<lambda>(r, db1). Ret (reply_integer r, db1))"

text \<open>The commands of a transaction, and the check of the connection after it.\<close>

definition commit :: "'db redis \<Rightarrow> rcmd list \<Rightarrow> 'db \<Rightarrow> int \<times> 'db" where
  "commit R cs db = (let db' = run_all R (MULTI # cs @ [EXEC]) db
     in (if redis_err R db' then - 1 else 0, db'))"

definition mkdir_writes :: "int \<Rightarrow> int \<Rightarrow> string \<Rightarrow> int \<Rightarrow> int \<Rightarrow> int \<Rightarrow> rcmd list" where
  "mkdir_writes fid parent entry uid gid now =
     [HSET (stat_key fid) ''st_size'' (fmt_u 4096),
      HSET (stat_key fid) ''st_mode'' (fmt_u 16895),
      HSET (stat_key fid) ''st_uid'' (fmt_u uid),
      HSET (stat_key fid) ''st_gid'' (fmt_u gid),
      HSET (stat_key fid) ''st_mtime'' (fmt_u now),
      HSET (dirent_key parent) entry (fmt_u fid),
      HSET (dirent_key fid) ''.placeholder'' ''-1'']"

text \<open>\<open>mkdir\<close>: the mode the caller asks for is overwritten; \<open>now\<close> is \<open>time (NULL)\<close>.\<close>

definition vfs_mkdir :: "'db redis \<Rightarrow> int \<Rightarrow> string \<Rightarrow> int \<Rightarrow> int \<Rightarrow> int \<Rightarrow> 'db \<Rightarrow> (int \<times> 'db) outcome" where
  "vfs_mkdir R now path mode uid gid db = and_then (get_new_fid R db) (\<lambda>(new_fid, db1).
     and_then (lookup_fid R (parentpath path) db1) (\<lambda>(parent_fid, db2).
       if parent_fid < 0 then Ret (- 1, db2)
       else Ret (commit R (mkdir_writes new_fid parent_fid (entry_name path) uid gid now) db2)))"

definition vfs_rmdir :: "'db redis \<Rightarrow> string \<Rightarrow> 'db \<Rightarrow> (int \<times> 'db) outcome" where
  "vfs_rmdir R path db = and_then (lookup_fid R path db) (\<lambda>(fid, db1).
     if fid < 0 then Ret (- 1, db1)
     else and_then (query R (HLEN (dirent_key fid)) db1) (\<lambda>(r, db2).
       if reply_integer r = 0 then
         and_then (lookup_fid R (parentpath path) db2) (\<lambda>(parent_fid, db3).
           if parent_fid < 0 then Ret (- 1, db3)
           else Ret (commit R
             [HDEL (dirent_key parent_fid) (entry_name path), DEL (stat_key fid), DEL (diren_key fid)] db3))
       else Ret (- 1, db2)))"

text \<open>\<open>rename\<close> looks the parent of the new path up with the parent of the old path.\<close>

definition vfs_rename :: "'db redis \<Rightarrow> string \<Rightarrow> string \<Rightarrow> 'db \<Rightarrow> (int \<times> 'db) outcome" where
  "vfs_rename R oldpath newpath db = and_then (lookup_fid R oldpath db) (\<lambda>(fid, db1).
     if fid < 0 then Ret (- 1, db1)
     else and_then (lookup_fid R (parentpath oldpath) db1) (\<lambda>(oldparent_fid, db2).
       if oldparent_fid < 0 then Ret (- 1, db2)
       else and_then (lookup_fid R (parentpath oldpath) db2) (\<lambda>(newparent_fid, db3).
         if newparent_fid < 0 then Ret (- 1, db3)
         else Ret (commit R
           [HDEL (dirent_key oldparent_fid) (entry_name oldpath),
            HSET (dirent_key newparent_fid) (entry_name newpath) (fmt_u fid)] db3))))"

definition vfs_remove :: "'db redis \<Rightarrow> string \<Rightarrow> 'db \<Rightarrow> (int \<times> 'db) outcome" where
  "vfs_remove R path db = and_then (lookup_fid R path db) (\<lambda>(fid, db1).
     if fid < 0 then Ret (- 1, db1)
     else and_then (lookup_fid R (parentpath path) db1) (\<lambda>(parent_fid, db2).
       if parent_fid < 0 then Ret (- 1, db2)
       else Ret (commit R [HDEL (dirent_key parent_fid) (entry_name path), DEL (stat_key fid)] db2)))"

text \<open>\<open>slave_info\<close>: the port is \<open>None\<close> while nothing has been stored in it.\<close>

record slave_info =
  si_host :: string
  si_port :: "nat option"

definition save_writes :: "int \<Rightarrow> int \<Rightarrow> string \<Rightarrow> int \<Rightarrow> int \<Rightarrow> int \<Rightarrow> int \<Rightarrow> string \<Rightarrow> nat \<Rightarrow> rcmd list" where
  "save_writes fid parent entry sz uid gid now host port =
     [HSET (dirent_key parent) entry (fmt_u fid),
      HSET (stat_key fid) ''st_mode'' (fmt_u 33279),
      HSET (stat_key fid) ''st_size'' (fmt_u sz),
      HSET (stat_key fid) ''st_uid'' (fmt_u uid),
      HSET (stat_key fid) ''st_gid'' (fmt_u gid),
      HSET (stat_key fid) ''st_mtime'' (fmt_u now),
      HSET (stat_key fid) ''slave_host'' host,
      HSET (stat_key fid) ''slave_port'' (fmt_u (int port))]"

definition save_new_file :: "'db redis \<Rightarrow> int \<Rightarrow> string \<Rightarrow> int \<Rightarrow> int \<Rightarrow> int \<Rightarrow> int \<Rightarrow> int \<Rightarrow> slave_info \<Rightarrow>
    'db \<Rightarrow> (int \<times> 'db) outcome" where
  "save_new_file R now path mode sz uid gid fid slave db =
     and_then (lookup_fid R (parentpath path) db) (\<lambda>(parent_fid, db1).
       if parent_fid < 0 then Ret (- 1, db1)
       else (case si_port slave of
           None \<Rightarrow> Crash Uninitialised
         | Some port \<Rightarrow> Ret (commit R
             (save_writes fid parent_fid (entry_name path) sz uid gid now (si_host slave) port) db1)))"

text \<open>The two overloads of \<open>lookup_slave_info\<close>.\<close>

definition lookup_slave_info_fid :: "'db redis \<Rightarrow> int \<Rightarrow> 'db \<Rightarrow> (slave_info \<times> 'db) outcome" where
  "lookup_slave_info_fid R fid db = and_then (query R (HGETALL (stat_key fid)) db) (\<lambda>(r, db1).
     if elements r > 0 then and_then (to_map Some r) (\<lambda>m.
       Ret (\<lparr>si_host = field m ''slave_host'', si_port = Some (to_ushort (atoi (field m ''slave_port'')))\<rparr>, db1))
     else Ret (\<lparr>si_host = [], si_port = None\<rparr>, db1))"

definition lookup_slave_info :: "'db redis \<Rightarrow> string \<Rightarrow> 'db \<Rightarrow> (slave_info \<times> 'db) outcome" where
  "lookup_slave_info R path db = and_then (lookup_fid R path db) (\<lambda>(fid, db1). lookup_slave_info_fid R fid db1)"

end
