(* ===== verification/Events.thy ===== *)
theory Events
  imports CString
begin

text \<open>
  What the server does to the outside while it runs a command: the events it reports to the
  logging callbacks (\<open>eEvents\<close> of src/src/CFtpServer/CFtpServer.h) and the bytes it writes to the
  control connection (\<open>SendReply\<close> and \<open>SendReply2\<close> of src/src/CFtpServer/CFtpServer.cpp).
\<close>

datatype event =
    NEW_USER | DELETE_USER
  | NEW_CLIENT | DELETE_CLIENT | CLIENT_DISCONNECT | CLIENT_AUTH | CLIENT_UPLOAD | CLIENT_DOWNLOAD
  | CLIENT_LIST | CLIENT_CHANGE_DIR | RECVD_CMD_LINE | SEND_REPLY | TOO_MANY_PASS_TRIES
  | NO_LOGIN_TIMEOUT | NO_TRANSFER_TIMEOUT | CLIENT_SOCK_ERROR | CLIENT_SOFTWARE
  | START_LISTENING | STOP_LISTENING | ERROR_LISTENING | START_ACCEPTING | STOP_ACCEPTING
  | MEM_ERROR | THREAD_ERROR | ZLIB_VERSION_ERROR | ZLIB_STREAM_ERROR | THRIFT_ERROR
  | REDIS_CONNECT_ERROR

datatype transfer_kind = ListThread | RetrieveThread | StoreThread

text \<open>The outputs, in the order in which they happen.\<close>

datatype effect =
    Wire string                            \<comment> \<open>bytes sent on the control connection\<close>
  | OnServerEvent event
  | OnUserEvent event string
  | OnClientEvent event "string option"    \<comment> \<open>with the string \<open>pArg\<close> points to\<close>
  | Spawn transfer_kind                    \<comment> \<open>\<open>pthread_create\<close> of a transfer thread\<close>
  | CancelThread                           \<comment> \<open>\<open>pthread_cancel\<close> and \<open>pthread_join\<close>\<close>
  | Sleep nat                              \<comment> \<open>\<open>sleep_msec\<close>\<close>

text \<open>
  \<open>SendReply\<close>: report, append CR LF, send; a failed \<open>send\<close> is reported. \<open>ok\<close> tells whether the
  \<open>send\<close> of these bytes succeeds. The result is the return value and the outputs.
\<close>

definition SendReply :: "(string \<Rightarrow> bool) \<Rightarrow> string \<Rightarrow> bool \<times> effect list" where
  "SendReply ok text =
     (let bytes = text @ CRLF
      in (ok bytes,
          [OnClientEvent SEND_REPLY (Some text), Wire bytes] @
          (if ok bytes then [] else [OnClientEvent CLIENT_SOCK_ERROR None])))"

definition REPLY_MAX_LEN :: nat where
  "REPLY_MAX_LEN = MAX_PATH + 64"

text \<open>
  \<open>SendReply2\<close>: the text is formatted with \<open>vsnprintf\<close> into a buffer of \<open>REPLY_MAX_LEN\<close> bytes of
  which two are kept for CR LF, so it is cut to \<open>REPLY_MAX_LEN - 3\<close> characters.
\<close>

definition SendReply2 :: "(string \<Rightarrow> bool) \<Rightarrow> string \<Rightarrow> bool \<times> effect list" where
  "SendReply2 ok text = SendReply ok (take (REPLY_MAX_LEN - 3) text)"

text \<open>The replies among the outputs.\<close>

fun wire_of :: "effect \<Rightarrow> string list" where
  "wire_of (Wire s) = [s]"
| "wire_of _ = []"

definition wires :: "effect list \<Rightarrow> string list" where
  "wires os = concat (List.map wire_of os)"

lemma wires_append [simp]: "wires (xs @ ys) = wires xs @ wires ys"
  by (simp add: wires_def)

lemma wires_Nil [simp]: "wires [] = []"
  by (simp add: wires_def)

lemma wires_Cons [simp]: "wires (x # xs) = wire_of x @ wires xs"
  by (simp add: wires_def)

lemma wires_SendReply [simp]: "wires (snd (SendReply ok t)) = [t @ CRLF]"
  by (simp add: SendReply_def Let_def)

lemma wires_SendReply2: "wires (snd (SendReply2 ok t)) = [take (REPLY_MAX_LEN - 3) t @ CRLF]"
  by (simp add: SendReply2_def)

lemma SendReply2_fits: "length t \<le> REPLY_MAX_LEN - 3 \<Longrightarrow> SendReply2 ok t = SendReply ok t"
  by (simp add: SendReply2_def)

text \<open>\<open>SendReply2\<close> never writes past its buffer: text, CR and LF fit in \<open>REPLY_MAX_LEN\<close> bytes.\<close>

lemma SendReply2_bound: "w \<in> set (wires (snd (SendReply2 ok t))) \<Longrightarrow> length w \<le> REPLY_MAX_LEN - 1"
  by (auto simp: wires_SendReply2 REPLY_MAX_LEN_def)

end
