(* ===== verification/Users.thy ===== *)
theory Users
  imports RedisVfs Events
begin

text \<open>
  The users (\<open>CUserEntry\<close>): how a login is read from the database (\<open>SearchUserFromLogin\<close>) and what
  a user may do (\<open>SetPrivileges\<close>, \<open>CheckPrivileges\<close>).
\<close>

section \<open>User entries\<close>

definition MaxLoginLen :: nat where "MaxLoginLen = 16"
definition MaxPasswordLen :: nat where "MaxPasswordLen = 16"
definition MaxRootPathLen :: nat where "MaxRootPathLen = MAX_PATH"

record user_entry =
  szLogin :: string
  szPassword :: string
  szStartDirectory :: string
  bIsEnabled :: bool
  bDelete :: bool
  uid :: int
  gid :: int
  ucPrivileges :: "8 word"
  uiNumberOfClient :: "32 word"
  uiMaxNumberOfClient :: "32 word"

text \<open>The constructor; \<open>uid\<close> and \<open>gid\<close> are \<open>-1\<close> as unsigned 32-bit integers.\<close>

definition CUserEntry :: user_entry where
  "CUserEntry = \<lparr>szLogin = [], szPassword = [], szStartDirectory = [], bIsEnabled = False, bDelete = False,
     uid = 2 ^ 32 - 1, gid = 2 ^ 32 - 1, ucPrivileges = 0, uiNumberOfClient = 0, uiMaxNumberOfClient = 0\<rparr>"

section \<open>Privileges\<close>

definition READFILE :: "8 word" where "READFILE = 0x1"
definition WRITEFILE :: "8 word" where "WRITEFILE = 0x2"
definition DELETEFILE :: "8 word" where "DELETEFILE = 0x4"
definition LIST_DIR :: "8 word" where "LIST_DIR = 0x8"
definition CREATEDIR :: "8 word" where "CREATEDIR = 0x10"
definition DELETEDIR :: "8 word" where "DELETEDIR = 0x20"

unbundle bit_operations_syntax

definition SetPrivileges :: "8 word \<Rightarrow> user_entry \<Rightarrow> bool \<times> user_entry" where
  "SetPrivileges priv u =
     (if priv AND NOT (READFILE OR WRITEFILE OR DELETEFILE OR LIST_DIR OR CREATEDIR OR DELETEDIR) = 0
      then (True, u\<lparr>ucPrivileges := priv\<rparr>) else (False, u))"

definition CheckPrivileges :: "bool \<Rightarrow> user_entry option \<Rightarrow> 8 word \<Rightarrow> bool" where
  "CheckPrivileges logged u priv =
     (case u of None \<Rightarrow> False | Some u \<Rightarrow> logged \<and> priv AND ucPrivileges u = priv)"

text \<open>The other setters and getters of a user.\<close>

definition GetPrivileges :: "user_entry \<Rightarrow> 8 word" where "GetPrivileges u = ucPrivileges u"
definition GetNumberOfClient :: "user_entry \<Rightarrow> 32 word" where "GetNumberOfClient u = uiNumberOfClient u"
definition SetMaxNumberOfClient :: "32 word \<Rightarrow> user_entry \<Rightarrow> user_entry" where
  "SetMaxNumberOfClient m u = u\<lparr>uiMaxNumberOfClient := m\<rparr>"
definition GetMaxClient :: "user_entry \<Rightarrow> 32 word" where "GetMaxClient u = uiMaxNumberOfClient u"
definition GetLogin :: "user_entry \<Rightarrow> string" where "GetLogin u = szLogin u"
definition GetPassword :: "user_entry \<Rightarrow> string" where "GetPassword u = szPassword u"
definition GetStartDirectory :: "user_entry \<Rightarrow> string" where "GetStartDirectory u = szStartDirectory u"

section \<open>Reading a user from the database\<close>

text \<open>\<open>strcpy\<close> into a buffer for \<open>len\<close> characters.\<close>

definition strcpy :: "nat \<Rightarrow> string \<Rightarrow> string outcome" where
  "strcpy len s = (if length s \<le> len then Ret s else Crash OutOfBounds)"

text \<open>\<open>boost::lexical_cast<unsigned char>\<close>: exactly one character.\<close>

definition lexical_uchar :: "string \<Rightarrow> (8 word) outcome" where
  "lexical_uchar s = (case s of [c] \<Rightarrow> Ret (word_of_nat (code_of c)) | _ \<Rightarrow> Crash BadCast)"

definition user_of :: "string \<Rightarrow> (string \<times> string) list \<Rightarrow> user_entry outcome" where
  "user_of login m =
     and_then (strcpy MaxLoginLen login) (\<lambda>l.
     and_then (strcpy MaxPasswordLen (field m ''password'')) (\<lambda>p.
     and_then (strcpy MaxRootPathLen (field m ''start_directory'')) (\<lambda>d.
     and_then (lexical_uchar (field m ''privileges'')) (\<lambda>priv.
       Ret (CUserEntry\<lparr>szLogin := l, szPassword := p, szStartDirectory := d,
         bIsEnabled := (field m ''enabled'' = ''true''),
         uid := to_unsigned (atoi (field m ''uid'')), gid := to_unsigned (atoi (field m ''gid'')),
         ucPrivileges := priv,
         uiMaxNumberOfClient := word_of_int (atoi (field m ''max_logins''))\<rparr>)))))"

text \<open>
  \<open>SearchUserFromLogin\<close> opens a connection of its own (\<open>connect_ok\<close> tells whether that succeeds) and
  selects database \<open>dbno\<close>. A user that is not in the database, and a failure, are NULL.
\<close>

definition SearchUserFromLogin :: "'db redis \<Rightarrow> bool \<Rightarrow> nat \<Rightarrow> string \<Rightarrow> 'db \<Rightarrow>
    (user_entry option \<times> effect list \<times> 'db) outcome" where
  "SearchUserFromLogin R connect_ok dbno login db =
     (if \<not> connect_ok then Ret (None, [OnServerEvent REDIS_CONNECT_ERROR], db)
      else case redis_cmd R (SELECT dbno) db of (reply, db1) \<Rightarrow>
        (if reply \<noteq> None \<and> redis_err R db1 then Ret (None, [OnServerEvent REDIS_CONNECT_ERROR], db1)
         else and_then (query R (HGETALL (''username:'' @ login)) db1) (\<lambda>(r, db2).
           if elements r > 0 then
             and_then (to_map Some r) (\<lambda>m. and_then (user_of login m) (\<lambda>u. Ret (Some u, [], db2)))
           else Ret (None, [], db2))))"

end
