(* ===== verification/Commands.thy ===== *)
theory Commands
  imports CString
begin

text \<open>
  The command language of the control channel: the enumeration of the commands
  (src/src/CFtpServer/CFtpServer.h) and \<open>CClientEntry::ParseLine\<close>
  (src/src/CFtpServer/CFtpServer.cpp), whose nested switches are translated branch by branch, with
  the missing \<open>break\<close>s of the source as the fall-through they cause.
\<close>

datatype command =
    CMD_NONE | CMD_QUIT | CMD_USER | CMD_PASS | CMD_NOOP | CMD_ALLO | CMD_SITE | CMD_HELP
  | CMD_SYST | CMD_STRU | CMD_MODE | CMD_TYPE | CMD_CLNT | CMD_PORT | CMD_PASV | CMD_LIST
  | CMD_NLST | CMD_CWD | CMD_XCWD | CMD_FEAT | CMD_MDTM | CMD_PWD | CMD_XPWD | CMD_CDUP
  | CMD_XCUP | CMD_STAT | CMD_ABOR | CMD_REST | CMD_RETR | CMD_STOR | CMD_APPE | CMD_STOU
  | CMD_SIZE | CMD_DELE | CMD_RNFR | CMD_RNTO | CMD_MKD | CMD_XMKD | CMD_RMD | CMD_XRMD
  | CMD_OPTS | CMD_PRET

section \<open>The switch on the command word\<close>

text \<open>
  \<open>s\<close> is the upper-case command word in \<open>sCmdBuffer\<close>; \<open>strcmp (sCmdBuffer + n, t) == 0\<close> is
  \<open>drop n s = t\<close>, and a test for the terminator at index 4 is \<open>length s = 4\<close>. One definition per
  first letter with an inner switch.
\<close>

definition parse_A :: "string \<Rightarrow> command" where
  "parse_A s =
     (if char_at s 1 = CHR ''B'' then (if drop 2 s = ''OR'' then CMD_ABOR else CMD_NONE)
      else if char_at s 1 = CHR ''L'' then (if drop 2 s = ''LO'' then CMD_ALLO else CMD_NONE)
      else if char_at s 1 = CHR ''P'' then (if drop 2 s = ''PE'' then CMD_APPE else CMD_NONE)
      else CMD_NONE)"

definition parse_C :: "string \<Rightarrow> command" where
  "parse_C s =
     (if char_at s 1 = CHR ''D'' then (if drop 2 s = ''UP'' then CMD_CDUP else CMD_NONE)
      else if char_at s 1 = CHR ''L'' then (if drop 2 s = ''NT'' then CMD_CLNT else CMD_NONE)
      else if char_at s 1 = CHR ''W'' then (if drop 2 s = ''D'' then CMD_CWD else CMD_NONE)
      else CMD_NONE)"

definition parse_M :: "string \<Rightarrow> command" where
  "parse_M s =
     (if char_at s 1 = CHR ''D'' then (if drop 2 s = ''TM'' then CMD_MDTM else CMD_NONE)
      else if char_at s 1 = CHR ''K'' then (if drop 2 s = ''D'' then CMD_MKD else CMD_NONE)
      else if char_at s 1 = CHR ''O'' then (if drop 2 s = ''DE'' then CMD_MODE else CMD_NONE)
      else CMD_NONE)"

definition parse_N :: "string \<Rightarrow> command" where
  "parse_N s =
     (if char_at s 1 = CHR ''L'' then (if drop 2 s = ''ST'' then CMD_NLST else CMD_NONE)
      else if char_at s 1 = CHR ''O'' then (if drop 2 s = ''OP'' then CMD_NOOP else CMD_NONE)
      else CMD_NONE)"

definition parse_P :: "string \<Rightarrow> command" where
  "parse_P s =
     (if char_at s 1 = CHR ''A'' then
        (if char_at s 2 = CHR ''S'' then
           (if char_at s 3 = CHR ''V'' then (if length s = 4 then CMD_PASV else CMD_NONE)
            else if char_at s 3 = CHR ''S'' then (if length s = 4 then CMD_PASS else CMD_NONE)
            else CMD_NONE)
         else CMD_NONE)
      else if char_at s 1 = CHR ''O'' then (if drop 2 s = ''RT'' then CMD_PORT else CMD_NONE)
      else if char_at s 1 = CHR ''W'' then (if drop 2 s = ''D'' then CMD_PWD else CMD_NONE)
      else if char_at s 1 = CHR ''R'' then (if drop 2 s = ''ET'' then CMD_PRET else CMD_NONE)
      else CMD_NONE)"

definition parse_R :: "string \<Rightarrow> command" where
  "parse_R s =
     (if char_at s 1 = CHR ''E'' then
        (if char_at s 2 = CHR ''S'' then (if drop 3 s = ''T'' then CMD_REST else CMD_NONE)
         else if char_at s 2 = CHR ''T'' then (if drop 3 s = ''R'' then CMD_RETR else CMD_NONE)
         else CMD_NONE)
      else if char_at s 1 = CHR ''M'' then (if drop 2 s = ''D'' then CMD_RMD else CMD_NONE)
      else if char_at s 1 = CHR ''N'' then
        (if char_at s 2 = CHR ''F'' then (if drop 3 s = ''R'' then CMD_RNFR else CMD_NONE)
         else if char_at s 2 = CHR ''T'' then (if drop 3 s = ''O'' then CMD_RNTO else CMD_NONE)
         else CMD_NONE)
      else CMD_NONE)"

text \<open>The case \<open>STO?\<close> falls through into the case \<open>STR?\<close>.\<close>

definition parse_S :: "string \<Rightarrow> command" where
  "parse_S s =
     (if char_at s 1 = CHR ''I'' then
        (if char_at s 2 = CHR ''T'' then (if drop 3 s = ''E'' then CMD_SITE else CMD_NONE)
         else if char_at s 2 = CHR ''Z'' then (if drop 3 s = ''E'' then CMD_SIZE else CMD_NONE)
         else CMD_NONE)
      else if char_at s 1 = CHR ''T'' then
        (if char_at s 2 = CHR ''A'' then (if drop 3 s = ''T'' then CMD_STAT else CMD_NONE)
         else if char_at s 2 = CHR ''O'' \<and> char_at s 3 = CHR ''R'' \<and> length s = 4 then CMD_STOR
         else if char_at s 2 = CHR ''O'' \<and> char_at s 3 = CHR ''U'' \<and> length s = 4 then CMD_STOU
         else if char_at s 2 = CHR ''O'' \<or> char_at s 2 = CHR ''R'' then
           (if drop 3 s = ''U'' then CMD_STRU else CMD_NONE)
         else CMD_NONE)
      else if char_at s 1 = CHR ''Y'' then (if drop 2 s = ''ST'' then CMD_SYST else CMD_NONE)
      else CMD_NONE)"

text \<open>The cases \<open>XM\<close>, \<open>XR\<close> and \<open>XP\<close> fall through one into the next.\<close>

definition parse_X :: "string \<Rightarrow> command" where
  "parse_X s =
     (if char_at s 1 = CHR ''C'' then
        (if char_at s 2 = CHR ''U'' then (if drop 3 s = ''P'' then CMD_XCUP else CMD_NONE)
         else if char_at s 2 = CHR ''W'' then (if drop 3 s = ''D'' then CMD_XCWD else CMD_NONE)
         else CMD_NONE)
      else if char_at s 1 = CHR ''M'' \<and> drop 2 s = ''KD'' then CMD_XMKD
      else if (char_at s 1 = CHR ''M'' \<or> char_at s 1 = CHR ''R'') \<and> drop 2 s = ''MD'' then CMD_XRMD
      else if (char_at s 1 = CHR ''M'' \<or> char_at s 1 = CHR ''R'' \<or> char_at s 1 = CHR ''P'')
              \<and> drop 2 s = ''PW'' then CMD_XPWD
      else CMD_NONE)"

definition parse_verb :: "string \<Rightarrow> command" where
  "parse_verb s = (let c = char_at s 0 in
     if c = CHR ''A'' then parse_A s
     else if c = CHR ''C'' then parse_C s
     else if c = CHR ''D'' then (if drop 1 s = ''ELE'' then CMD_DELE else CMD_NONE)
     else if c = CHR ''F'' then (if drop 1 s = ''EAT'' then CMD_FEAT else CMD_NONE)
     else if c = CHR ''H'' then (if drop 1 s = ''ELP'' then CMD_HELP else CMD_NONE)
     else if c = CHR ''L'' then (if drop 1 s = ''IST'' then CMD_LIST else CMD_NONE)
     else if c = CHR ''M'' then parse_M s
     else if c = CHR ''N'' then parse_N s
     else if c = CHR ''O'' then (if drop 1 s = ''PTS'' then CMD_OPTS else CMD_NONE)
     else if c = CHR ''P'' then parse_P s
     else if c = CHR ''Q'' then (if drop 1 s = ''UIT'' then CMD_QUIT else CMD_NONE)
     else if c = CHR ''R'' then parse_R s
     else if c = CHR ''S'' then parse_S s
     else if c = CHR ''T'' then (if drop 1 s = ''YPE'' then CMD_TYPE else CMD_NONE)
     else if c = CHR ''U'' then (if drop 1 s = ''SER'' then CMD_USER else CMD_NONE)
     else if c = CHR ''X'' then parse_X s
     else CMD_NONE)"

lemmas parse_defs = parse_A_def parse_C_def parse_M_def parse_N_def parse_P_def parse_R_def
  parse_S_def parse_X_def parse_verb_def

section \<open>ParseLine\<close>

text \<open>
  The line is cut at its first space: the word before it is upper-cased and looked up, the rest is
  the argument (\<open>pszCmdArg\<close>, NULL when there is no space).
\<close>

definition ParseLine :: "string \<Rightarrow> command \<times> string option" where
  "ParseLine line =
     (let word = takeWhile (\<lambda>c. c \<noteq> CHR '' '') line;
          rest = dropWhile (\<lambda>c. c \<noteq> CHR '' '') line
      in (parse_verb (List.map toupper word), if rest = [] then None else Some (tl rest)))"

section \<open>The table of the recognised words\<close>

definition verbs :: "(string \<times> command) list" where
  "verbs =
    [(''QUIT'', CMD_QUIT), (''USER'', CMD_USER), (''PASS'', CMD_PASS), (''NOOP'', CMD_NOOP),
     (''ALLO'', CMD_ALLO), (''SITE'', CMD_SITE), (''HELP'', CMD_HELP), (''SYST'', CMD_SYST),
     (''STRU'', CMD_STRU), (''MODE'', CMD_MODE), (''TYPE'', CMD_TYPE), (''CLNT'', CMD_CLNT),
     (''PORT'', CMD_PORT), (''PASV'', CMD_PASV), (''LIST'', CMD_LIST), (''NLST'', CMD_NLST),
     (''CWD'', CMD_CWD), (''XCWD'', CMD_XCWD), (''FEAT'', CMD_FEAT), (''MDTM'', CMD_MDTM),
     (''PWD'', CMD_PWD), (''CDUP'', CMD_CDUP), (''XCUP'', CMD_XCUP), (''STAT'', CMD_STAT),
     (''ABOR'', CMD_ABOR), (''REST'', CMD_REST), (''RETR'', CMD_RETR), (''STOR'', CMD_STOR),
     (''APPE'', CMD_APPE), (''STOU'', CMD_STOU), (''SIZE'', CMD_SIZE), (''DELE'', CMD_DELE),
     (''RNFR'', CMD_RNFR), (''RNTO'', CMD_RNTO), (''MKD'', CMD_MKD), (''XMKD'', CMD_XMKD),
     (''RMD'', CMD_RMD), (''XRMD'', CMD_XRMD), (''OPTS'', CMD_OPTS), (''PRET'', CMD_PRET),
     (''XMMD'', CMD_XRMD), (''XMPW'', CMD_XPWD), (''XRPW'', CMD_XPWD), (''XPPW'', CMD_XPWD)]"

lemma verbs_parse: "\<forall>(v, c) \<in> set verbs. parse_verb v = c"
  by code_simp

lemma word_cases:
  obtains "s = []" | a where "s = [a]" | a b where "s = [a, b]" | a b c where "s = [a, b, c]"
    | a b c d where "s = [a, b, c, d]" | a b c d e t where "s = a # b # c # d # e # t"
  by (metis list.exhaust)

text \<open>Each inner switch answers as the table does.\<close>

lemma parse_A_table:
  "char_at s 0 = CHR ''A'' \<Longrightarrow> parse_A s \<noteq> CMD_NONE \<Longrightarrow> (s, parse_A s) \<in> set verbs"
  by (cases s rule: word_cases) (auto simp: parse_A_def char_at_def verbs_def split: if_splits)

lemma parse_C_table:
  "char_at s 0 = CHR ''C'' \<Longrightarrow> parse_C s \<noteq> CMD_NONE \<Longrightarrow> (s, parse_C s) \<in> set verbs"
  by (cases s rule: word_cases) (auto simp: parse_C_def char_at_def verbs_def split: if_splits)

lemma parse_M_table:
  "char_at s 0 = CHR ''M'' \<Longrightarrow> parse_M s \<noteq> CMD_NONE \<Longrightarrow> (s, parse_M s) \<in> set verbs"
  by (cases s rule: word_cases) (auto simp: parse_M_def char_at_def verbs_def split: if_splits)

lemma parse_N_table:
  "char_at s 0 = CHR ''N'' \<Longrightarrow> parse_N s \<noteq> CMD_NONE \<Longrightarrow> (s, parse_N s) \<in> set verbs"
  by (cases s rule: word_cases) (auto simp: parse_N_def char_at_def verbs_def split: if_splits)

lemma parse_P_table:
  "char_at s 0 = CHR ''P'' \<Longrightarrow> parse_P s \<noteq> CMD_NONE \<Longrightarrow> (s, parse_P s) \<in> set verbs"
  by (cases s rule: word_cases) (auto simp: parse_P_def char_at_def verbs_def split: if_splits)

lemma parse_R_table:
  "char_at s 0 = CHR ''R'' \<Longrightarrow> parse_R s \<noteq> CMD_NONE \<Longrightarrow> (s, parse_R s) \<in> set verbs"
  by (cases s rule: word_cases) (auto simp: parse_R_def char_at_def verbs_def split: if_splits)

lemma parse_S_table:
  "char_at s 0 = CHR ''S'' \<Longrightarrow> parse_S s \<noteq> CMD_NONE \<Longrightarrow> (s, parse_S s) \<in> set verbs"
  by (cases s rule: word_cases) (auto simp: parse_S_def char_at_def verbs_def split: if_splits)

lemma parse_X_table:
  "char_at s 0 = CHR ''X'' \<Longrightarrow> parse_X s \<noteq> CMD_NONE \<Longrightarrow> (s, parse_X s) \<in> set verbs"
  by (cases s rule: word_cases) (auto simp: parse_X_def char_at_def verbs_def split: if_splits)

lemma parse_outer_table:
  "char_at s 0 \<in> set ''DFHLOQTU'' \<Longrightarrow> parse_verb s \<noteq> CMD_NONE \<Longrightarrow> (s, parse_verb s) \<in> set verbs"
  by (cases s) (auto simp: parse_verb_def char_at_def verbs_def split: if_splits)


lemma parse_verb_first:
  "parse_verb s \<noteq> CMD_NONE \<Longrightarrow> char_at s 0 \<in> set ''ACMNPRSXDFHLOQTU''"
  by (auto simp: parse_verb_def Let_def split: if_splits)

lemma parse_verb_in_table:
  assumes p: "parse_verb s \<noteq> CMD_NONE"
  shows "(s, parse_verb s) \<in> set verbs"
proof -
  consider (A) "char_at s 0 = CHR ''A''"
    | (C) "char_at s 0 = CHR ''C''"
    | (M) "char_at s 0 = CHR ''M''"
    | (N) "char_at s 0 = CHR ''N''"
    | (P) "char_at s 0 = CHR ''P''"
    | (R) "char_at s 0 = CHR ''R''"
    | (S) "char_at s 0 = CHR ''S''"
    | (X) "char_at s 0 = CHR ''X''"
    | (other) "char_at s 0 \<in> set ''DFHLOQTU''"
    using parse_verb_first[OF p] by auto
  then show ?thesis
  proof cases
    case A
    then have "parse_verb s = parse_A s" by (simp add: parse_verb_def)
    with p parse_A_table[OF A] show ?thesis by simp
  next
    case C
    then have "parse_verb s = parse_C s" by (simp add: parse_verb_def)
    with p parse_C_table[OF C] show ?thesis by simp
  next
    case M
    then have "parse_verb s = parse_M s" by (simp add: parse_verb_def)
    with p parse_M_table[OF M] show ?thesis by simp
  next
    case N
    then have "parse_verb s = parse_N s" by (simp add: parse_verb_def)
    with p parse_N_table[OF N] show ?thesis by simp
  next
    case P
    then have "parse_verb s = parse_P s" by (simp add: parse_verb_def)
    with p parse_P_table[OF P] show ?thesis by simp
  next
    case R
    then have "parse_verb s = parse_R s" by (simp add: parse_verb_def)
    with p parse_R_table[OF R] show ?thesis by simp
  next
    case S
    then have "parse_verb s = parse_S s" by (simp add: parse_verb_def)
    with p parse_S_table[OF S] show ?thesis by simp
  next
    case X
    then have "parse_verb s = parse_X s" by (simp add: parse_verb_def)
    with p parse_X_table[OF X] show ?thesis by simp
  next
    case other
    from parse_outer_table[OF this p] show ?thesis .
  qed
qed

lemma distinct_verbs: "distinct (map fst verbs)"
  by (simp add: verbs_def)

lemma parse_verb_table:
  "parse_verb s = (case map_of verbs s of None \<Rightarrow> CMD_NONE | Some c \<Rightarrow> c)"
proof (cases "map_of verbs s")
  case None
  then have "(s, parse_verb s) \<notin> set verbs" by (auto simp: map_of_eq_None_iff image_iff)
  with parse_verb_in_table None show ?thesis by auto
next
  case (Some c)
  then have "(s, c) \<in> set verbs" by (rule map_of_SomeD)
  with verbs_parse Some show ?thesis by auto
qed

section \<open>The properties\<close>

text \<open>C16: The parser decides exactly the table of words: a command line whose first word is, up to
  case, a word of the table gives that word's command with everything after the first space as the
  argument; every other line gives \<open>CMD_NONE\<close>.\<close>

theorem ParseLine_table:
  assumes "CHR '' '' \<notin> set word"
  shows "ParseLine (word @ CHR '' '' # arg) =
      (case map_of verbs (List.map toupper word) of None \<Rightarrow> CMD_NONE | Some c \<Rightarrow> c, Some arg)
    \<and> ParseLine word =
      (case map_of verbs (List.map toupper word) of None \<Rightarrow> CMD_NONE | Some c \<Rightarrow> c, None)"
proof -
  have "\<forall>c\<in>set word. c \<noteq> CHR '' ''" using assms by auto
  then show ?thesis
    by (simp add: ParseLine_def parse_verb_table takeWhile_append2 dropWhile_append2
        takeWhile_eq_all_conv[THEN iffD2] dropWhile_eq_Nil_conv[THEN iffD2])
qed

theorem ParseLine_table_witness:
  "ParseLine ''rEtR a file'' = (CMD_RETR, Some ''a file'')"
proof -
  have "List.map toupper ''rEtR'' = ''RETR''" by code_simp
  moreover have "map_of verbs ''RETR'' = Some CMD_RETR" by (simp add: verbs_def)
  ultimately show ?thesis using ParseLine_table[of "''rEtR''" "''a file''"] by simp
qed

text \<open>\<open>XPWD\<close>, which the enumeration lists and the dispatcher handles, is not recognised: the
  switch compares with \<open>PW\<close> where \<open>WD\<close> is meant, so \<open>XPPW\<close> (and, through the missing breaks,
  \<open>XMPW\<close> and \<open>XRPW\<close>) means XPWD, and \<open>XMMD\<close> means XRMD.\<close>

theorem XPWD_not_recognised:
  "ParseLine ''XPWD'' = (CMD_NONE, None) \<and>
   {v. parse_verb v = CMD_XPWD} = {''XPPW'', ''XMPW'', ''XRPW''} \<and>
   {v. parse_verb v = CMD_XRMD} = {''XRMD'', ''XMMD''}"
proof -
  have "{v. parse_verb v = c} = set (map fst (filter (\<lambda>(v, d). d = c) verbs))" if "c \<noteq> CMD_NONE" for c
    using that parse_verb_in_table verbs_parse by force
  moreover have "ParseLine ''XPWD'' = (CMD_NONE, None)" by code_simp
  ultimately show ?thesis by (simp add: verbs_def insert_commute)
qed

end
