(* ===== verification/DataPorts.thy ===== *)
theory DataPorts
  imports CString
begin

text \<open>
  The range of data ports (\<open>SetDataPortRange\<close>, \<open>GetDataPortRange\<close>) and the search of a free port in
  it, which the meta server (\<open>PASV\<close>) and the slave (\<open>InitPasvDataConnection\<close>) both run, on the
  16-bit values the program computes with, and the reply that names the port.
\<close>

section \<open>The range\<close>

record port_range =
  usStart :: "16 word"
  usLen :: "16 word"

text \<open>The sum is computed in \<open>int\<close>. The result is whether the range was set.\<close>

definition SetDataPortRange :: "16 word \<Rightarrow> 16 word \<Rightarrow> port_range \<Rightarrow> bool \<times> port_range" where
  "SetDataPortRange start len r =
     (if len \<noteq> 0 \<and> start > 0 \<and> unat start + unat len \<le> 65535
      then (True, \<lparr>usStart = start, usLen = len\<rparr>) else (False, r))"

definition GetDataPortRange :: "port_range \<Rightarrow> 16 word \<times> 16 word" where
  "GetDataPortRange r = (usStart r, usLen r)"

definition valid_range :: "port_range \<Rightarrow> bool" where
  "valid_range r \<longleftrightarrow> usLen r \<noteq> 0 \<and> usStart r > 0 \<and> unat (usStart r) + unat (usLen r) \<le> 65535"

section \<open>The search\<close>

text \<open>\<open>usStart + (rand () % usLen)\<close>, cast to 16 bits; \<open>rnd\<close> is the result of \<open>rand\<close>.\<close>

definition random_port :: "port_range \<Rightarrow> nat \<Rightarrow> (16 word) outcome" where
  "random_port r rnd = (if usLen r = 0 then Crash DivByZero
     else Ret (usStart r + of_nat (rnd mod unat (usLen r))))"

text \<open>
  The loop: try to bind a port, go down, and start again above the range when below the first port.
  The result is the port that was bound, or \<open>None\<close> when the loop came back to the first port.
\<close>

partial_function (option) port_loop ::
  "(16 word \<Rightarrow> bool) \<Rightarrow> port_range \<Rightarrow> 16 word \<Rightarrow> 16 word \<Rightarrow> 16 word option option" where
  "port_loop bind_ok r usFirstTry usTriedPort =
     (if bind_ok usTriedPort then Some (Some usTriedPort)
      else (let down = usTriedPort - 1;
                next = (if down < usFirstTry then usStart r + usLen r else down)
            in if next = usFirstTry then Some None else port_loop bind_ok r usFirstTry next))"

text \<open>\<open>usDataPort\<close> after the search: 0 when no port was found.\<close>

definition find_port :: "(16 word \<Rightarrow> bool) \<Rightarrow> port_range \<Rightarrow> nat \<Rightarrow> (16 word) outcome" where
  "find_port bind_ok r rnd = and_then (random_port r rnd) (\<lambda>first.
     case port_loop bind_ok r first first of
       None \<Rightarrow> Hang
     | Some None \<Rightarrow> Ret 0
     | Some (Some p) \<Rightarrow> Ret p)"

section \<open>The reply\<close>

text \<open>The reply to \<open>PASV\<close>: the bytes of the address and the port.\<close>

definition pasv_numbers :: "int \<Rightarrow> 16 word \<Rightarrow> string" where
  "pasv_numbers ip port =
     show_int (ip mod 256) @ '','' @ show_int (ip div 256 mod 256) @ '','' @
     show_int (ip div 65536 mod 256) @ '','' @ show_int (ip div 16777216 mod 256) @ '','' @
     show_nat (unat port div 256) @ '','' @ show_nat (unat port mod 256)"

definition pasv_reply :: "int \<Rightarrow> 16 word \<Rightarrow> string" where
  "pasv_reply ip port = ''227 Entering Passive Mode ('' @ pasv_numbers ip port @ '')''"

section \<open>Which ports are tried\<close>

text \<open>The ports in the order of the search: the first one, then from one above the range downwards.\<close>

definition search_order :: "port_range \<Rightarrow> nat \<Rightarrow> nat list" where
  "search_order r first = first # rev [first + 1 ..< unat (usStart r) + unat (usLen r) + 1]"

lemma unat_pred: "0 < unat (w :: 16 word) \<Longrightarrow> unat (w - 1) = unat w - 1"
  by (metis One_nat_def Suc_pred unat_minus_one unat_eq_zero less_numeral_extra(3))

lemma port_loop_down:
  assumes "unat tried = unat first + Suc n"
  shows "port_loop bind_ok r first tried =
    Some (map_option of_nat (find (\<lambda>p. bind_ok (of_nat p)) (rev [unat first + 1 ..< unat tried + 1])))"
  using assms
proof (induction n arbitrary: tried)
  case 0
  have p: "tried - 1 = first" using 0 unat_pred[of tried] by (simp add: word_unat_eq_iff)
  then have "tried = 1 + first" by (metis add.commute diff_add_cancel)
  with 0 p show ?case by (subst port_loop.simps) simp
next
  case (Suc n)
  have u: "unat (tried - 1) = unat first + Suc n" using Suc.prems unat_pred[of tried] by simp
  then have "\<not> tried - 1 < first" "tried - 1 \<noteq> first" by (auto simp: word_less_nat_alt)
  moreover have "[unat first + 1 ..< unat tried + 1] = [unat first + 1 ..< unat (tried - 1) + 1] @ [unat tried]"
    using Suc.prems u by simp
  ultimately show ?case using Suc.IH[OF u] by (subst port_loop.simps) simp
qed

lemma port_loop_order:
  assumes "valid_range r" and "unat (usStart r) \<le> unat first"
    and "unat first < unat (usStart r) + unat (usLen r)"
  shows "port_loop bind_ok r first first =
    Some (map_option of_nat (find (\<lambda>p. bind_ok (of_nat p)) (search_order r (unat first))))"
proof -
  have "0 < unat (usStart r)" using assms(1) by (simp add: valid_range_def word_less_nat_alt)
  then have f: "0 < unat first" using assms(2) by simp
  then have d: "first - 1 < first" using unat_pred[of first] by (simp add: word_less_nat_alt)
  have top: "unat (usStart r + usLen r) = unat (usStart r) + unat (usLen r)"
    using assms(1) by (simp add: valid_range_def unat_plus_if_size word_size)
  then have ne: "usStart r + usLen r \<noteq> first" using assms(3) by auto
  have "unat (usStart r + usLen r) = unat first + Suc (unat (usStart r) + unat (usLen r) - unat first - 1)"
    using assms(3) unfolding top by simp
  then have "port_loop bind_ok r first (usStart r + usLen r) = Some (map_option of_nat
      (find (\<lambda>p. bind_ok (of_nat p)) (rev [unat first + 1 ..< unat (usStart r + usLen r) + 1])))"
    by (rule port_loop_down)
  with d ne have "port_loop bind_ok r first first = (if bind_ok first then Some (Some first)
      else Some (map_option of_nat
        (find (\<lambda>p. bind_ok (of_nat p)) (rev [unat first + 1 ..< unat (usStart r + usLen r) + 1]))))"
    unfolding port_loop.simps[of bind_ok r first first] Let_def by (simp only: if_True if_False)
  then show ?thesis by (simp add: top search_order_def)
qed

lemma find_port_valid:
  assumes "valid_range r"
  shows "find_port bind_ok r rnd =
    Ret (case find (\<lambda>p. bind_ok (of_nat p)) (search_order r (unat (usStart r) + rnd mod unat (usLen r))) of
      None \<Rightarrow> 0 | Some p \<Rightarrow> of_nat p)"
proof -
  have len: "0 < unat (usLen r)" "unat (usStart r) + unat (usLen r) \<le> 65535"
    using assms by (auto simp: valid_range_def unat_gt_0)
  let ?first = "usStart r + of_nat (rnd mod unat (usLen r)) :: 16 word"
  have m: "rnd mod unat (usLen r) < unat (usLen r)" using len(1) by simp
  then have "unat (of_nat (rnd mod unat (usLen r)) :: 16 word) = rnd mod unat (usLen r)"
    using len(2) by (simp add: unat_of_nat take_bit_nat_eq_self)
  then have first: "unat ?first = unat (usStart r) + rnd mod unat (usLen r)"
    using m len(2) unat_plus_if_size[of "usStart r" "of_nat (rnd mod unat (usLen r))"] by (simp add: word_size)
  have "port_loop bind_ok r ?first ?first =
      Some (map_option of_nat (find (\<lambda>p. bind_ok (of_nat p)) (search_order r (unat ?first))))"
    using first m assms by (intro port_loop_order) auto
  moreover have "usLen r \<noteq> 0" using len(1) by auto
  ultimately show ?thesis
    unfolding find_port_def random_port_def first
    by (simp add: outcome_simps split: option.splits)
qed

lemma SetDataPortRange_valid:
  "SetDataPortRange start len r0 = (True, r) \<Longrightarrow> valid_range r \<and> usStart r = start \<and> usLen r = len"
  "valid_range r0 \<Longrightarrow> valid_range (snd (SetDataPortRange start len r0))"
  by (auto simp: SetDataPortRange_def valid_range_def split: if_splits)

section \<open>The properties\<close>

text \<open>C34: On every range that \<open>SetDataPortRange\<close> accepts the search ends, and it binds the first port
  that can be bound in the search order: the random first port of the range, then the ports from
  \<open>start + len\<close>, which is one above the range, down to the first port. So the ports of the range below
  the random first port are never tried, and the port above the range may be used.\<close>

theorem find_port_order:
  assumes "SetDataPortRange start len r0 = (True, r)"
  shows "find_port bind_ok r rnd =
    Ret (case find (\<lambda>p. bind_ok (of_nat p)) (search_order r (unat start + rnd mod unat len)) of
      None \<Rightarrow> 0 | Some p \<Rightarrow> of_nat p)"
  using find_port_valid[of r bind_ok rnd] SetDataPortRange_valid(1)[OF assms] by simp

theorem find_port_order_witness:
  "find_port (\<lambda>p. p = 1002) \<lparr>usStart = 1000, usLen = 10\<rparr> 5 = Ret 0 \<and>
   find_port (\<lambda>p. p = 1010) \<lparr>usStart = 1000, usLen = 10\<rparr> 5 = Ret 1010"
proof -
  have "SetDataPortRange 1000 10 \<lparr>usStart = 100, usLen = 900\<rparr> = (True, \<lparr>usStart = 1000, usLen = 10\<rparr>)"
    by (simp add: SetDataPortRange_def)
  note f = find_port_order[OF this]
  show ?thesis unfolding f by (simp add: search_order_def upt_rec)
qed

end
