(* ===== verification/LineReader.thy ===== *)
theory LineReader
  imports Events
begin

text \<open>
  \<open>CClientEntry::ReceiveLine\<close> (src/src/CFtpServer/CFtpServer.cpp): the control connection's
  buffer, the scan for the end of a line, and the loop over \<open>select\<close> and \<open>recv\<close>. The size of the
  buffer is the parameter \<open>lim\<close>; the program uses \<open>MAX_COMMAND_LINE_LEN\<close>.
\<close>

definition MAX_COMMAND_LINE_LEN :: nat where
  "MAX_COMMAND_LINE_LEN = MAX_PATH + 32"

record reader =
  sCmdBuffer :: string            \<comment> \<open>\<open>lim + 1\<close> bytes\<close>
  iCmdLen :: nat
  iCmdRecvdLen :: nat
  nRemainingCharToParse :: nat
  psNextCmd :: "nat option"       \<comment> \<open>an index into \<open>sCmdBuffer\<close>\<close>

text \<open>What the routine reads of the client and of the configuration.\<close>

record reader_env =
  re_logged :: bool               \<comment> \<open>\<open>IsLogged ()\<close>\<close>
  re_waiting :: bool              \<comment> \<open>\<open>eStatus == WAITING\<close>\<close>
  re_login_timeout :: nat         \<comment> \<open>\<open>GetNoLoginTimeout ()\<close>, 0 for none\<close>
  re_transfer_timeout :: nat      \<comment> \<open>\<open>GetNoTransferTimeout ()\<close>, 0 for none\<close>
  re_send_ok :: "string \<Rightarrow> bool"

text \<open>What happens on the connection: each \<open>select\<close>, with the \<open>recv\<close> after it, takes one.\<close>

datatype net_event =
    Data string         \<comment> \<open>bytes are there; \<open>recv\<close> takes as many as it has room for\<close>
  | NoData nat          \<comment> \<open>\<open>select\<close> timed out, this many seconds after \<open>tTimeoutTime\<close>\<close>
  | SelectError
  | PeerClosed          \<comment> \<open>\<open>recv\<close> returns 0\<close>
  | RecvError

datatype line_result =
    GotLine             \<comment> \<open>returns true\<close>
  | NoLine              \<comment> \<open>returns false\<close>
  | Blocked             \<comment> \<open>\<open>select\<close> waits: there are no more events\<close>

definition terminator :: "char \<Rightarrow> bool" where
  "terminator c \<longleftrightarrow> c = CR \<or> c = LF \<or> c = NUL"

text \<open>\<open>memmove (b + dst, b + src, n)\<close> inside one buffer.\<close>

definition memmove :: "string \<Rightarrow> nat \<Rightarrow> nat \<Rightarrow> nat \<Rightarrow> string" where
  "memmove b dst src n = take dst b @ take n (drop src b) @ drop (dst + n) b"

text \<open>
  The inner loop over the unread bytes: \<open>r\<close> is \<open>iCmdRecvdLen\<close>, the third argument
  \<open>nRemainingCharToParse\<close>, \<open>fl\<close> is \<open>bFlushNextLine\<close>. It ends with the found line (its length and
  \<open>psNextCmd\<close>) or with all bytes read.
\<close>

fun scan :: "string \<Rightarrow> nat \<Rightarrow> nat \<Rightarrow> bool \<Rightarrow> string \<times> nat \<times> nat \<times> bool \<times> nat option" where
  "scan b r 0 fl = (b, r, 0, fl, None)"
| "scan b r (Suc n) fl =
     (if terminator (b ! r) then
        (if r > 0 \<and> \<not> fl then (b[r := NUL], r, n, fl, Some (r + 1))
         else scan (memmove b r (r + 1) n) (if fl then 0 else r) n False)
      else scan b (r + 1) n fl)"

text \<open>Writing received bytes at \<open>iCmdRecvdLen\<close>.\<close>

definition store_bytes :: "string \<Rightarrow> nat \<Rightarrow> string \<Rightarrow> string" where
  "store_bytes b r bs = take r b @ bs @ drop (r + length bs) b"

definition unread :: "net_event list \<Rightarrow> nat" where
  "unread evs = length evs + sum_list (List.map (\<lambda>e. case e of Data bs \<Rightarrow> length bs | _ \<Rightarrow> 0) evs)"

text \<open>The timeout test after a \<open>select\<close> without data.\<close>

definition timed_out :: "reader_env \<Rightarrow> nat \<Rightarrow> bool" where
  "timed_out e dt \<longleftrightarrow>
     (\<not> re_logged e \<and> re_login_timeout e \<noteq> 0) \<or>
     (re_waiting e \<and> re_transfer_timeout e \<noteq> 0 \<and> dt \<ge> re_transfer_timeout e)"

text \<open>
  The outer loop, from the scan of the unread bytes to the \<open>recv\<close>. The leftover of a chunk that
  does not fit stays in the kernel's buffer, as the next event.
\<close>

function receive_loop :: "nat \<Rightarrow> reader_env \<Rightarrow> reader \<Rightarrow> bool \<Rightarrow> net_event list \<Rightarrow>
    line_result \<times> reader \<times> net_event list \<times> effect list" where
  "receive_loop lim e st fl evs =
     (case scan (sCmdBuffer st) (iCmdRecvdLen st) (nRemainingCharToParse st) fl of
        (b, r, n, fl1, Some p) \<Rightarrow>
          (GotLine, st\<lparr>sCmdBuffer := b, iCmdLen := r, iCmdRecvdLen := r,
                       nRemainingCharToParse := n, psNextCmd := Some p\<rparr>, evs,
           [OnClientEvent RECVD_CMD_LINE (Some (take r b))])
      | (b, r, n, fl1, None) \<Rightarrow>
          (let full = (r \<ge> lim);
               out = (if full \<and> \<not> fl1
                      then snd (SendReply (re_send_ok e) ''500 Command line is too long !'') else []);
               r2 = (if full then 0 else r);
               fl2 = (fl1 \<or> full);
               room = (if full then lim else lim - r);
               st2 = st\<lparr>sCmdBuffer := b, iCmdRecvdLen := r2, nRemainingCharToParse := n\<rparr>
           in case evs of
                [] \<Rightarrow> (Blocked, st2, [], out)
              | SelectError # es \<Rightarrow> (NoLine, st2, es, out)
              | NoData dt # es \<Rightarrow>
                  if timed_out e dt then
                    (NoLine, st2, es, out @
                       snd (SendReply (re_send_ok e) ''421 Timeout: closing control connection.'') @
                       [OnClientEvent (if re_logged e then NO_TRANSFER_TIMEOUT else NO_LOGIN_TIMEOUT) None])
                  else (case receive_loop lim e st2 fl2 es of
                      (res, st3, es3, out3) \<Rightarrow> (res, st3, es3, out @ out3))
              | PeerClosed # es \<Rightarrow> (NoLine, st2, es, out @ [OnClientEvent CLIENT_DISCONNECT None])
              | RecvError # es \<Rightarrow> (NoLine, st2, es, out @ [OnClientEvent CLIENT_SOCK_ERROR None])
              | Data bs # es \<Rightarrow>
                  (let got = take room bs;
                       rest = drop room bs;
                       es2 = (if rest = [] then es else Data rest # es);
                       st3 = st2\<lparr>sCmdBuffer := store_bytes b r2 got,
                                 nRemainingCharToParse := n + length got\<rparr>
                   in if got = [] then (NoLine, st2, es, out @ [OnClientEvent CLIENT_DISCONNECT None])
                      else (case receive_loop lim e st3 fl2 es2 of
                          (res, st4, es4, out4) \<Rightarrow> (res, st4, es4, out @ out4)))))"
  by pat_completeness auto
termination
  by (relation "measure (\<lambda>(lim, e, st, fl, evs). unread evs)") (auto simp: unread_def)

declare receive_loop.simps [simp del]

text \<open>The routine: reset, move the unread bytes to the front, loop.\<close>

definition ReceiveLine_lim :: "nat \<Rightarrow> reader_env \<Rightarrow> reader \<Rightarrow> net_event list \<Rightarrow>
    line_result \<times> reader \<times> net_event list \<times> effect list" where
  "ReceiveLine_lim lim e st evs =
     (let st0 = st\<lparr>iCmdRecvdLen := 0, iCmdLen := 0\<rparr>;
          st1 = (case psNextCmd st0 of
              Some p \<Rightarrow> if nRemainingCharToParse st0 > 0
                then st0\<lparr>sCmdBuffer := memmove (sCmdBuffer st0) 0 p (nRemainingCharToParse st0),
                         psNextCmd := None\<rparr>
                else st0
            | None \<Rightarrow> st0)
      in receive_loop lim e st1 False evs)"

definition ReceiveLine :: "reader_env \<Rightarrow> reader \<Rightarrow> net_event list \<Rightarrow>
    line_result \<times> reader \<times> net_event list \<times> effect list" where
  "ReceiveLine = ReceiveLine_lim MAX_COMMAND_LINE_LEN"

text \<open>The reader of a new client (its constructor).\<close>

definition new_reader :: "nat \<Rightarrow> reader" where
  "new_reader lim = \<lparr>sCmdBuffer = replicate (lim + 1) NUL, iCmdLen = 0, iCmdRecvdLen = 0,
     nRemainingCharToParse = 0, psNextCmd = None\<rparr>"

text \<open>The line that the parser then sees, and the bytes not read yet.\<close>

definition the_line :: "reader \<Rightarrow> string" where
  "the_line st = take (iCmdLen st) (sCmdBuffer st)"

definition pending :: "reader \<Rightarrow> string" where
  "pending st = (case psNextCmd st of
      None \<Rightarrow> []
    | Some p \<Rightarrow> take (nRemainingCharToParse st) (drop p (sCmdBuffer st)))"

section \<open>The lines of a byte stream\<close>

text \<open>
  The specification: \<open>take_line d s\<close> reads \<open>s\<close> after the bytes \<open>d\<close> of an unfinished line, up to the end
  of the first line that is not empty; it gives that line and what follows its terminator.
  \<open>line_acc d s\<close> is the unfinished line when there is none.
\<close>

fun take_line :: "string \<Rightarrow> string \<Rightarrow> (string \<times> string) option" where
  "take_line d [] = None"
| "take_line d (c # s) =
     (if terminator c then (if d = [] then take_line [] s else Some (d, s)) else take_line (d @ [c]) s)"

fun line_acc :: "string \<Rightarrow> string \<Rightarrow> string" where
  "line_acc d [] = d"
| "line_acc d (c # s) =
     (if terminator c then (if d = [] then line_acc [] s else d) else line_acc (d @ [c]) s)"

lemma take_line_append:
  "take_line d (s @ t) = (case take_line d s of
      Some (l, r) \<Rightarrow> Some (l, r @ t)
    | None \<Rightarrow> take_line (line_acc d s) t)"
  by (induction d s rule: take_line.induct) (auto split: option.splits)

lemma take_line_prefix: "take_line d s = Some (l, r) \<Longrightarrow> length d \<le> length l"
  by (induction d s rule: take_line.induct) (auto split: if_splits)

lemma line_acc_length: "length (line_acc d s) \<le> length d + length s"
  by (induction d s rule: line_acc.induct) auto

lemma take_line_length: "take_line d s = Some (l, r) \<Longrightarrow> length l + 1 + length r \<le> length d + length s"
  by (induction d s rule: take_line.induct) (auto split: if_splits)

text \<open>The longest run of bytes without a terminator, \<open>k\<close> bytes of it being already there.\<close>

fun longest_run :: "nat \<Rightarrow> string \<Rightarrow> nat" where
  "longest_run k [] = k"
| "longest_run k (c # s) = (if terminator c then max k (longest_run 0 s) else longest_run (k + 1) s)"

lemma longest_run_ge: "k \<le> longest_run k s"
  by (induction k s rule: longest_run.induct) auto

lemma take_line_run:
  "take_line d s = Some (l, r) \<Longrightarrow>
     length l \<le> longest_run (length d) s \<and> longest_run 0 r \<le> longest_run (length d) s"
  by (induction d s rule: take_line.induct) (auto split: if_splits)

lemma line_acc_run: "length (line_acc d s) \<le> longest_run (length d) s"
  by (induction d s rule: line_acc.induct) auto

lemma line_acc_append: "take_line d s = None \<Longrightarrow> line_acc d (s @ t) = line_acc (line_acc d s) t"
  by (induction d s rule: take_line.induct) (auto split: if_splits)

lemma longest_run_append:
  "take_line d s = None \<Longrightarrow> longest_run (length (line_acc d s)) t \<le> longest_run (length d) (s @ t)"
  by (induction d s rule: take_line.induct) (auto split: if_splits)

lemma take_line_plain:
  "\<forall>c\<in>set s. \<not> terminator c \<Longrightarrow> take_line d s = None \<and> line_acc d s = d @ s"
  by (induction s arbitrary: d) auto

lemma memmove_head: "length t = n \<Longrightarrow> memmove (c # t @ j) 0 (Suc 0) n = t @ drop n (c # t @ j)"
  by (simp add: memmove_def)

lemma scan_spec:
  "case take_line d t of
     Some (l, r) \<Rightarrow> \<exists>b'. scan (d @ t @ j) (length d) (length t) False =
         (b', length l, length r, False, Some (length l + 1)) \<and>
         take (length l) b' = l \<and> take (length r) (drop (length l + 1) b') = r \<and>
         length b' = length (d @ t @ j)
   | None \<Rightarrow> \<exists>b'. scan (d @ t @ j) (length d) (length t) False =
         (b', length (line_acc d t), 0, False, None) \<and>
         take (length (line_acc d t)) b' = line_acc d t \<and> length b' = length (d @ t @ j)"
proof (induction t arbitrary: d j)
  case Nil
  then show ?case by simp
next
  case (Cons c t)
  have rd: "(d @ (c # t) @ j) ! length d = c" by simp
  consider "terminator c" "d = []" | "terminator c" "d \<noteq> []" | "\<not> terminator c" by blast
  then show ?case
  proof cases
    case 1
    then show ?thesis
      using Cons.IH[of "[]" "drop (length t) (c # t @ j)"]
      by (simp add: memmove_head split: option.splits prod.splits)
  next
    case 2
    then show ?thesis using rd by (simp add: list_update_append)
  next
    case 3
    then have "scan (d @ (c # t) @ j) (length d) (length (c # t)) False =
        scan ((d @ [c]) @ t @ j) (length (d @ [c])) (length t) False" using rd by simp
    with 3 Cons.IH[of "d @ [c]" j] show ?thesis by (simp split: option.splits prod.splits)
  qed
qed

section \<open>The loop reads the next line\<close>

text \<open>A reader between two lines of its loop: \<open>d\<close> has been read and kept, \<open>t\<close> not scanned yet.\<close>

definition holds :: "nat \<Rightarrow> reader \<Rightarrow> string \<Rightarrow> string \<Rightarrow> bool" where
  "holds lim st d t \<longleftrightarrow> (\<exists>j. sCmdBuffer st = d @ t @ j) \<and> length (sCmdBuffer st) = lim + 1 \<and>
     iCmdRecvdLen st = length d \<and> nRemainingCharToParse st = length t \<and> length d + length t \<le> lim"

text \<open>A reader between two calls: the unread bytes lie inside the buffer.\<close>

definition ready :: "nat \<Rightarrow> reader \<Rightarrow> bool" where
  "ready lim st \<longleftrightarrow> length (sCmdBuffer st) = lim + 1 \<and>
     (case psNextCmd st of
        None \<Rightarrow> nRemainingCharToParse st = 0
      | Some p \<Rightarrow> p + nRemainingCharToParse st \<le> lim)"

lemma ready_new: "ready lim (new_reader lim)"
  by (simp add: ready_def new_reader_def)

lemma pending_new [simp]: "pending (new_reader lim) = []"
  by (simp add: pending_def new_reader_def)

lemma loop_found:
  assumes "holds lim st d t" and "take_line d t = Some (l, r)"
  shows "\<exists>st'. receive_loop lim e st False evs =
      (GotLine, st', evs, [OnClientEvent RECVD_CMD_LINE (Some l)]) \<and>
      the_line st' = l \<and> pending st' = r \<and> ready lim st'"
proof -
  from assms(1) obtain j where b: "sCmdBuffer st = d @ t @ j" by (auto simp: holds_def)
  from scan_spec[of d t j] assms(2) obtain b' where
    "scan (d @ t @ j) (length d) (length t) False = (b', length l, length r, False, Some (length l + 1))"
    "take (length l) b' = l" "take (length r) (drop (length l + 1) b') = r" "length b' = length (d @ t @ j)"
    by auto
  then show ?thesis using assms(1) b take_line_length[OF assms(2)]
    by (simp add: receive_loop.simps holds_def the_line_def pending_def ready_def)
qed

lemma loop_scanned:
  assumes "holds lim st d t" and "take_line d t = None"
  obtains b' where
    "scan (sCmdBuffer st) (iCmdRecvdLen st) (nRemainingCharToParse st) False =
       (b', length (line_acc d t), 0, False, None)"
    "take (length (line_acc d t)) b' = line_acc d t" "length b' = lim + 1"
proof -
  from assms(1) obtain j where b: "sCmdBuffer st = d @ t @ j" by (auto simp: holds_def)
  with scan_spec[of d t j] assms that show thesis by (auto simp: holds_def)
qed

lemma loop_blocked:
  assumes "holds lim st d t" and "take_line d t = None" and "length (line_acc d t) < lim"
  shows "\<exists>st'. receive_loop lim e st False [] = (Blocked, st', [], [])"
proof -
  from assms(1,2) obtain b' where
    "scan (sCmdBuffer st) (iCmdRecvdLen st) (nRemainingCharToParse st) False =
       (b', length (line_acc d t), 0, False, None)" by (rule loop_scanned)
  with assms(3) show ?thesis by (simp add: receive_loop.simps)
qed

lemma loop_receives:
  assumes "holds lim st d t" and "take_line d t = None" and "length (line_acc d t) < lim" and "bs \<noteq> []"
  defines "room \<equiv> lim - length (line_acc d t)"
  shows "\<exists>st'. receive_loop lim e st False (map Data (bs # bss)) =
      receive_loop lim e st' False (map Data ((if drop room bs = [] then [] else [drop room bs]) @ bss)) \<and>
      holds lim st' (line_acc d t) (take room bs)"
proof -
  let ?d = "line_acc d t"
  from assms(1,2) obtain b' where b': "scan (sCmdBuffer st) (iCmdRecvdLen st) (nRemainingCharToParse st) False =
       (b', length ?d, 0, False, None)" "take (length ?d) b' = ?d" "length b' = lim + 1"
    by (rule loop_scanned)
  let ?st' = "st\<lparr>iCmdRecvdLen := length ?d, sCmdBuffer := store_bytes b' (length ?d) (take room bs),
    nRemainingCharToParse := length (take room bs)\<rparr>"
  have ne: "take room bs \<noteq> []" and nf: "\<not> lim \<le> length ?d"
    using assms(3,4) by (auto simp: room_def)
  have "receive_loop lim e st False (map Data (bs # bss)) =
      (case receive_loop lim e ?st' False (map Data ((if drop room bs = [] then [] else [drop room bs]) @ bss)) of
        (res, st4, es4, out4) \<Rightarrow> (res, st4, es4, [] @ out4))"
    unfolding list.map(2) receive_loop.simps[of lim e st False "Data bs # map Data bss"] b'
    using ne nf by (simp add: Let_def room_def)
  then have "receive_loop lim e st False (map Data (bs # bss)) =
      receive_loop lim e ?st' False (map Data ((if drop room bs = [] then [] else [drop room bs]) @ bss))"
    by (simp split: prod.splits)
  moreover have "holds lim ?st' ?d (take room bs)"
    using b' assms(3) by (auto simp: holds_def store_bytes_def room_def)
  ultimately show ?thesis by blast
qed

text \<open>The bytes the events bring.\<close>

fun data_of :: "net_event \<Rightarrow> string" where
  "data_of (Data bs) = bs"
| "data_of _ = []"

definition bytes_of :: "net_event list \<Rightarrow> string" where
  "bytes_of evs = concat (map data_of evs)"

definition all_data :: "net_event list \<Rightarrow> bool" where
  "all_data evs \<longleftrightarrow> (\<forall>ev\<in>set evs. case ev of Data bs \<Rightarrow> bs \<noteq> [] | _ \<Rightarrow> False)"

lemma all_data_cases:
  assumes "all_data evs"
  obtains "evs = []" | bs es where "evs = Data bs # es"
  using assms by (cases evs) (auto simp: all_data_def split: net_event.splits)

lemma all_data_map: "all_data evs \<Longrightarrow> \<exists>bss. evs = map Data bss"
  by (induction evs) (auto simp: all_data_def Cons_eq_map_conv split: net_event.splits)

lemma chunk_step:
  assumes "all_data (Data bs # es)" and "holds lim st d t" and "take_line d t = None"
    and "length (line_acc d t) < lim"
  obtains st' es' t' where "receive_loop lim e st False (Data bs # es) = receive_loop lim e st' False es'"
    "holds lim st' (line_acc d t) t'" "all_data es'" "t' @ bytes_of es' = bs @ bytes_of es" "t' \<noteq> []"
proof -
  from assms(1) obtain bss where bss: "es = map Data bss" "bs \<noteq> []"
    using all_data_map[of es] by (auto simp: all_data_def)
  let ?room = "lim - length (line_acc d t)"
  let ?es' = "map Data ((if drop ?room bs = [] then [] else [drop ?room bs]) @ bss)"
  from loop_receives[OF assms(2,3,4) bss(2)] obtain st' where
    "receive_loop lim e st False (map Data (bs # bss)) = receive_loop lim e st' False ?es'"
    "holds lim st' (line_acc d t) (take ?room bs)" by blast
  moreover have "all_data ?es'" using assms(1) bss by (auto simp: all_data_def)
  moreover have "take ?room bs @ bytes_of ?es' = bs @ bytes_of es"
    using bss by (auto simp: bytes_of_def o_def)
  moreover have "take ?room bs \<noteq> []" using bss(2) assms(4) by simp
  ultimately show thesis using that bss(1) by simp
qed

lemma loop_line:
  "all_data evs \<Longrightarrow> holds lim st d t \<Longrightarrow> take_line d (t @ bytes_of evs) = Some (l, r) \<Longrightarrow>
     length l < lim \<Longrightarrow>
   \<exists>st' evs'. receive_loop lim e st False evs = (GotLine, st', evs', [OnClientEvent RECVD_CMD_LINE (Some l)]) \<and>
     the_line st' = l \<and> pending st' @ bytes_of evs' = r \<and> ready lim st' \<and> all_data evs'"
proof (induction "length (bytes_of evs)" arbitrary: evs st d t rule: less_induct)
  case less
  show ?case
  proof (cases "take_line d t")
    case (Some lr)
    then obtain l' r' where lr: "lr = (l', r')" by (cases lr)
    with Some less.prems(3) have "l' = l" "r = r' @ bytes_of evs" by (auto simp: take_line_append)
    with loop_found[OF less.prems(2) Some[unfolded lr], of e evs] less.prems(1) show ?thesis by auto
  next
    case None
    with less.prems(3) have tl: "take_line (line_acc d t) (bytes_of evs) = Some (l, r)"
      by (simp add: take_line_append)
    from take_line_prefix[OF tl] less.prems(4) have acc: "length (line_acc d t) < lim" by simp
    from less.prems(1) obtain bs es where evs: "evs = Data bs # es"
      by (rule all_data_cases) (use tl in \<open>auto simp: bytes_of_def\<close>)
    from chunk_step[OF less.prems(1)[unfolded evs] less.prems(2) None acc, of e] obtain st' es' t' where
      st': "receive_loop lim e st False (Data bs # es) = receive_loop lim e st' False es'"
        "holds lim st' (line_acc d t) t'" "all_data es'" "t' @ bytes_of es' = bs @ bytes_of es" "t' \<noteq> []" .
    have "length (bytes_of es') < length (bytes_of evs)"
      using arg_cong[OF st'(4), of length] st'(5) evs by (cases t') (auto simp: bytes_of_def)
    from less.hyps[OF this st'(3,2)] tl st'(1,4) evs less.prems(4) show ?thesis
      by (simp add: bytes_of_def)
  qed
qed

lemma loop_no_line:
  "all_data evs \<Longrightarrow> holds lim st d t \<Longrightarrow> take_line d (t @ bytes_of evs) = None \<Longrightarrow>
     longest_run (length d) (t @ bytes_of evs) < lim \<Longrightarrow>
   \<exists>st'. receive_loop lim e st False evs = (Blocked, st', [], [])"
proof (induction "length (bytes_of evs)" arbitrary: evs st d t rule: less_induct)
  case less
  have none: "take_line d t = None" "take_line (line_acc d t) (bytes_of evs) = None"
    using less.prems(3) by (auto simp: take_line_append split: option.splits prod.splits)
  have run: "longest_run (length (line_acc d t)) (bytes_of evs) < lim"
    using longest_run_append[OF none(1), of "bytes_of evs"] less.prems(4) by simp
  then have acc: "length (line_acc d t) < lim" using longest_run_ge le_less_trans by blast
  from less.prems(1) show ?case
  proof (rule all_data_cases)
    assume "evs = []"
    with loop_blocked[OF less.prems(2) none(1) acc] show ?thesis by simp
  next
    fix bs es assume evs: "evs = Data bs # es"
    from chunk_step[OF less.prems(1)[unfolded evs] less.prems(2) none(1) acc, of e] obtain st' es' t' where
      st': "receive_loop lim e st False (Data bs # es) = receive_loop lim e st' False es'"
        "holds lim st' (line_acc d t) t'" "all_data es'" "t' @ bytes_of es' = bs @ bytes_of es" "t' \<noteq> []" .
    have "length (bytes_of es') < length (bytes_of evs)"
      using arg_cong[OF st'(4), of length] st'(5) evs by (cases t') (auto simp: bytes_of_def)
    from less.hyps[OF this st'(3,2)] none(2) run st'(1,4) evs show ?thesis
      by (simp add: bytes_of_def)
  qed
qed

section \<open>A session's lines\<close>

text \<open>One call from a reader between two lines: its unread bytes come first.\<close>

lemma ReceiveLine_start:
  assumes "ready lim st"
  obtains st1 where "ReceiveLine_lim lim e st evs = receive_loop lim e st1 False evs"
    "holds lim st1 [] (pending st)"
proof (cases "psNextCmd st")
  case None
  with assms have "holds lim (st\<lparr>iCmdRecvdLen := 0, iCmdLen := 0\<rparr>) [] (pending st)"
    by (auto simp: holds_def ready_def pending_def)
  with None that show thesis by (simp add: ReceiveLine_lim_def)
next
  case (Some p)
  let ?n = "nRemainingCharToParse st"
  let ?st1 = "if ?n > 0 then st\<lparr>iCmdRecvdLen := 0, iCmdLen := 0,
      sCmdBuffer := memmove (sCmdBuffer st) 0 p ?n, psNextCmd := None\<rparr>
    else st\<lparr>iCmdRecvdLen := 0, iCmdLen := 0\<rparr>"
  have "holds lim ?st1 [] (pending st)"
    using assms Some by (auto simp: holds_def ready_def pending_def memmove_def)
  moreover have "ReceiveLine_lim lim e st evs = receive_loop lim e ?st1 False evs"
    using Some by (simp add: ReceiveLine_lim_def)
  ultimately show thesis using that by blast
qed

fun receive_lines :: "nat \<Rightarrow> reader_env \<Rightarrow> nat \<Rightarrow> reader \<Rightarrow> net_event list \<Rightarrow> string list" where
  "receive_lines lim e 0 st evs = []"
| "receive_lines lim e (Suc n) st evs = (case ReceiveLine_lim lim e st evs of
      (GotLine, st', evs', _) \<Rightarrow> the_line st' # receive_lines lim e n st' evs'
    | _ \<Rightarrow> [])"

text \<open>The first \<open>n\<close> lines of a byte stream.\<close>

fun stream_lines :: "nat \<Rightarrow> string \<Rightarrow> string list" where
  "stream_lines 0 s = []"
| "stream_lines (Suc n) s = (case take_line [] s of
      None \<Rightarrow> []
    | Some (l, r) \<Rightarrow> l # stream_lines n r)"

lemma receive_lines_stream:
  "ready lim st \<Longrightarrow> all_data evs \<Longrightarrow> longest_run 0 (pending st @ bytes_of evs) < lim \<Longrightarrow>
     receive_lines lim e n st evs = stream_lines n (pending st @ bytes_of evs)"
proof (induction n arbitrary: st evs)
  case 0
  then show ?case by simp
next
  case (Suc n)
  from Suc.prems(1) obtain st1 where st1: "ReceiveLine_lim lim e st evs = receive_loop lim e st1 False evs"
    "holds lim st1 [] (pending st)" by (rule ReceiveLine_start)
  show ?case
  proof (cases "take_line [] (pending st @ bytes_of evs)")
    case None
    then obtain st' where "receive_loop lim e st1 False evs = (Blocked, st', [], [])"
      using loop_no_line[OF Suc.prems(2) st1(2), of e] Suc.prems(3) by auto
    with st1(1) None show ?thesis by simp
  next
    case (Some lr)
    then obtain l r where lr: "take_line [] (pending st @ bytes_of evs) = Some (l, r)" by (cases lr) auto
    note run = take_line_run[OF lr]
    with Suc.prems(3) have "length l < lim" by simp
    from loop_line[OF Suc.prems(2) st1(2) lr this, of e] obtain st' evs' where
      "receive_loop lim e st1 False evs = (GotLine, st', evs', [OnClientEvent RECVD_CMD_LINE (Some l)])"
      "the_line st' = l" "pending st' @ bytes_of evs' = r" "ready lim st'" "all_data evs'" by blast
    moreover from this have "receive_lines lim e n st' evs' = stream_lines n r"
      using Suc.IH[of st' evs'] run Suc.prems(3) by simp
    ultimately show ?thesis using st1(1) lr by simp
  qed
qed

section \<open>The buffer is never overrun\<close>

lemma scan_bounds:
  "scan b r n fl = (b', r', n', fl', found) \<Longrightarrow> r + n \<le> lim \<Longrightarrow> length b = lim + 1 \<Longrightarrow>
     r' + n' \<le> lim \<and> length b' = lim + 1 \<and>
     (case found of None \<Rightarrow> n' = 0 | Some p \<Rightarrow> p + n' \<le> lim)"
proof (induction b r n fl rule: scan.induct)
  case (1 b r fl)
  then show ?case by auto
next
  case (2 b r n fl)
  then show ?case by (fastforce simp: memmove_def split: if_splits)
qed

definition within :: "nat \<Rightarrow> reader \<Rightarrow> bool" where
  "within lim st \<longleftrightarrow> length (sCmdBuffer st) = lim + 1 \<and>
     iCmdRecvdLen st + nRemainingCharToParse st \<le> lim"

lemma store_within:
  assumes "length b = lim + 1" and "r + length got \<le> lim"
  shows "length (store_bytes b r got) = lim + 1"
  using assms by (simp add: store_bytes_def)

lemma receive_loop_bounds:
  "receive_loop lim e st fl evs = (res, st', evs', out) \<Longrightarrow> within lim st \<Longrightarrow>
     within lim st' \<and> (res = GotLine \<longrightarrow> ready lim st')"
proof (induction "unread evs" arbitrary: st fl evs res st' evs' out rule: less_induct)
  case less
  obtain b r n fl1 found where sc:
    "scan (sCmdBuffer st) (iCmdRecvdLen st) (nRemainingCharToParse st) fl = (b, r, n, fl1, found)"
    by (metis prod_cases5)
  have bd: "r + n \<le> lim" "length b = lim + 1"
    "case found of None \<Rightarrow> n = 0 | Some p \<Rightarrow> p + n \<le> lim"
    using scan_bounds[OF sc] less.prems(2) by (auto simp: within_def)
  note eq = less.prems(1)[unfolded receive_loop.simps[of lim e st fl evs] sc]
  show ?case
  proof (cases found)
    case (Some p)
    with eq bd show ?thesis by (auto simp: within_def ready_def)
  next
    case None
    let ?r = "if r \<ge> lim then 0 else r" and ?fl = "fl1 \<or> r \<ge> lim"
    let ?st2 = "st\<lparr>sCmdBuffer := b, iCmdRecvdLen := ?r, nRemainingCharToParse := n\<rparr>"
    have w2: "within lim ?st2" and n: "n = 0" using bd None by (auto simp: within_def)
    show ?thesis
    proof (cases evs)
      case Nil
      with eq None w2 show ?thesis by (auto simp: Let_def)
    next
      case (Cons ev es)
      show ?thesis
      proof (cases ev)
        case (NoData dt)
        have "unread es < unread evs" using Cons by (simp add: unread_def)
        from less.hyps[OF this _ w2] show ?thesis using eq None Cons NoData w2
          by (auto simp: Let_def split: if_splits prod.splits)
      next
        case (Data bs)
        let ?room = "if r \<ge> lim then lim else lim - r"
        let ?es = "if drop ?room bs = [] then es else Data (drop ?room bs) # es"
        let ?st3 = "?st2\<lparr>sCmdBuffer := store_bytes b ?r (take ?room bs),
          nRemainingCharToParse := n + length (take ?room bs)\<rparr>"
        have w3: "within lim ?st3"
          using bd n store_within[of b lim ?r "take ?room bs"] by (auto simp: within_def)
        show ?thesis
        proof (cases "take ?room bs = []")
          case True
          with eq None Cons Data w2 show ?thesis by (simp add: Let_def)
        next
          case False
          then have "unread ?es < unread evs" using Cons Data by (auto simp: unread_def)
          from less.hyps[OF this _ w3] show ?thesis using eq None Cons Data False
            by (simp add: Let_def split: prod.splits)
        qed
      qed (use eq None Cons w2 in \<open>auto simp: Let_def\<close>)
    qed
  qed
qed

section \<open>An overlong line\<close>

lemma scan_skip_plain:
  "\<forall>c\<in>set t. \<not> terminator c \<Longrightarrow>
     scan (d @ t @ j) (length d) (length t + k) fl = scan (d @ t @ j) (length d + length t) k fl"
proof (induction t arbitrary: d)
  case Nil
  then show ?case by simp
next
  case (Cons c t)
  have "(d @ (c # t) @ j) ! length d = c" by simp
  then have "scan (d @ (c # t) @ j) (length d) (length (c # t) + k) fl =
      scan ((d @ [c]) @ t @ j) (length (d @ [c])) (length t + k) fl" using Cons.prems by simp
  with Cons.IH[of "d @ [c]"] Cons.prems show ?case by simp
qed

text \<open>Scanning while the rest of an overlong line is thrown away: after its terminator the scan goes
  on at the start of the buffer, where the discarded bytes still are.\<close>

lemma scan_flush:
  assumes "\<forall>x\<in>set (c # w). \<not> terminator x" and "b = c # w @ CRLF @ j"
  obtains b' where "scan b 0 (length w + 3) True = (b', 1, 0, False, None)" "take 1 b' = [c]"
    "length b' = length b"
proof -
  have "scan b 0 (length w + 3) True = scan b (length (c # w)) 2 True"
    using scan_skip_plain[of "c # w" "[]" "CRLF @ j" 2 True] assms by (simp add: eval_nat_numeral)
  also have "\<dots> = scan (memmove b (length (c # w)) (length (c # w) + 1) 1) 0 1 False"
    using assms(2) by (simp add: terminator_def numeral_2_eq_2)
  also have "memmove b (length (c # w)) (length (c # w) + 1) 1 = c # w @ LF # LF # j"
    using assms(2) by (simp add: memmove_def)
  finally have "scan b 0 (length w + 3) True = (c # w @ LF # LF # j, 1, 0, False, None)"
    using assms(1) by simp
  then show thesis using that assms(2) by simp
qed

lemma overlong_lim:
  assumes filler: "length filler = lim" "\<forall>x\<in>set filler. \<not> terminator x"
    and w: "\<forall>x\<in>set (c # w). \<not> terminator x" "length w + 3 \<le> lim"
    and nxt: "\<forall>x\<in>set nxt. \<not> terminator x" "length nxt + 3 \<le> lim"
  defines "evs \<equiv> [Data filler, Data (c # w @ CRLF), Data (nxt @ CRLF)]"
  shows "\<exists>st'. ReceiveLine_lim lim e (new_reader lim) evs = (GotLine, st', [],
      snd (SendReply (re_send_ok e) ''500 Command line is too long !'') @
      [OnClientEvent RECVD_CMD_LINE (Some (c # nxt))]) \<and> the_line st' = c # nxt"
proof -
  let ?es = "[Data (c # w @ CRLF), Data (nxt @ CRLF)]"
  have lim: "0 < lim" "filler \<noteq> []" using w(2) filler(1) by auto
  define stA where "stA = (new_reader lim)\<lparr>sCmdBuffer := filler @ [NUL], nRemainingCharToParse := lim\<rparr>"
  have dr: "drop lim (NUL # replicate lim NUL) = [NUL]"
    using drop_replicate[of lim "Suc lim" NUL] by simp
  have A: "ReceiveLine_lim lim e (new_reader lim) evs = receive_loop lim e stA False ?es"
    using filler(1) lim dr unfolding evs_def
    by (simp add: ReceiveLine_lim_def new_reader_def receive_loop.simps[of lim e _ False "Data filler # _"]
        store_bytes_def stA_def split: prod.splits)
  let ?out = "snd (SendReply (re_send_ok e) ''500 Command line is too long !'')"
  let ?chunk = "c # w @ CRLF"
  define j where "j = drop (length ?chunk) (filler @ [NUL])"
  define stB where "stB = stA\<lparr>iCmdRecvdLen := 0, sCmdBuffer := ?chunk @ j,
    nRemainingCharToParse := length w + 3\<rparr>"
  have fA: "sCmdBuffer stA = filler @ [NUL]" "iCmdRecvdLen stA = 0" "nRemainingCharToParse stA = lim"
    by (simp_all add: stA_def new_reader_def)
  have fB: "sCmdBuffer stB = ?chunk @ j" "iCmdRecvdLen stB = 0" "nRemainingCharToParse stB = length w + 3"
    by (simp_all add: stB_def)
  have scA: "scan (filler @ [NUL]) 0 lim False = (filler @ [NUL], lim, 0, False, None)"
    using scan_skip_plain[of filler "[]" "[NUL]" 0 False] filler by simp
  have B: "receive_loop lim e stA False ?es =
      (case receive_loop lim e stB True [Data (nxt @ CRLF)] of (res, st, es, out) \<Rightarrow> (res, st, es, ?out @ out))"
    using w(2) scA
    by (simp add: receive_loop.simps[of lim e stA] fA store_bytes_def stB_def j_def Let_def eval_nat_numeral)
  obtain b' where b': "scan (?chunk @ j) 0 (length w + 3) True = (b', 1, 0, False, None)"
      "take 1 b' = [c]" "length b' = length (?chunk @ j)"
    using scan_flush[of c w "?chunk @ j" j] w(1) by auto
  have lenB: "length (?chunk @ j) = lim + 1" using filler(1) w(2) by (simp add: j_def)
  define stC where "stC = stB\<lparr>iCmdRecvdLen := 1, sCmdBuffer := store_bytes b' 1 (nxt @ CRLF),
    nRemainingCharToParse := length nxt + 2\<rparr>"
  have big: "\<not> lim - Suc 0 \<le> length nxt" using nxt(2) by arith
  have C: "receive_loop lim e stB True [Data (nxt @ CRLF)] = receive_loop lim e stC False []"
    using nxt(2) b'(1) big unfolding receive_loop.simps[of lim e stB] fB
    by (simp add: stC_def Let_def split: prod.splits)
  have "holds lim stC [c] (nxt @ CRLF)"
    using b' lenB nxt(2) by (simp add: holds_def stC_def store_bytes_def)
  moreover have "take_line [c] (nxt @ CRLF) = Some (c # nxt, [LF])"
    using take_line_plain[OF nxt(1), of "[c]"] by (simp add: take_line_append terminator_def)
  ultimately obtain st' where "receive_loop lim e stC False [] =
      (GotLine, st', [], [OnClientEvent RECVD_CMD_LINE (Some (c # nxt))])" "the_line st' = c # nxt"
    using loop_found by blast
  with A B C show ?thesis by simp
qed

section \<open>The properties\<close>

text \<open>A logged-in client without timeouts, for the examples.\<close>

definition quiet_env :: reader_env where
  "quiet_env = \<lparr>re_logged = True, re_waiting = True, re_login_timeout = 0, re_transfer_timeout = 0,
     re_send_ok = (\<lambda>_. True)\<rparr>"

text \<open>C9: Framing: however the client's bytes are cut into segments on the way, the command lines
  the server reads are the lines of the byte stream (the non-empty runs between CR, LF and NUL), in
  order and complete, as long as no run is as long as the buffer.\<close>

theorem ReceiveLine_frames:
  assumes "all_data evs" and "longest_run 0 (bytes_of evs) < MAX_COMMAND_LINE_LEN"
  shows "receive_lines MAX_COMMAND_LINE_LEN e n (new_reader MAX_COMMAND_LINE_LEN) evs =
    stream_lines n (bytes_of evs)"
  using receive_lines_stream[OF ready_new assms(1)] assms(2) by simp

theorem ReceiveLine_frames_witness:
  "receive_lines MAX_COMMAND_LINE_LEN quiet_env 3 (new_reader MAX_COMMAND_LINE_LEN)
     [Data ''NO'', Data (''OP'' @ CRLF @ ''SYS''), Data (''T'' @ [LF])] = [''NOOP'', ''SYST'']"
proof -
  let ?evs = "[Data ''NO'', Data (''OP'' @ CRLF @ ''SYS''), Data (''T'' @ [LF])]"
  have "all_data ?evs" "longest_run 0 (bytes_of ?evs) < MAX_COMMAND_LINE_LEN"
    by (simp_all add: all_data_def bytes_of_def terminator_def MAX_COMMAND_LINE_LEN_def MAX_PATH_def)
  from ReceiveLine_frames[OF this, of quiet_env 3] show ?thesis
    by (simp add: bytes_of_def terminator_def numeral_3_eq_3)
qed

text \<open>C33: Memory safety of the reader: whatever the network does and however long the lines are, a call
  keeps the command buffer at its size with the scan and receive positions inside it, and a
  delivered line leaves the reader ready for the next call.\<close>

theorem ReceiveLine_bounds:
  assumes "ready MAX_COMMAND_LINE_LEN st" and "ReceiveLine e st evs = (res, st', evs', out)"
  shows "length (sCmdBuffer st') = MAX_COMMAND_LINE_LEN + 1 \<and>
    iCmdRecvdLen st' + nRemainingCharToParse st' \<le> MAX_COMMAND_LINE_LEN \<and>
    (res = GotLine \<longrightarrow> ready MAX_COMMAND_LINE_LEN st')"
proof -
  from assms(1) obtain st1 where st1: "ReceiveLine e st evs = receive_loop MAX_COMMAND_LINE_LEN e st1 False evs"
    "holds MAX_COMMAND_LINE_LEN st1 [] (pending st)"
    unfolding ReceiveLine_def by (rule ReceiveLine_start)
  then have "within MAX_COMMAND_LINE_LEN st1" by (auto simp: holds_def within_def)
  with receive_loop_bounds assms(2) st1(1) show ?thesis by (metis within_def)
qed

theorem ReceiveLine_bounds_witness:
  "let st' = fst (snd (ReceiveLine quiet_env (new_reader MAX_COMMAND_LINE_LEN) [Data ''QUIT'', PeerClosed]))
   in length (sCmdBuffer st') = MAX_COMMAND_LINE_LEN + 1"
proof -
  obtain res st' evs' out where
    r: "ReceiveLine quiet_env (new_reader MAX_COMMAND_LINE_LEN) [Data ''QUIT'', PeerClosed] = (res, st', evs', out)"
    by (metis prod_cases4)
  from ReceiveLine_bounds[OF ready_new r] r show ?thesis by simp
qed

text \<open>After a line that is too long the next command is corrupted: the server answers 500, drops
  the rest of the line when its terminator comes, but goes on scanning at the start of the buffer,
  so the first byte of the dropped rest becomes the first byte of the next command.\<close>

theorem overlong_line_corrupts_next:
  assumes "length filler = MAX_COMMAND_LINE_LEN" and "\<forall>x\<in>set filler. \<not> terminator x"
    and "\<forall>x\<in>set (c # w). \<not> terminator x" and "length w + 3 \<le> MAX_COMMAND_LINE_LEN"
    and "\<forall>x\<in>set nxt. \<not> terminator x" and "length nxt + 3 \<le> MAX_COMMAND_LINE_LEN"
  shows "\<exists>st'. ReceiveLine e (new_reader MAX_COMMAND_LINE_LEN)
        [Data filler, Data (c # w @ CRLF), Data (nxt @ CRLF)] =
      (GotLine, st', [], snd (SendReply (re_send_ok e) ''500 Command line is too long !'') @
        [OnClientEvent RECVD_CMD_LINE (Some (c # nxt))]) \<and> the_line st' = c # nxt"
  unfolding ReceiveLine_def by (rule overlong_lim[OF assms])

theorem overlong_line_corrupts_next_witness:
  "\<exists>st'. fst (snd (ReceiveLine quiet_env (new_reader MAX_COMMAND_LINE_LEN)
      [Data (replicate MAX_COMMAND_LINE_LEN (CHR ''A'')), Data (''xyz'' @ CRLF), Data (''NOOP'' @ CRLF)])) = st' \<and>
    the_line st' = ''xNOOP''"
  using overlong_line_corrupts_next[of "replicate MAX_COMMAND_LINE_LEN (CHR ''A'')" "CHR ''x''" "''yz''"
      "''NOOP''" quiet_env]
  by (auto simp: terminator_def MAX_COMMAND_LINE_LEN_def MAX_PATH_def)

end
