(* ===== verification/Session.thy ===== *)
theory Session
  imports Users Commands DataPorts LineReader
begin

text \<open>
  The state of a connected client (\<open>CClientEntry\<close>) and the operations on it that the command handlers
  share: replying, logging in and out, opening and resetting the data connection.
\<close>

section \<open>The state of a client\<close>

datatype Status_t = WAITING | LISTING | UPLOADING | DOWNLOADING

datatype DataMode_t = STREAM | ZLIB

datatype DataType_t = ASCII | BINARY | EBCDIC

datatype DataConnection_t = NONE | PASV | PORT

text \<open>A socket: not open, listening on a port, or connected to the client.\<close>

datatype socket = INVALID_SOCKET | Opened | Listening "16 word" | Connected

record DataTransfer_t =
  RestartAt :: int
  tr_st :: "stat_buf option"
  tr_cmd :: command
  SockList :: socket
  opt_a :: bool
  opt_d :: bool
  opt_F :: bool
  opt_l :: bool
  szPath :: string
  TransferThread :: bool

text \<open>\<open>memset (&CurrentTransfer, 0, ...)\<close>; \<open>CMD_QUIT\<close> is the command with number 0.\<close>

definition zero_transfer :: DataTransfer_t where
  "zero_transfer = \<lparr>RestartAt = 0, tr_st = None, tr_cmd = CMD_QUIT, SockList = INVALID_SOCKET,
     opt_a = False, opt_d = False, opt_F = False, opt_l = False, szPath = [], TransferThread = False\<rparr>"

record client =
  CtrlSock :: bool
  bIsLogged :: bool
  eStatus :: Status_t
  ulDataIp :: int
  usDataPort :: "16 word"
  szWorkingDir :: string
  szRenameFromPath :: string
  tTimeoutTime :: int
  nPasswordTries :: "32 word"
  DataSock :: socket
  eDataMode :: DataMode_t
  eDataType :: DataType_t
  eDataConnection :: DataConnection_t
  CurrentTransfer :: DataTransfer_t
  pUser :: "user_entry option"
  ulServerIP :: int
  ulClientIP :: int
  bIsCtrlCanalOpen :: bool
  nPRET_CMD :: command
  llPRET_fid :: int
  llPRET_trans_id :: int
  SlaveInfo :: slave_info

text \<open>The constructor, then what \<open>AddClient\<close> stores.\<close>

definition CClientEntry :: client where
  "CClientEntry = \<lparr>CtrlSock = False, bIsLogged = False, eStatus = WAITING, ulDataIp = 0, usDataPort = 0,
     szWorkingDir = [], szRenameFromPath = [], tTimeoutTime = 0, nPasswordTries = 0,
     DataSock = INVALID_SOCKET, eDataMode = STREAM, eDataType = ASCII, eDataConnection = NONE,
     CurrentTransfer = zero_transfer, pUser = None, ulServerIP = 0, ulClientIP = 0,
     bIsCtrlCanalOpen = False, nPRET_CMD = CMD_NONE, llPRET_fid = - 1, llPRET_trans_id = - 1,
     SlaveInfo = \<lparr>si_host = [], si_port = None\<rparr>\<rparr>"

definition new_client :: "int \<Rightarrow> int \<Rightarrow> client" where
  "new_client server_ip client_ip = CClientEntry\<lparr>CtrlSock := True, szWorkingDir := ''/'',
     ulServerIP := server_ip, ulClientIP := client_ip\<rparr>"

text \<open>The getters of a client.\<close>

definition GetIP :: "client \<Rightarrow> int" where "GetIP c = ulClientIP c"
definition GetServerIP :: "client \<Rightarrow> int" where "GetServerIP c = ulServerIP c"
definition IsLogged :: "client \<Rightarrow> bool" where "IsLogged c = bIsLogged c"
definition GetWorkingDirectory :: "client \<Rightarrow> string" where "GetWorkingDirectory c = szWorkingDir c"

section \<open>The server around it\<close>

text \<open>The configuration of the server (the members of \<open>CFtpServer\<close> that the handlers read).\<close>

record server_config =
  DataPortRange :: port_range
  uiMaxPasswordTries :: "32 word"
  uiCheckPassDelay :: nat
  ulNoLoginTimeout :: nat
  ulNoTransferTimeout :: nat
  uiTransferBufferSize :: nat
  uiTransferSocketBufferSize :: nat
  bEnableFXP :: bool
  RedisDB :: nat
  Slaves :: "slave_info list"

text \<open>
  What the rest of the world answers during one command: the clock, the results of \<open>rand\<close>, of the
  socket calls, of \<open>pthread_create\<close> and of the calls to the slaves (\<open>None\<close> is a \<open>TException\<close>).
  \<open>cmd_slack\<close> is the number of bytes after the local array \<open>cmd\<close> of the \<open>PRET\<close> branch that the
  compiler's layout leaves unused; \<open>inet_addr\<close> is the function of the C library.
\<close>

record 'db env =
  redis :: "'db redis"
  config :: server_config
  now :: int
  rand :: "nat \<Rightarrow> nat"
  send_ok :: "string \<Rightarrow> bool"
  connect_ok :: bool
  socket_ok :: bool
  sockopt_ok :: bool
  bind_ok :: "16 word \<Rightarrow> bool"
  listen_ok :: bool
  accept_ok :: bool
  reach_ok :: bool
  thread_ok :: bool
  cmd_slack :: nat
  inet_addr :: "string \<Rightarrow> int"
  rpc_init_pasv :: "slave_info \<Rightarrow> int \<Rightarrow> int \<Rightarrow> 16 word \<Rightarrow> 16 word \<Rightarrow> string option"
  rpc_open_pasv :: "slave_info \<Rightarrow> int \<Rightarrow> string option"

section \<open>The result of a command\<close>

text \<open>Whether the main loop goes on, the new state, the outputs, and the database.\<close>

datatype flow = Continue | Break

type_synonym 'db step = "(flow \<times> client \<times> effect list \<times> 'db) outcome"

definition say :: "'db env \<Rightarrow> string \<Rightarrow> effect list" where
  "say e t = snd (SendReply (send_ok e) t)"

definition say2 :: "'db env \<Rightarrow> string \<Rightarrow> effect list" where
  "say2 e t = snd (SendReply2 (send_ok e) t)"

text \<open>A branch that replies and goes on with the next command.\<close>

definition answer :: "'db env \<Rightarrow> string \<Rightarrow> client \<Rightarrow> 'db \<Rightarrow> 'db step" where
  "answer e t c db = Ret (Continue, c, say e t, db)"

lemma wires_say [simp]: "wires (say e t) = [t @ CRLF]"
  by (simp add: say_def)

section \<open>Logging in and out\<close>

definition ResetTimeout :: "'db env \<Rightarrow> client \<Rightarrow> client" where
  "ResetTimeout e c = c\<lparr>tTimeoutTime := now e\<rparr>"

definition LogIn :: "'db env \<Rightarrow> client \<Rightarrow> client \<times> effect list" where
  "LogIn e c = (ResetTimeout e (c\<lparr>bIsLogged := True,
     pUser := map_option (\<lambda>u. u\<lparr>uiNumberOfClient := uiNumberOfClient u + 1\<rparr>) (pUser c)\<rparr>),
     say e ''230 User Logged In.'')"

text \<open>\<open>LogOut\<close> takes the client off its user entry, which nothing refers to any more then.\<close>

definition LogOut :: "client \<Rightarrow> client" where
  "LogOut c = c\<lparr>pUser := None, bIsLogged := False, szWorkingDir := ''/'', szRenameFromPath := []\<rparr>"

section \<open>Paths of the client\<close>

definition client_path :: "client \<Rightarrow> string option \<Rightarrow> (string \<times> string) option" where
  "client_path c asked = BuildPath (map_option szStartDirectory (pUser c)) (szWorkingDir c) asked"

definition may :: "client \<Rightarrow> 8 word \<Rightarrow> bool" where
  "may c priv = CheckPrivileges (bIsLogged c) (pUser c) priv"

definition S_ISDIR :: "int \<Rightarrow> bool" where
  "S_ISDIR mode \<longleftrightarrow> mode div 4096 mod 16 = 4"

definition S_ISREG :: "int \<Rightarrow> bool" where
  "S_ISREG mode \<longleftrightarrow> mode div 4096 mod 16 = 8"

section \<open>The data connection\<close>

text \<open>
  \<open>ResetDataConnection\<close>: close the socket, cancel the transfer thread if there is one (waiting for it
  when \<open>bSyncWait\<close>), and forget the transfer.
\<close>

definition ResetDataConnection :: "bool \<Rightarrow> client \<Rightarrow> client \<times> effect list" where
  "ResetDataConnection bSyncWait c =
     (c\<lparr>eStatus := WAITING, DataSock := INVALID_SOCKET, eDataConnection := NONE,
        CurrentTransfer := zero_transfer\<rparr>,
      if TransferThread (CurrentTransfer c) \<and> bSyncWait then [CancelThread] else [])"

text \<open>
  \<open>OpenDataConnection\<close>: for \<open>PASV\<close> wait for the client on the listening socket, for \<open>PORT\<close> open a
  socket, bind it to a random port of the range (the result of \<open>bind\<close> with the port in the byte order
  of the host is asked of \<open>bind_ok\<close>) and connect.
\<close>

definition OpenDataConnection :: "'db env \<Rightarrow> client \<Rightarrow> (bool \<times> client \<times> effect list) outcome" where
  "OpenDataConnection e c =
     (if eStatus c \<noteq> WAITING then Ret (False, c, say e ''425 You're already connected.'')
      else if eDataConnection c = NONE then Ret (False, c, say e ''503 Bad sequence of commands.'')
      else let port = (eDataConnection c = PORT);
               out = (if port then say e ''150 Opening data channel.'' else []);
               c1 = (if port then c\<lparr>DataSock := (if socket_ok e then Opened else INVALID_SOCKET)\<rparr> else c);
               failed = (\<lambda>c. let (c', out') = ResetDataConnection True c
                 in Ret (False, c', out @ say e ''425 Can't open data connection.'' @ out'))
           in if DataSock c1 = INVALID_SOCKET \<or> \<not> sockopt_ok e then failed c1
              else if \<not> port then
                (if reach_ok e then
                   (if accept_ok e
                    then Ret (True, c1\<lparr>DataSock := Connected\<rparr>, say e ''150 Connection accepted.'')
                    else failed (c1\<lparr>DataSock := INVALID_SOCKET\<rparr>))
                 else failed c1)
              else and_then (random_port (DataPortRange (config e)) (rand e 0)) (\<lambda>p.
                if bind_ok e p \<and> reach_ok e then Ret (True, c1\<lparr>DataSock := Connected\<rparr>, out)
                else failed c1))"

end
