(* ===== verification/Shell.thy ===== *)
theory Shell
  imports Session
begin

text \<open>
  The command interpreter (\<open>CClientEntry::Shell\<close>): one handler per branch of its main loop, and the
  dispatcher, which is the chain of the branches in the order of the source.
\<close>

section \<open>Session commands\<close>

definition invalid_args :: "'db env \<Rightarrow> client \<Rightarrow> 'db \<Rightarrow> 'db step" where
  "invalid_args e c db = answer e ''501 Invalid number of arguments.'' c db"

definition syntax_error :: "'db env \<Rightarrow> client \<Rightarrow> 'db \<Rightarrow> 'db step" where
  "syntax_error e c db = answer e ''501 Syntax error in arguments.'' c db"

definition cmd_QUIT :: "'db env \<Rightarrow> client \<Rightarrow> 'db \<Rightarrow> 'db step" where
  "cmd_QUIT e c db = Ret (Break, c, say e ''221 Goodbye.'' @ [OnClientEvent CLIENT_DISCONNECT None], db)"

definition cmd_USER :: "'db env \<Rightarrow> string option \<Rightarrow> client \<Rightarrow> 'db \<Rightarrow> 'db step" where
  "cmd_USER e arg c db =
     (let c1 = (if bIsLogged c then LogOut c else c) in
      case arg of
        None \<Rightarrow> invalid_args e c1 db
      | Some login \<Rightarrow>
          and_then (SearchUserFromLogin (redis e) (connect_ok e) (RedisDB (config e)) login db) (\<lambda>(u, out, db1).
            let c2 = c1\<lparr>pUser := u\<rparr> in
            if (case u of None \<Rightarrow> False | Some u \<Rightarrow> bIsEnabled u \<and> szPassword u = [])
            then (let (c3, out3) = LogIn e c2 in Ret (Continue, c3, out @ out3, db1))
            else Ret (Continue, c2, out @ say e ''331 Password required for this user.'', db1)))"

text \<open>The check of a password: the new state, the replies (without the final 530).\<close>

definition check_password :: "'db env \<Rightarrow> string option \<Rightarrow> client \<Rightarrow> client \<times> effect list" where
  "check_password e arg c = (case pUser c of
      None \<Rightarrow> (c, [])
    | Some u \<Rightarrow>
        if \<not> bIsEnabled u then (c, [])
        else if arg = Some (szPassword u) \<or> szPassword u = [] then
          (if uiMaxNumberOfClient u = 0 \<or> uiNumberOfClient u < uiMaxNumberOfClient u then LogIn e c
           else (c, say e ''421 Too many users logged in for this account.''))
        else if arg = None then (c, say e ''501 Invalid number of arguments.'')
        else (c, []))"

definition cmd_PASS :: "'db env \<Rightarrow> string option \<Rightarrow> client \<Rightarrow> 'db \<Rightarrow> 'db step" where
  "cmd_PASS e arg c db =
     (let c1 = c\<lparr>nPasswordTries := nPasswordTries c + 1\<rparr>;
          (c2, out) = (if bIsLogged c then (c1, say e ''230 User Logged In.'')
            else let (c', out') = check_password e arg c1
              in (c', (if uiCheckPassDelay (config e) \<noteq> 0 then [Sleep (uiCheckPassDelay (config e))] else []) @ out'))
      in if \<not> bIsLogged c \<and> bIsLogged c2 then Ret (Continue, c2, out @ [OnClientEvent CLIENT_AUTH None], db)
         else if uiMaxPasswordTries (config e) \<noteq> 0 \<and> nPasswordTries c2 \<ge> uiMaxPasswordTries (config e)
         then Ret (Break, c2, out @ [OnClientEvent TOO_MANY_PASS_TRIES None], db)
         else Ret (Continue, c2, out @ say e ''530 Login or password incorrect!'', db))"

definition cmd_CLNT :: "'db env \<Rightarrow> string option \<Rightarrow> client \<Rightarrow> 'db \<Rightarrow> 'db step" where
  "cmd_CLNT e arg c db = (case arg of
      None \<Rightarrow> invalid_args e c db
    | Some a \<Rightarrow> Ret (Continue, c, OnClientEvent CLIENT_SOFTWARE (Some a) # say e ''200 Ok.'', db))"

definition cmd_STRU :: "'db env \<Rightarrow> string option \<Rightarrow> client \<Rightarrow> 'db \<Rightarrow> 'db step" where
  "cmd_STRU e arg c db = (case arg of
      None \<Rightarrow> invalid_args e c db
    | Some a \<Rightarrow> if a = ''F'' then answer e ''200 STRU Command Successful.'' c db
        else answer e ''504 STRU failed. Parameter not implemented'' c db)"

definition cmd_OPTS :: "'db env \<Rightarrow> string option \<Rightarrow> client \<Rightarrow> 'db \<Rightarrow> 'db step" where
  "cmd_OPTS e arg c db = (case arg of
      None \<Rightarrow> invalid_args e c db
    | Some a \<Rightarrow> answer e ''501 Option not understood.'' c db)"

definition cmd_MODE :: "'db env \<Rightarrow> string option \<Rightarrow> client \<Rightarrow> 'db \<Rightarrow> 'db step" where
  "cmd_MODE e arg c db = (case arg of
      None \<Rightarrow> invalid_args e c db
    | Some a \<Rightarrow>
        if a = ''S'' then answer e ''200 MODE set to S.'' (c\<lparr>eDataMode := STREAM\<rparr>) db
        else if a = ''Z'' then answer e ''502 MODE Z non-implemented.'' c db
        else Ret (Continue, c, say2 e (''504 '' @ [DQUOTE] @ a @ [DQUOTE] @ '': Unsupported transfer MODE.''), db))"

definition cmd_TYPE :: "'db env \<Rightarrow> string option \<Rightarrow> client \<Rightarrow> 'db \<Rightarrow> 'db step" where
  "cmd_TYPE e arg c db = (case arg of
      None \<Rightarrow> invalid_args e c db
    | Some a \<Rightarrow>
        if char_at a 0 = CHR ''A'' then answer e ''200 ASCII transfer mode active.'' (c\<lparr>eDataType := ASCII\<rparr>) db
        else if char_at a 0 = CHR ''I''
        then answer e ''200 Binary transfer mode active.'' (c\<lparr>eDataType := BINARY\<rparr>) db
        else answer e ''550 Error - unknown binary mode.'' c db)"

definition features :: string where
  "features = ''211-Features:'' @ CRLF @ '' CLNT'' @ CRLF @ '' MDTM'' @ CRLF @ '' REST STREAM'' @ CRLF @
     '' PRET'' @ CRLF @ '' SIZE'' @ CRLF @ ''211 End''"

definition cmd_FEAT :: "'db env \<Rightarrow> client \<Rightarrow> 'db \<Rightarrow> 'db step" where
  "cmd_FEAT e c db = answer e features c db"

section \<open>Data connections: PORT, PRET, PASV\<close>

text \<open>
  One \<open>%u\<close> of \<open>sscanf\<close>: skip white space, an optional sign, digits; the value is kept in 32 bits
  (\<open>strtoul\<close> on 64 bits, clamped, negated after a minus sign).
\<close>

definition scan_u :: "string \<Rightarrow> (nat \<times> string) option" where
  "scan_u s = (let t = dropWhile isspace s;
       neg = (char_at t 0 = CHR ''-'');
       d = (if neg \<or> char_at t 0 = CHR ''+'' then drop 1 t else t);
       v = nat_of_digits (takeWhile isdigit d);
       w = (if v \<ge> 2 ^ 64 then 2 ^ 64 - 1 else if neg then (2 ^ 64 - v) mod 2 ^ 64 else v)
     in if takeWhile isdigit d = [] then None else Some (w mod 2 ^ 32, dropWhile isdigit d))"

text \<open>\<open>sscanf\<close> with \<open>n\<close> numbers separated by commas; \<open>None\<close> when not all are read.\<close>

fun scan_us :: "nat \<Rightarrow> string \<Rightarrow> nat list option" where
  "scan_us 0 s = Some []"
| "scan_us (Suc n) s = (case scan_u s of
      None \<Rightarrow> None
    | Some (v, r) \<Rightarrow>
        if n = 0 then Some [v]
        else if char_at r 0 = CHR '','' then map_option (\<lambda>vs. v # vs) (scan_us n (drop 1 r))
        else None)"

text \<open>The address with these four parts, in the byte order of the network on a little-endian host.\<close>

definition ip_of :: "nat \<Rightarrow> nat \<Rightarrow> nat \<Rightarrow> nat \<Rightarrow> int" where
  "ip_of a b c d = int (a + 256 * b + 65536 * c + 16777216 * d)"

definition cmd_PORT :: "'db env \<Rightarrow> string option \<Rightarrow> client \<Rightarrow> 'db \<Rightarrow> 'db step" where
  "cmd_PORT e arg c db =
     (if eStatus c \<noteq> WAITING then syntax_error e c db
      else case Option.bind arg (scan_us 6) of
        Some [i1, i2, i3, i4, p1, p2] \<Rightarrow>
          (if i1 \<le> 255 \<and> i2 \<le> 255 \<and> i3 \<le> 255 \<and> i4 \<le> 255 \<and> p1 \<le> 255 \<and> p2 \<le> 255 \<and>
              \<not> (i1 = 0 \<and> i2 = 0 \<and> i3 = 0 \<and> i4 = 0) \<and> \<not> (p1 = 0 \<and> p2 = 0) then
             (let (c1, out1) = (if eDataConnection c \<noteq> NONE then ResetDataConnection True c else (c, []));
                  ip = ip_of i1 i2 i3 i4
              in if \<not> bEnableFXP (config e) \<or> ip = ulClientIP c1 \<or> ulClientIP c1 = ip_of 127 0 0 1
                 then Ret (Continue, c1\<lparr>eDataConnection := PORT, ulDataIp := ip,
                     usDataPort := of_nat (p1 * 256 + p2)\<rparr>, out1 @ say e ''200 PORT command successful.'', db)
                 else Ret (Continue, c1, out1 @ say e ''501 PORT address does not match originator.'', db))
           else syntax_error e c db)
      | _ \<Rightarrow> syntax_error e c db)"

text \<open>
  \<open>%s\<close>: skip white space, then the characters up to the next. The word is stored with its NUL in a
  buffer of \<open>room\<close> bytes; a variable that \<open>sscanf\<close> does not reach stays uninitialised (\<open>None\<close>).
\<close>

definition scan_word :: "nat \<Rightarrow> string \<Rightarrow> (string option \<times> string) outcome" where
  "scan_word room s = (let t = dropWhile isspace s;
       w = takeWhile (\<lambda>x. \<not> isspace x) t
     in if w = [] then Ret (None, [])
        else if length w + 1 \<le> room then Ret (Some w, dropWhile (\<lambda>x. \<not> isspace x) t)
        else Crash OutOfBounds)"

definition pret_command :: "string \<Rightarrow> command" where
  "pret_command scmd = (if scmd = ''RETR'' then CMD_RETR else if scmd = ''APPE'' then CMD_APPE
     else if scmd = ''STOR'' then CMD_STOR else CMD_NONE)"

definition cmd_PRET :: "'db env \<Rightarrow> string option \<Rightarrow> client \<Rightarrow> 'db \<Rightarrow> 'db step" where
  "cmd_PRET e arg c db = (case arg of
      None \<Rightarrow> invalid_args e c db
    | Some a \<Rightarrow>
        and_then (scan_word (4 + cmd_slack e) a) (\<lambda>(cmd, rest).
        and_then (if cmd = None then Ret (None, []) else scan_word (MAX_PATH + 1) rest) (\<lambda>(file, _).
          case cmd of
            None \<Rightarrow> Crash Uninitialised
          | Some scmd \<Rightarrow>
              let c1 = c\<lparr>nPRET_CMD := pret_command scmd\<rparr>;
                  missing = answer e ''550 No such file or directory.''
              in if nPRET_CMD c1 = CMD_RETR \<or> nPRET_CMD c1 = CMD_APPE then
                   (case file of
                      None \<Rightarrow> Crash Uninitialised
                    | Some f \<Rightarrow> (case client_path c1 (Some f) of
                          None \<Rightarrow> missing c1 db
                        | Some (p, _) \<Rightarrow>
                            and_then (vfs_stat (redis e) p db) (\<lambda>(st, db1).
                              if (case st of None \<Rightarrow> False | Some b \<Rightarrow> S_ISREG (st_mode b)) then
                                and_then (lookup_fid (redis e) p db1) (\<lambda>(fid, db2).
                                  let c2 = c1\<lparr>llPRET_fid := fid\<rparr>
                                  in if fid \<ge> 0 then answer e ''200 Command OK'' c2 db2 else missing c2 db2)
                              else missing c1 db1)))
                 else answer e ''200 Command OK'' c1 db)))"

text \<open>\<open>PASV\<close> without \<open>PRET\<close>: the meta server itself listens.\<close>

definition pasv_local :: "'db env \<Rightarrow> client \<Rightarrow> 'db \<Rightarrow> 'db step" where
  "pasv_local e c db =
     (let (c1, out1) = (if eDataConnection c \<noteq> NONE then ResetDataConnection True c else (c, []));
          c2 = c1\<lparr>DataSock := (if socket_ok e then Opened else INVALID_SOCKET)\<rparr>
      in if DataSock c2 = INVALID_SOCKET \<or> \<not> sockopt_ok e then Ret (Continue, c2, out1, db)
         else and_then (find_port (bind_ok e) (DataPortRange (config e)) (rand e 0)) (\<lambda>port.
           let c3 = c2\<lparr>usDataPort := port\<rparr> in
           if port = 0
           then Ret (Continue, c3, out1 @ say e ''451 Internal error - No more data port available.'', db)
           else if \<not> listen_ok e then Ret (Continue, c3, out1, db)
           else Ret (Continue, c3\<lparr>DataSock := Listening port, eDataConnection := PASV\<rparr>,
             out1 @ say2 e (pasv_reply (ulServerIP c3) port), db)))"

text \<open>\<open>GetRandomSlave\<close>: the index is kept in 16 bits.\<close>

definition GetRandomSlave :: "server_config \<Rightarrow> nat \<Rightarrow> slave_info outcome" where
  "GetRandomSlave s rnd = (if Slaves s = [] then Crash DivByZero
     else Ret (Slaves s ! (rnd mod length (Slaves s) mod 2 ^ 16)))"

text \<open>
  \<open>PASV\<close> after \<open>PRET\<close>: the slave that has the file, or a random one for a new file. A refused \<open>STOR\<close>
  replies 550 and still goes on.
\<close>

definition pick_slave :: "'db env \<Rightarrow> client \<Rightarrow> 'db \<Rightarrow> (slave_info \<times> effect list \<times> 'db) outcome" where
  "pick_slave e c db =
     (if nPRET_CMD c = CMD_RETR \<or> nPRET_CMD c = CMD_APPE
      then and_then (lookup_slave_info_fid (redis e) (llPRET_fid c) db) (\<lambda>(s, db1). Ret (s, [], db1))
      else if nPRET_CMD c = CMD_STOR \<and> Slaves (config e) \<noteq> []
      then and_then (GetRandomSlave (config e) (rand e 0)) (\<lambda>s. Ret (s, [], db))
      else Ret (\<lparr>si_host = [], si_port = None\<rparr>,
        if nPRET_CMD c = CMD_STOR then say e ''550 Can't store file.'' else [], db))"

definition pasv_slave :: "'db env \<Rightarrow> client \<Rightarrow> 'db \<Rightarrow> 'db step" where
  "pasv_slave e c db =
     and_then (pick_slave e c db)
       (\<lambda>(slave, out, db1).
     and_then (get_new_transaction_id (redis e) db1) (\<lambda>(trans_id, db2).
       let c1 = c\<lparr>llPRET_trans_id := trans_id, SlaveInfo := slave\<rparr>;
           (start, len) = GetDataPortRange (DataPortRange (config e))
       in case rpc_init_pasv e slave (inet_addr e (si_host slave)) trans_id start len of
            None \<Rightarrow> Ret (Continue, c1, out @ [OnServerEvent THRIFT_ERROR] @
              say e ''425 Can't open data connection.'', db2)
          | Some retval \<Rightarrow> Ret (Continue, c1\<lparr>eDataConnection := PASV\<rparr>, out @ say e retval, db2)))"

definition cmd_PASV :: "'db env \<Rightarrow> client \<Rightarrow> 'db \<Rightarrow> 'db step" where
  "cmd_PASV e c db =
     (if eStatus c \<noteq> WAITING then answer e ''425 You're already connected.'' c db
      else if nPRET_CMD c = CMD_NONE then pasv_local e c db
      else pasv_slave e c db)"

section \<open>Listing\<close>

text \<open>
  The options before the path of \<open>LIST\<close>, \<open>NLST\<close> and \<open>STAT\<close>: groups of letters after a dash, with
  white space between them.
\<close>

fun set_opt :: "char \<Rightarrow> DataTransfer_t \<Rightarrow> DataTransfer_t" where
  "set_opt x t = (if x = CHR ''a'' then t\<lparr>opt_a := True\<rparr> else if x = CHR ''d'' then t\<lparr>opt_d := True\<rparr>
     else if x = CHR ''F'' then t\<lparr>opt_F := True\<rparr> else if x = CHR ''l'' then t\<lparr>opt_l := True\<rparr> else t)"

function list_options :: "string \<Rightarrow> DataTransfer_t \<Rightarrow> string \<times> DataTransfer_t" where
  "list_options s t =
     (if char_at s 0 = CHR ''-'' then
        list_options (dropWhile isspace (dropWhile isalnum (drop 1 s)))
          (fold set_opt (takeWhile isalnum (drop 1 s)) t)
      else (s, t))"
  by pat_completeness auto
termination
proof (relation "measure (\<lambda>(s, t). length s)", goal_cases)
  case (2 s t)
  then have "s \<noteq> []" by (auto simp: char_at_def)
  moreover have "length (dropWhile isspace (dropWhile isalnum (drop 1 s))) \<le> length (drop 1 s)"
    by (meson le_trans length_dropWhile_le)
  ultimately show ?case by (cases s) auto
qed simp

declare list_options.simps [simp del]

definition cmd_LIST :: "'db env \<Rightarrow> command \<Rightarrow> string option \<Rightarrow> client \<Rightarrow> 'db \<Rightarrow> 'db step" where
  "cmd_LIST e nCmd arg c db =
     (if nCmd = CMD_STAT \<and> arg = None
      then answer e ''211 :: CFtpServer / Browser FTP Server:: thebrowser@gmail.com'' c db
      else if \<not> may c LIST_DIR then answer e ''550 Permission denied.'' c db
      else if eStatus c \<noteq> WAITING then answer e ''425 You're already connected.'' c db
      else let (pszArg, t) = (case arg of
                   None \<Rightarrow> (None, zero_transfer)
                 | Some a \<Rightarrow> let (a', t') = list_options a zero_transfer in (Some a', t'));
               c1 = c\<lparr>CurrentTransfer := t\<rparr>;
               missing = answer e ''550 No such file or directory.'' c1
           in case client_path c1 pszArg of
                None \<Rightarrow> missing db
              | Some (p, _) \<Rightarrow> and_then (vfs_stat (redis e) p db) (\<lambda>(st, db1). case st of
                    None \<Rightarrow> missing db1
                  | Some b \<Rightarrow>
                      let c2 = c1\<lparr>CurrentTransfer := t\<lparr>tr_st := Some b, szPath := p\<rparr>\<rparr>
                      in and_then (if nCmd = CMD_STAT then Ret (True, c2, say e ''213-Status follows:'')
                                   else OpenDataConnection e c2) (\<lambda>(opened, c3, out).
                        if \<not> opened then Ret (Continue, c3, out, db1)
                        else let c4 = c3\<lparr>eStatus := LISTING, CurrentTransfer := (CurrentTransfer c3)
                                   \<lparr>tr_cmd := nCmd,
                                    SockList := (if nCmd = CMD_STAT then Connected else DataSock c3),
                                    TransferThread := thread_ok e\<rparr>\<rparr>;
                                 out4 = out @ [OnClientEvent CLIENT_LIST (Some p)]
                             in if thread_ok e then Ret (Continue, c4, out4 @ [Spawn ListThread], db1)
                                else let (c5, out5) = ResetDataConnection True c4
                                  in Ret (Continue, c5, out4 @ out5 @ [OnServerEvent THREAD_ERROR], db1))))"

section \<open>Directories and attributes\<close>

definition cmd_CWD :: "'db env \<Rightarrow> string option \<Rightarrow> client \<Rightarrow> 'db \<Rightarrow> 'db step" where
  "cmd_CWD e arg c db = (case arg of
      None \<Rightarrow> invalid_args e c db
    | Some a \<Rightarrow> (case client_path c (Some a) of
          None \<Rightarrow> answer e ''550 No such file or directory.'' c db
        | Some (p, vp) \<Rightarrow> and_then (vfs_stat (redis e) p db) (\<lambda>(st, db1).
            if (case st of None \<Rightarrow> False | Some b \<Rightarrow> S_ISDIR (st_mode b))
            then Ret (Continue, c\<lparr>szWorkingDir := vp\<rparr>,
              say e ''250 CWD command successful.'' @ [OnClientEvent CLIENT_CHANGE_DIR (Some p)], db1)
            else answer e ''550 No such file or directory.'' c db1)))"

text \<open>\<open>gmtime\<close>: the civil date of a day counted from 1970-01-01, and the time of the day.\<close>

record tm =
  tm_year :: int
  tm_mon :: int
  tm_mday :: int
  tm_hour :: int
  tm_min :: int
  tm_sec :: int

definition gmtime :: "int \<Rightarrow> tm" where
  "gmtime t =
     (let days = t div 86400; sec = t mod 86400;
          z = days + 719468;
          era = z div 146097; doe = z mod 146097;
          yoe = (doe - doe div 1460 + doe div 36524 - doe div 146096) div 365;
          doy = doe - (365 * yoe + yoe div 4 - yoe div 100);
          mp = (5 * doy + 2) div 153;
          m = (if mp < 10 then mp + 3 else mp - 9);
          y = yoe + era * 400 + (if m \<le> 2 then 1 else 0)
      in \<lparr>tm_year = y - 1900, tm_mon = m - 1, tm_mday = doy - (153 * mp + 2) div 5 + 1,
          tm_hour = sec div 3600, tm_min = sec div 60 mod 60, tm_sec = sec mod 60\<rparr>)"

definition two :: "int \<Rightarrow> string" where
  "two i = pad_left (CHR ''0'') 2 (show_int i)"

definition mdtm_text :: "int \<Rightarrow> string" where
  "mdtm_text t = (let g = gmtime t in
     ''213 '' @ pad_left (CHR ''0'') 4 (show_int (tm_year g + 1900)) @ two (tm_mon g + 1) @ two (tm_mday g) @
     two (tm_hour g) @ two (tm_min g) @ two (tm_sec g))"

definition cmd_MDTM :: "'db env \<Rightarrow> string option \<Rightarrow> client \<Rightarrow> 'db \<Rightarrow> 'db step" where
  "cmd_MDTM e arg c db = (case arg of
      None \<Rightarrow> invalid_args e c db
    | Some a \<Rightarrow> (case client_path c (Some a) of
          None \<Rightarrow> answer e ''550 No such file or directory.'' c db
        | Some (p, _) \<Rightarrow> and_then (vfs_stat (redis e) p db) (\<lambda>(st, db1). case st of
              None \<Rightarrow> answer e ''550 No such file or directory.'' c db1
            | Some b \<Rightarrow> Ret (Continue, c, say2 e (mdtm_text (st_mtime b)), db1))))"

definition cmd_PWD :: "'db env \<Rightarrow> client \<Rightarrow> 'db \<Rightarrow> 'db step" where
  "cmd_PWD e c db = Ret (Continue, c,
     say2 e (''257 '' @ [DQUOTE] @ szWorkingDir c @ [DQUOTE] @ '' is current directory.''), db)"

definition cmd_CDUP :: "'db env \<Rightarrow> client \<Rightarrow> 'db \<Rightarrow> 'db step" where
  "cmd_CDUP e c db =
     (if length (szWorkingDir c) > MAX_PATH then Crash OutOfBounds
      else answer e ''250 CDUP command successful.''
        (c\<lparr>szWorkingDir := simplify_path (szWorkingDir c @ ''/..'')\<rparr>) db)"

definition cmd_SIZE :: "'db env \<Rightarrow> string option \<Rightarrow> client \<Rightarrow> 'db \<Rightarrow> 'db step" where
  "cmd_SIZE e arg c db = (case arg of
      None \<Rightarrow> syntax_error e c db
    | Some a \<Rightarrow> (case client_path c (Some a) of
          None \<Rightarrow> answer e ''550 No such file.'' c db
        | Some (p, _) \<Rightarrow> and_then (vfs_stat (redis e) p db) (\<lambda>(st, db1).
            case st of
              None \<Rightarrow> answer e ''550 No such file.'' c db1
            | Some b \<Rightarrow> if S_ISREG (st_mode b)
                then Ret (Continue, c, say2 e (''213 '' @ show_int (st_size b)), db1)
                else answer e ''550 No such file.'' c db1)))"

section \<open>Changing the tree\<close>

definition cmd_DELE :: "'db env \<Rightarrow> string option \<Rightarrow> client \<Rightarrow> 'db \<Rightarrow> 'db step" where
  "cmd_DELE e arg c db =
     (if \<not> may c DELETEFILE then answer e ''550 Permission denied.'' c db
      else case arg of
        None \<Rightarrow> syntax_error e c db
      | Some a \<Rightarrow> (case client_path c (Some a) of
            None \<Rightarrow> answer e ''550 No such file.'' c db
          | Some (p, _) \<Rightarrow> and_then (vfs_stat (redis e) p db) (\<lambda>(st, db1).
              if (case st of None \<Rightarrow> False | Some b \<Rightarrow> S_ISREG (st_mode b)) then
                and_then (vfs_remove (redis e) p db1) (\<lambda>(r, db2).
                  if r \<noteq> - 1 then answer e ''250 DELE command successful.'' c db2
                  else answer e ''550 Can' t Remove or Access Error.'' c db2)
              else answer e ''550 No such file.'' c db1)))"

definition cmd_RNFR :: "'db env \<Rightarrow> string option \<Rightarrow> client \<Rightarrow> 'db \<Rightarrow> 'db step" where
  "cmd_RNFR e arg c db =
     (if \<not> may c DELETEFILE then answer e ''550 Permission denied.'' c db
      else case arg of
        None \<Rightarrow> syntax_error e c db
      | Some a \<Rightarrow> (case client_path c (Some a) of
            None \<Rightarrow> answer e ''550 No such file or directory.'' c db
          | Some (p, _) \<Rightarrow> and_then (vfs_stat (redis e) p db) (\<lambda>(st, db1).
              if st \<noteq> None then
                answer e ''350 File or directory exists, ready for destination name.''
                  (c\<lparr>szRenameFromPath := p\<rparr>) db1
              else answer e ''550 No such file or directory.'' c db1)))"

text \<open>The test of \<open>szRenameFromPath\<close> is the address of an array, so it always holds.\<close>

definition cmd_RNTO :: "'db env \<Rightarrow> string option \<Rightarrow> client \<Rightarrow> 'db \<Rightarrow> 'db step" where
  "cmd_RNTO e arg c db = (case arg of
      None \<Rightarrow> syntax_error e c db
    | Some a \<Rightarrow>
        and_then (case client_path c (Some a) of
            None \<Rightarrow> Ret (- 1, db)
          | Some (p, _) \<Rightarrow> vfs_rename (redis e) (szRenameFromPath c) p db) (\<lambda>(r, db1).
          answer e (if r = 0 then ''250 Rename successful.'' else ''550 Rename failure.'')
            (c\<lparr>szRenameFromPath := []\<rparr>) db1))"

definition cmd_MKD :: "'db env \<Rightarrow> string option \<Rightarrow> client \<Rightarrow> 'db \<Rightarrow> 'db step" where
  "cmd_MKD e arg c db =
     (if \<not> may c CREATEDIR then answer e ''550 Permission denied.'' c db
      else case arg of
        None \<Rightarrow> syntax_error e c db
      | Some a \<Rightarrow> (case (client_path c (Some a), pUser c) of
            (Some (p, _), Some u) \<Rightarrow> and_then (vfs_stat (redis e) p db) (\<lambda>(st, db1).
              if st = None then
                and_then (vfs_mkdir (redis e) (now e) p 511 (uid u) (gid u) db1) (\<lambda>(r, db2).
                  if r < 0 then answer e ''550 MKD Error Creating DIR.'' c db2
                  else answer e ''250 MKD command successful.'' c db2)
              else answer e ''550 File Already Exists.'' c db1)
          | _ \<Rightarrow> answer e ''550 File Already Exists.'' c db))"

definition cmd_RMD :: "'db env \<Rightarrow> string option \<Rightarrow> client \<Rightarrow> 'db \<Rightarrow> 'db step" where
  "cmd_RMD e arg c db =
     (if \<not> may c DELETEDIR then answer e ''550 Permission denied.'' c db
      else case arg of
        None \<Rightarrow> syntax_error e c db
      | Some a \<Rightarrow> (case client_path c (Some a) of
            None \<Rightarrow> answer e ''550 Directory not found.'' c db
          | Some (p, _) \<Rightarrow> and_then (vfs_stat (redis e) p db) (\<lambda>(st, db1).
              if st \<noteq> None then
                and_then (vfs_rmdir (redis e) p db1) (\<lambda>(r, db2).
                  if r < 0 then answer e ''450 Internal error deleting the directory.'' c db2
                  else answer e ''250 Directory deleted successfully.'' c db2)
              else answer e ''550 Directory not found.'' c db1)))"

section \<open>Transfers\<close>

definition cmd_ABOR :: "'db env \<Rightarrow> client \<Rightarrow> 'db \<Rightarrow> 'db step" where
  "cmd_ABOR e c db =
     (let (c1, out1) = (if eStatus c \<noteq> WAITING then
            (let (c', out') = ResetDataConnection True c
             in (c', out' @ say e ''426 Previous command has been finished abnormally.'')) else (c, []))
      in Ret (Continue, c1, out1 @ say e ''226 ABOR command successful.'', db))"

definition cmd_REST :: "'db env \<Rightarrow> string option \<Rightarrow> client \<Rightarrow> 'db \<Rightarrow> 'db step" where
  "cmd_REST e arg c db = (case arg of
      None \<Rightarrow> syntax_error e c db
    | Some a \<Rightarrow> if eStatus c = WAITING
        then answer e ''350 REST command successful.''
          (c\<lparr>CurrentTransfer := (CurrentTransfer c)\<lparr>RestartAt := atoi a\<rparr>\<rparr>) db
        else syntax_error e c db)"

text \<open>
  With a \<open>PASV\<close> connection the slave is told to accept the client; \<open>None\<close> is the exception, after
  which the command ends.
\<close>

definition open_pasv :: "'db env \<Rightarrow> client \<Rightarrow> effect list option" where
  "open_pasv e c =
     (if eDataConnection c = PASV
      then map_option (say e) (rpc_open_pasv e (SlaveInfo c) (llPRET_trans_id c))
      else Some [])"

definition pasv_failed :: "'db env \<Rightarrow> client \<Rightarrow> effect list \<Rightarrow> 'db \<Rightarrow> 'db step" where
  "pasv_failed e c out db = Ret (Continue, c,
     out @ [OnServerEvent THRIFT_ERROR] @ say e ''425 Can't open data connection.'', db)"

text \<open>Start the thread of an upload or a download of path \<open>p\<close>.\<close>

definition start_transfer :: "'db env \<Rightarrow> transfer_kind \<Rightarrow> event \<Rightarrow> Status_t \<Rightarrow> string \<Rightarrow> effect list \<Rightarrow>
    client \<Rightarrow> 'db \<Rightarrow> 'db step" where
  "start_transfer e kind ev status p out c db =
     (let c1 = c\<lparr>eStatus := status, CurrentTransfer := (CurrentTransfer c)\<lparr>szPath := p\<rparr>\<rparr>;
          out1 = out @ [OnClientEvent ev (Some p)]
      in if thread_ok e
         then Ret (Continue, c1\<lparr>CurrentTransfer := (CurrentTransfer c1)\<lparr>TransferThread := True\<rparr>\<rparr>,
           out1 @ [Spawn kind], db)
         else let (c2, out2) = ResetDataConnection True c1
           in Ret (Continue, c2, out1 @ out2 @ [OnServerEvent THREAD_ERROR], db))"

definition cmd_RETR :: "'db env \<Rightarrow> string option \<Rightarrow> client \<Rightarrow> 'db \<Rightarrow> 'db step" where
  "cmd_RETR e arg c db =
     (if \<not> may c READFILE then answer e ''550 Permission denied.'' c db
      else case arg of
        None \<Rightarrow> syntax_error e c db
      | Some a \<Rightarrow> (case client_path c (Some a) of
            None \<Rightarrow> answer e ''550 File not found.'' c db
          | Some (p, _) \<Rightarrow> and_then (vfs_stat (redis e) p db) (\<lambda>(st, db1).
              if (case st of None \<Rightarrow> False | Some b \<Rightarrow> S_ISREG (st_mode b)) then
                (case open_pasv e c of
                   None \<Rightarrow> pasv_failed e c [] db1
                 | Some out \<Rightarrow> start_transfer e RetrieveThread CLIENT_DOWNLOAD DOWNLOADING p out c db1)
              else answer e ''550 File not found.'' c db1)))"

text \<open>
  The path of an upload: for \<open>STOU\<close> a random name, announced when it is free and dropped (without any
  reply) when it is taken.
\<close>

definition store_path :: "'db env \<Rightarrow> command \<Rightarrow> string option \<Rightarrow> client \<Rightarrow> 'db \<Rightarrow>
    (string option \<times> effect list \<times> 'db) outcome" where
  "store_path e nCmd arg c db =
     (if nCmd = CMD_STOU then
        (let name = ''file.'' @ show_nat (rand e 0 mod 9999999) in
         case client_path c (Some name) of
           None \<Rightarrow> Ret (None, [], db)
         | Some (p, _) \<Rightarrow> and_then (vfs_stat (redis e) p db) (\<lambda>(st, db1).
             if st \<noteq> None then Ret (None, [], db1)
             else Ret (Some p, say2 e (''150 FILE: '' @ name), db1)))
      else Ret (map_option fst (client_path c arg), [], db))"

definition cmd_STOR :: "'db env \<Rightarrow> command \<Rightarrow> string option \<Rightarrow> client \<Rightarrow> 'db \<Rightarrow> 'db step" where
  "cmd_STOR e nCmd arg c db =
     (if \<not> may c WRITEFILE then answer e ''550 Permission denied.'' c db
      else if arg = None \<and> nCmd \<noteq> CMD_STOU then syntax_error e c db
      else and_then (store_path e nCmd arg c db) (\<lambda>(path, out, db1). case path of
          None \<Rightarrow> Ret (Continue, c, out, db1)
        | Some p \<Rightarrow> (case open_pasv e c of
              None \<Rightarrow> pasv_failed e c out db1
            | Some out' \<Rightarrow>
                and_then (if nCmd = CMD_APPE then
                    and_then (vfs_stat (redis e) p db1) (\<lambda>(st, db2). Ret (c\<lparr>CurrentTransfer :=
                      (CurrentTransfer c)\<lparr>RestartAt := (case st of None \<Rightarrow> 0 | Some b \<Rightarrow> to_int (st_size b))\<rparr>\<rparr>, db2))
                  else Ret (c, db1))
                (\<lambda>(c1, db2). start_transfer e StoreThread CLIENT_UPLOAD UPLOADING p (out @ out') c1 db2))))"

section \<open>The dispatcher\<close>

definition shell_step :: "'db env \<Rightarrow> command \<Rightarrow> string option \<Rightarrow> client \<Rightarrow> 'db \<Rightarrow> 'db step" where
  "shell_step e nCmd arg c db =
     (if nCmd = CMD_NONE then answer e ''500 Command not understood.'' c db
      else if nCmd = CMD_QUIT then cmd_QUIT e c db
      else if nCmd = CMD_USER then cmd_USER e arg c db
      else if nCmd = CMD_PASS then cmd_PASS e arg c db
      else if \<not> bIsLogged c then answer e ''530 Please login with USER and PASS.'' c db
      else if nCmd = CMD_NOOP \<or> nCmd = CMD_ALLO then answer e ''200 NOOP Command Successful.'' c db
      else if nCmd = CMD_HELP then answer e ''500 No Help Available.'' c db
      else if nCmd = CMD_SYST then answer e ''215 UNIX Type: L8'' c db
      else if nCmd = CMD_CLNT then cmd_CLNT e arg c db
      else if nCmd = CMD_STRU then cmd_STRU e arg c db
      else if nCmd = CMD_OPTS then cmd_OPTS e arg c db
      else if nCmd = CMD_MODE then cmd_MODE e arg c db
      else if nCmd = CMD_TYPE then cmd_TYPE e arg c db
      else if nCmd = CMD_FEAT then cmd_FEAT e c db
      else if nCmd = CMD_PORT then cmd_PORT e arg c db
      else if nCmd = CMD_PRET then cmd_PRET e arg c db
      else if nCmd = CMD_PASV then cmd_PASV e c db
      else if nCmd = CMD_LIST \<or> nCmd = CMD_NLST \<or> nCmd = CMD_STAT then cmd_LIST e nCmd arg c db
      else if nCmd = CMD_CWD \<or> nCmd = CMD_XCWD then cmd_CWD e arg c db
      else if nCmd = CMD_MDTM then cmd_MDTM e arg c db
      else if nCmd = CMD_PWD \<or> nCmd = CMD_XPWD then cmd_PWD e c db
      else if nCmd = CMD_CDUP \<or> nCmd = CMD_XCUP then cmd_CDUP e c db
      else if nCmd = CMD_ABOR then cmd_ABOR e c db
      else if nCmd = CMD_REST then cmd_REST e arg c db
      else if nCmd = CMD_RETR then cmd_RETR e arg c db
      else if nCmd = CMD_STOR \<or> nCmd = CMD_APPE \<or> nCmd = CMD_STOU then cmd_STOR e nCmd arg c db
      else if nCmd = CMD_SIZE then cmd_SIZE e arg c db
      else if nCmd = CMD_DELE then cmd_DELE e arg c db
      else if nCmd = CMD_RNFR then cmd_RNFR e arg c db
      else if nCmd = CMD_RNTO then cmd_RNTO e arg c db
      else if nCmd = CMD_MKD \<or> nCmd = CMD_XMKD then cmd_MKD e arg c db
      else if nCmd = CMD_RMD \<or> nCmd = CMD_XRMD then cmd_RMD e arg c db
      else answer e ''500 Command not understood.'' c db)"

text \<open>One round of the main loop on a line that was read.\<close>

definition run_line :: "'db env \<Rightarrow> string \<Rightarrow> client \<Rightarrow> 'db \<Rightarrow> 'db step" where
  "run_line e line c db = (let (nCmd, arg) = ParseLine line in shell_step e nCmd arg c db)"

text \<open>
  The main loop on the lines of a session, one environment per line (more lines than environments end
  the run: the client has gone), and what the thread does before and after it.
\<close>

fun main_loop :: "('db env \<times> string) list \<Rightarrow> client \<Rightarrow> 'db \<Rightarrow> (client \<times> effect list \<times> 'db) outcome" where
  "main_loop [] c db = Ret (c, [], db)"
| "main_loop ((e, line) # ls) c db = and_then (run_line e line c db) (\<lambda>(fl, c1, out, db1).
     if fl = Break then Ret (c1, out, db1)
     else and_then (main_loop ls c1 db1) (\<lambda>(c2, out2, db2). Ret (c2, out @ out2, db2)))"

definition shell_start :: "'db env \<Rightarrow> client \<Rightarrow> client \<times> effect list" where
  "shell_start e c = (ResetTimeout e (c\<lparr>bIsCtrlCanalOpen := True, eStatus := WAITING\<rparr>),
     say e ''220 Browser Ftp Server.'')"

text \<open>The client object is deleted (\<open>None\<close>) unless a transfer is running, which then deletes it.\<close>

definition shell_exit :: "client \<Rightarrow> client option" where
  "shell_exit c = (let c1 = c\<lparr>CtrlSock := False\<rparr>
     in if eStatus c1 = WAITING then None else Some (c1\<lparr>bIsCtrlCanalOpen := False\<rparr>))"

end
