(* ===== verification/SlaveService.thy ===== *)
theory SlaveService
  imports RedisVfs DataPorts
begin

text \<open>
  A slave (\<open>slave_servicesHandler\<close>): it keeps the contents of the files, one file of the operating
  system per file id, and the data connections of the running transfers by transaction id. The meta
  server calls its six operations over Thrift. The answers of the operating system during one call
  are in the record \<open>slave_os\<close>.
\<close>

section \<open>Parameters and results of the calls\<close>

record PasvParams =
  p_server_ip :: int
  p_server_port :: int
  p_fid :: int
  p_restart_at :: int
  p_transfer_buffer_size :: int
  p_trans_id :: int

text \<open>\<open>ActiveParams\<close> has the fields of \<open>PasvParams\<close> and the address of the client.\<close>

record ActiveParams = PasvParams +
  p_client_ip :: int
  p_client_port :: int

record StorRetVal =
  rv_msg :: string
  rv_size :: int

section \<open>State\<close>

abbreviation INVALID_SOCK :: int where "INVALID_SOCK \<equiv> - 1"

record slave_state =
  mDataSock :: "int \<rightharpoonup> int"
  files :: "string \<rightharpoonup> string"

text \<open>\<open>(*mDataSock)[trans_id]\<close>: a missing key is inserted with the value 0.\<close>

definition data_sock :: "slave_state \<Rightarrow> int \<Rightarrow> int" where
  "data_sock st t = (case mDataSock st t of None \<Rightarrow> 0 | Some s \<Rightarrow> s)"

definition set_sock :: "int \<Rightarrow> int \<Rightarrow> slave_state \<Rightarrow> slave_state" where
  "set_sock t s st = st\<lparr>mDataSock := (mDataSock st)(t \<mapsto> s)\<rparr>"

text \<open>
  What the peer of a data connection does, one event per call of \<open>select\<close> and \<open>recv\<close>: bytes (no
  bytes is an orderly shutdown, and so is the end of the list), or a failure of either call.
\<close>

datatype recv_event = Bytes string | SelectFails | RecvFails

text \<open>
  The operating system. \<open>os_read\<close>, \<open>os_write\<close> and \<open>os_send\<close> list the results of the successive calls,
  negative for an error and otherwise a limit on the bytes taken; after the list every call succeeds
  in full.
\<close>

record slave_os =
  DataRootPath :: string
  os_socket :: int
  os_accept :: int
  os_sockopt :: bool
  os_bind :: "16 word \<Rightarrow> bool"
  os_listen :: bool
  os_ready :: bool
  os_connect :: bool
  os_rand :: nat
  os_open :: bool
  os_lseek :: bool
  os_stat :: bool
  os_read :: "int list"
  os_write :: "int list"
  os_send :: "int list"
  os_recv :: "recv_event list"

text \<open>What a call does on the network, in order.\<close>

datatype sock_effect =
    Bind int "16 word"
  | Connect int "16 word"
  | Send int string
  | CloseSocket int

definition sent :: "sock_effect list \<Rightarrow> string" where
  "sent es = concat (map (\<lambda>x. case x of Send _ s \<Rightarrow> s | _ \<Rightarrow> []) es)"

definition closed :: "sock_effect list \<Rightarrow> int list" where
  "closed es = concat (map (\<lambda>x. case x of CloseSocket s \<Rightarrow> [s] | _ \<Rightarrow> []) es)"

lemma sent_simps [simp]:
  "sent [] = []" "sent (Send i s # es) = s @ sent es" "sent (CloseSocket i # es) = sent es"
  "sent (Bind i p # es) = sent es" "sent (Connect i p # es) = sent es" "sent (es @ fs) = sent es @ sent fs"
  by (simp_all add: sent_def)

lemma closed_simps [simp]:
  "closed [] = []" "closed (Send i s # es) = closed es" "closed (CloseSocket i # es) = i # closed es"
  "closed (Bind i p # es) = closed es" "closed (Connect i p # es) = closed es"
  "closed (es @ fs) = closed es @ closed fs"
  by (simp_all add: closed_def)

section \<open>Files\<close>

record open_file =
  contents :: string
  offset :: nat
  appending :: bool

definition O_WRONLY :: int where "O_WRONLY = 1"
definition O_CREAT :: int where "O_CREAT = 64"
definition O_TRUNC :: int where "O_TRUNC = 512"
definition O_APPEND :: int where "O_APPEND = 1024"

definition has_flag :: "int \<Rightarrow> int \<Rightarrow> bool" where
  "has_flag flags f \<longleftrightarrow> flags div f mod 2 = 1"

text \<open>\<open>open\<close> for writing: \<open>None\<close> when it fails.\<close>

definition os_open_write :: "slave_os \<Rightarrow> int \<Rightarrow> string option \<Rightarrow> open_file option" where
  "os_open_write os flags old =
     (if os_open os \<and> (old \<noteq> None \<or> has_flag flags O_CREAT)
      then Some \<lparr>contents = (if has_flag flags O_TRUNC then [] else case old of None \<Rightarrow> [] | Some c \<Rightarrow> c),
                 offset = 0, appending = has_flag flags O_APPEND\<rparr>
      else None)"

text \<open>\<open>write\<close>: at the end of the file in append mode; a gap before the offset is filled with zeros.\<close>

definition file_write :: "open_file \<Rightarrow> string \<Rightarrow> open_file" where
  "file_write f b =
     (if b = [] then f
      else let c = contents f; i = (if appending f then length c else offset f)
           in f\<lparr>contents := take i (c @ replicate (i - length c) NUL) @ b @ drop (i + length b) c,
                offset := i + length b\<rparr>)"

text \<open>\<open>SafeWrite\<close>, with the results of the calls of \<open>write\<close> that are left.\<close>

fun SafeWrite :: "int list \<Rightarrow> open_file \<Rightarrow> string \<Rightarrow> bool \<times> open_file \<times> int list" where
  "SafeWrite [] f b = (True, file_write f b, [])"
| "SafeWrite (k # ks) f b =
     (if b = [] then (True, f, k # ks)
      else if k < 0 then (False, f, ks)
      else SafeWrite ks (file_write f (take (nat k) b)) (drop (nat k) b))"

section \<open>Closing a data connection\<close>

definition ResetSlaveConnection :: "int \<Rightarrow> slave_state \<Rightarrow> slave_state \<times> sock_effect list" where
  "ResetSlaveConnection t st =
     (if data_sock st t \<noteq> INVALID_SOCK
      then (set_sock t INVALID_SOCK st, [CloseSocket (data_sock st t)]) else (st, []))"

section \<open>Receiving a file\<close>

text \<open>A measure for the loop: one for each event and for each byte that waits.\<close>

definition event_weight :: "recv_event \<Rightarrow> nat" where
  "event_weight x = Suc (case x of Bytes s \<Rightarrow> length s | _ \<Rightarrow> 0)"

text \<open>
  The loop of \<open>Store\<close>: \<open>b\<close> is what is in the buffer of \<open>cap\<close> bytes. The result is \<open>len\<close> at the end of
  the loop, and the file. When the peer shuts the connection down the buffer is written and the
  result of \<open>SafeWrite\<close> is not looked at.
\<close>

function store_loop :: "nat \<Rightarrow> recv_event list \<Rightarrow> int list \<Rightarrow> string \<Rightarrow> open_file \<Rightarrow> int \<times> open_file" where
  "store_loop cap [] ks b f = (0, fst (snd (SafeWrite ks f b)))"
| "store_loop cap (SelectFails # evs) ks b f = (- 1, f)"
| "store_loop cap (RecvFails # evs) ks b f = (- 1, f)"
| "store_loop cap (Bytes s # evs) ks b f =
     (let got = take (cap - length b) s; rest = drop (cap - length b) s;
          evs' = (if rest = [] then evs else Bytes rest # evs); b' = b @ got
      in if got = [] then (0, fst (snd (SafeWrite ks f b)))
         else if length b' = cap then
           (case SafeWrite ks f b' of (ok, f', ks') \<Rightarrow>
              if ok then store_loop cap evs' ks' [] f' else (- 1, f'))
         else store_loop cap evs' ks b' f)"
  by pat_completeness auto

termination
proof (relation "measure (\<lambda>(cap, evs, ks, b, f). sum_list (map event_weight evs))", goal_cases)
  case 1 show ?case by simp
qed (auto simp: event_weight_def split: if_splits)

definition file_path :: "slave_os \<Rightarrow> int \<Rightarrow> string" where
  "file_path os fid = DataRootPath os @ ''/'' @ show_int fid"

definition Store :: "slave_os \<Rightarrow> int \<Rightarrow> int \<Rightarrow> int \<Rightarrow> int \<Rightarrow> int \<Rightarrow> slave_state \<Rightarrow>
    StorRetVal \<times> sock_effect list \<times> slave_state" where
  "Store os transfer_buffer_size fid restart_at iflags trans_id st =
     (let file = file_path os fid;
          (failed, len, st1) = (case os_open_write os iflags (files st file) of
              None \<Rightarrow> (True, 0, st)
            | Some f \<Rightarrow>
                let (len, f') =
                  (if (restart_at > 0 \<and> os_lseek os \<or> restart_at = 0) \<and> data_sock st trans_id \<noteq> INVALID_SOCK
                   then store_loop (nat (to_unsigned transfer_buffer_size)) (os_recv os) (os_write os) []
                          (f\<lparr>offset := nat restart_at\<rparr>)
                   else (0, f))
                in (False, len, st\<lparr>files := (files st)(file \<mapsto> contents f')\<rparr>));
          (st2, out) = ResetSlaveConnection trans_id st1
      in (\<lparr>rv_msg = (if len < 0 \<or> failed then ''550 Can't store file.'' else ''226 Transfer complete.''),
           rv_size = (if os_stat os then case files st2 file of None \<Rightarrow> - 1 | Some c \<Rightarrow> int (length c) else - 1)\<rparr>,
          out, st2))"

section \<open>Sending a file\<close>

text \<open>
  The loop of \<open>Retrieve\<close>: read a block, send it, until there is nothing to read or \<open>send\<close> returns 0 or
  less. The result is \<open>len\<close> at the end of the loop.
\<close>

definition os_count :: "int list \<Rightarrow> nat \<Rightarrow> int \<times> int list" where
  "os_count ks n = (case ks of [] \<Rightarrow> (int n, []) | k # ks' \<Rightarrow> (min k (int n), ks'))"

function retrieve_loop :: "nat \<Rightarrow> int \<Rightarrow> int list \<Rightarrow> int list \<Rightarrow> int \<Rightarrow> string \<Rightarrow> int \<times> sock_effect list" where
  "retrieve_loop cap sock rs ss len c =
     (let (BlockSize, rs') = os_count rs (min cap (length c)) in
      if BlockSize \<le> 0 then (len, [])
      else let block = take (nat BlockSize) c; (len', ss') = os_count ss (length block);
               out = Send sock (take (nat len') block)
           in if len' \<le> 0 then (len', [])
              else (case retrieve_loop cap sock rs' ss' len' (drop (nat BlockSize) c) of
                  (l, outs) \<Rightarrow> (l, out # outs)))"
  by pat_completeness auto
termination
proof (relation "measure (\<lambda>(cap, sock, rs, ss, len, c). length c)", goal_cases)
  case (2 cap sock rs ss len c p BlockSize rs')
  then have "0 < BlockSize" "BlockSize \<le> int (min cap (length c))"
    by (auto simp: os_count_def split: list.splits)
  then show ?case by auto
qed simp

declare retrieve_loop.simps [simp del]

definition Retrieve :: "slave_os \<Rightarrow> int \<Rightarrow> int \<Rightarrow> int \<Rightarrow> int \<Rightarrow> slave_state \<Rightarrow>
    string \<times> sock_effect list \<times> slave_state" where
  "Retrieve os transfer_buffer_size fid restart_at trans_id st =
     (let (failed, len, out) = (case (if os_open os then files st (file_path os fid) else None) of
              None \<Rightarrow> (True, 0, [])
            | Some c \<Rightarrow>
                let (len, out) =
                  (if (restart_at = 0 \<or> restart_at > 0 \<and> os_lseek os) \<and> data_sock st trans_id \<noteq> INVALID_SOCK
                   then retrieve_loop (nat (to_unsigned transfer_buffer_size)) (data_sock st trans_id)
                          (os_read os) (os_send os) 0 (drop (nat restart_at) c)
                   else (0, []))
                in (False, len, out));
          (st1, out1) = ResetSlaveConnection trans_id st
      in (if len < 0 \<or> failed then ''550 Can't retrieve File.'' else ''226 Transfer complete.'', out @ out1, st1))"

section \<open>Opening the data connection\<close>

text \<open>
  \<open>OpenActiveDataConnection\<close>: the port to bind is stored in \<open>sin_port\<close> without \<open>htons\<close>; \<open>os_bind\<close> is
  asked with the 16 bits the field holds.
\<close>

definition OpenActiveDataConnection :: "slave_os \<Rightarrow> ActiveParams \<Rightarrow> slave_state \<Rightarrow>
    bool \<times> sock_effect list \<times> slave_state" where
  "OpenActiveDataConnection os p st =
     (let t = p_trans_id p; st1 = set_sock t (os_socket os) st; s = os_socket os;
          port = word_of_int (p_server_port p);
          bound = (s \<noteq> INVALID_SOCK \<and> os_sockopt os \<and> os_bind os port);
          out = (if bound then [Bind s port] else [])
      in if bound \<and> os_connect os then (True, out @ [Connect s (word_of_int (p_client_port p))], st1)
         else let (st2, out2) = ResetSlaveConnection t st1 in (False, out @ out2, st2))"

text \<open>
  \<open>InitPasvDataConnection\<close>: the reply is formatted with \<open>sprintf\<close> into a buffer of 50 bytes.
\<close>

definition sprintf :: "nat \<Rightarrow> string \<Rightarrow> string outcome" where
  "sprintf room s = (if length s + 1 \<le> room then Ret s else Crash OutOfBounds)"

definition InitPasvDataConnection :: "slave_os \<Rightarrow> PasvParams \<Rightarrow> int \<Rightarrow> int \<Rightarrow> slave_state \<Rightarrow>
    (string \<times> sock_effect list \<times> slave_state) outcome" where
  "InitPasvDataConnection os p startPort portLen st =
     (let s = os_socket os; st1 = set_sock (p_trans_id p) s st;
          range = \<lparr>usStart = word_of_int startPort, usLen = word_of_int portLen\<rparr>
      in if s = INVALID_SOCK \<or> \<not> os_sockopt os then Ret ([], [], st1)
         else and_then (find_port (os_bind os) range (os_rand os)) (\<lambda>server_port.
           if server_port = 0 then Ret (''451 Internal error - No more data port available.'', [], st1)
           else if \<not> os_listen os then Ret (''451 Internal error - Unable to listen.'', [Bind s server_port], st1)
           else and_then (sprintf 50 (pasv_reply (p_server_ip p) server_port)) (\<lambda>r.
             Ret (r, [Bind s server_port], st1))))"

text \<open>\<open>OpenPasvDataConnection\<close>: nothing is stored in the reply when the client does not come in 10 seconds.\<close>

definition OpenPasvDataConnection :: "slave_os \<Rightarrow> PasvParams \<Rightarrow> slave_state \<Rightarrow>
    string \<times> sock_effect list \<times> slave_state" where
  "OpenPasvDataConnection os p st =
     (let t = p_trans_id p in
      if \<not> os_ready os then ([], [], st)
      else let st1 = set_sock t (os_accept os) st; out = [CloseSocket (data_sock st t)]
           in if os_accept os \<noteq> INVALID_SOCK then (''150 Connection accepted.'', out, st1)
              else let (st2, out2) = ResetSlaveConnection t st1
                in (''425 Can't open data connection.'', out @ out2, st2))"

section \<open>The four transfers\<close>

definition ActiveStoreTransfer :: "slave_os \<Rightarrow> ActiveParams \<Rightarrow> int \<Rightarrow> slave_state \<Rightarrow>
    StorRetVal \<times> sock_effect list \<times> slave_state" where
  "ActiveStoreTransfer os p iflags st =
     (case OpenActiveDataConnection os p st of (ok, out, st1) \<Rightarrow>
        if \<not> ok then (\<lparr>rv_msg = ''425 Can't open data connection.'', rv_size = - 1\<rparr>, out, st1)
        else (case Store os (p_transfer_buffer_size p) (p_fid p) (p_restart_at p) iflags (p_trans_id p) st1 of
            (r, out2, st2) \<Rightarrow> (r, out @ out2, st2)))"

definition PasvStoreTransfer :: "slave_os \<Rightarrow> PasvParams \<Rightarrow> int \<Rightarrow> slave_state \<Rightarrow>
    StorRetVal \<times> sock_effect list \<times> slave_state" where
  "PasvStoreTransfer os p iflags st =
     Store os (p_transfer_buffer_size p) (p_fid p) (p_restart_at p) iflags (p_trans_id p) st"

definition ActiveRetrieveTransfer :: "slave_os \<Rightarrow> ActiveParams \<Rightarrow> slave_state \<Rightarrow>
    string \<times> sock_effect list \<times> slave_state" where
  "ActiveRetrieveTransfer os p st =
     (case OpenActiveDataConnection os p st of (ok, out, st1) \<Rightarrow>
        if \<not> ok then (''425 Can't open data connection.'', out, st1)
        else (case Retrieve os (p_transfer_buffer_size p) (p_fid p) (p_restart_at p) (p_trans_id p) st1 of
            (r, out2, st2) \<Rightarrow> (r, out @ out2, st2)))"

definition PasvRetrieveTransfer :: "slave_os \<Rightarrow> PasvParams \<Rightarrow> slave_state \<Rightarrow>
    string \<times> sock_effect list \<times> slave_state" where
  "PasvRetrieveTransfer os p st =
     Retrieve os (p_transfer_buffer_size p) (p_fid p) (p_restart_at p) (p_trans_id p) st"

end
