(* ===== verification/Transfers.thy ===== *)
theory Transfers
  imports Shell SlaveService
begin

text \<open>
  The transfer threads of the meta server: \<open>StoreThread\<close> and \<open>RetrieveThread\<close> of \<open>CClientEntry\<close>. A
  thread looks the file up in the database, calls a slave, records what the slave says it stored, and
  gives the client object back. The slaves are a parameter: the record \<open>rpc\<close> holds the four calls,
  over the state \<open>'net\<close> of the slaves and of the data network (\<open>None\<close> is a \<open>TException\<close>).

  A thread reads the client object when it starts (\<open>c\<close>) and again when the slave has answered; by then
  the command thread may have run other commands, so the object it finds (\<open>c'\<close>) is a second argument.
\<close>

section \<open>The slaves\<close>

record 'net rpc =
  rpc_active_store :: "slave_info \<Rightarrow> ActiveParams \<Rightarrow> int \<Rightarrow> 'net \<Rightarrow> StorRetVal option \<times> 'net"
  rpc_pasv_store :: "slave_info \<Rightarrow> PasvParams \<Rightarrow> int \<Rightarrow> 'net \<Rightarrow> StorRetVal option \<times> 'net"
  rpc_active_retrieve :: "slave_info \<Rightarrow> ActiveParams \<Rightarrow> 'net \<Rightarrow> string option \<times> 'net"
  rpc_pasv_retrieve :: "slave_info \<Rightarrow> PasvParams \<Rightarrow> 'net \<Rightarrow> string option \<times> 'net"

section \<open>The end of a thread\<close>

text \<open>The client object is deleted (\<open>None\<close>) when the control connection is gone.\<close>

definition end_transfer :: "'db env \<Rightarrow> client \<Rightarrow> client option \<times> effect list" where
  "end_transfer e c =
     (let (c1, out) = ResetDataConnection False c
      in if bIsCtrlCanalOpen c1 then (Some (ResetTimeout e c1), out)
         else (None, out @ [OnClientEvent DELETE_CLIENT None]))"

type_synonym ('db, 'net) thread_end = "(client option \<times> effect list \<times> 'db \<times> 'net) outcome"

definition finish :: "'db env \<Rightarrow> client \<Rightarrow> effect list \<Rightarrow> 'db \<Rightarrow> 'net \<Rightarrow> ('db, 'net) thread_end" where
  "finish e c out db net = (case end_transfer e c of (c', out') \<Rightarrow> Ret (c', out @ out', db, net))"

section \<open>The parameters of a call\<close>

text \<open>
  \<open>inet_addr\<close> of the slave, the buffer size as a signed 32-bit integer, and a random port of the range.
\<close>

definition active_params :: "'db env \<Rightarrow> client \<Rightarrow> slave_info \<Rightarrow> int \<Rightarrow> int \<Rightarrow> nat \<Rightarrow> ActiveParams outcome" where
  "active_params e c slave fid trans_id rnd =
     and_then (random_port (DataPortRange (config e)) rnd) (\<lambda>port.
       Ret \<lparr>p_server_ip = inet_addr e (si_host slave), p_server_port = uint port, p_fid = fid,
         p_restart_at = RestartAt (CurrentTransfer c),
         p_transfer_buffer_size = to_int (int (uiTransferBufferSize (config e))), p_trans_id = trans_id,
         p_client_ip = ulClientIP c, p_client_port = uint (usDataPort c)\<rparr>)"

definition pasv_params :: "'db env \<Rightarrow> client \<Rightarrow> int \<Rightarrow> int \<Rightarrow> int \<Rightarrow> PasvParams" where
  "pasv_params e c ip port fid =
     \<lparr>p_server_ip = ip, p_server_port = port, p_fid = fid, p_restart_at = RestartAt (CurrentTransfer c),
      p_transfer_buffer_size = to_int (int (uiTransferBufferSize (config e))), p_trans_id = llPRET_trans_id c\<rparr>"

section \<open>Uploads\<close>

definition store_flags :: "int \<Rightarrow> int" where
  "store_flags restart = O_WRONLY OR O_CREAT OR (if restart > 0 then O_APPEND else O_TRUNC)"

text \<open>What the slave stored is recorded for the user and the path the client object has now.\<close>

definition record_file :: "'db env \<Rightarrow> client \<Rightarrow> slave_info \<Rightarrow> int \<Rightarrow> StorRetVal \<Rightarrow> 'db \<Rightarrow> 'db outcome" where
  "record_file e c slave fid retval db =
     (if rv_size retval \<ge> 0 then (case pUser c of
          None \<Rightarrow> Crash NullPointer
        | Some u \<Rightarrow> and_then (save_new_file (redis e) (now e) (szPath (CurrentTransfer c)) 511 (rv_size retval)
            (uid u) (gid u) fid slave db) (\<lambda>(_, db'). Ret db'))
      else Ret db)"

text \<open>
  The answer of the slave: an exception is logged and answered 550; otherwise the file is recorded and
  the message of the slave is the reply.
\<close>

definition stored :: "'db env \<Rightarrow> client \<Rightarrow> slave_info \<Rightarrow> int \<Rightarrow> effect list \<Rightarrow> 'db \<Rightarrow>
    StorRetVal option \<times> 'net \<Rightarrow> ('db, 'net) thread_end" where
  "stored e c slave fid out db ans = (case ans of
      (None, net) \<Rightarrow>
        finish e c (out @ [OnServerEvent THRIFT_ERROR] @ say e ''550 Can't store file.'') db net
    | (Some retval, net) \<Rightarrow> and_then (record_file e c slave fid retval db) (\<lambda>db'.
        finish e c (out @ say e (rv_msg retval)) db' net))"

text \<open>
  Without slaves, and without a data connection, the message is still that of the constructor: an
  empty line is sent.
\<close>

definition run_StoreThread :: "'db env \<Rightarrow> 'net rpc \<Rightarrow> client \<Rightarrow> client \<Rightarrow> 'db \<Rightarrow> 'net \<Rightarrow> ('db, 'net) thread_end" where
  "run_StoreThread e rpc c c' db net =
     (let iflags = store_flags (RestartAt (CurrentTransfer c)) in
      and_then (get_new_fid (redis e) db) (\<lambda>(fid, db1).
        if eDataConnection c = PORT then
          (if Slaves (config e) \<noteq> [] then
             and_then (GetRandomSlave (config e) (rand e 0)) (\<lambda>slave.
             and_then (get_new_transaction_id (redis e) db1) (\<lambda>(trans_id, db2).
             and_then (active_params e c slave fid trans_id (rand e 1)) (\<lambda>p.
               stored e c' slave fid (say e ''150 Opening data channel.'') db2
                 (rpc_active_store rpc slave p iflags net))))
           else finish e c' (say e ''550 Can't store file.'' @ say e []) db1 net)
        else if eDataConnection c = PASV then
          (if nPRET_CMD c \<noteq> CMD_STOR \<and> nPRET_CMD c \<noteq> CMD_APPE
           then finish e c' (say e ''503 Bad sequence of commands STOR'') db1 net
           else stored e c' (SlaveInfo c) fid [] db1
                  (rpc_pasv_store rpc (SlaveInfo c) (pasv_params e c 0 0 fid) iflags net))
        else finish e c' (say e []) db1 net))"

section \<open>Downloads\<close>

definition retrieved :: "'db env \<Rightarrow> client \<Rightarrow> effect list \<Rightarrow> 'db \<Rightarrow> string option \<times> 'net \<Rightarrow> ('db, 'net) thread_end" where
  "retrieved e c out db ans = (case ans of
      (None, net) \<Rightarrow>
        finish e c (out @ [OnServerEvent THRIFT_ERROR] @ say e ''550 Can't retrieve File.'') db net
    | (Some retval, net) \<Rightarrow> finish e c (out @ say e retval) db net)"

definition run_RetrieveThread :: "'db env \<Rightarrow> 'net rpc \<Rightarrow> client \<Rightarrow> client \<Rightarrow> 'db \<Rightarrow> 'net \<Rightarrow> ('db, 'net) thread_end" where
  "run_RetrieveThread e rpc c c' db net =
     (let path = szPath (CurrentTransfer c) in
      and_then (lookup_fid (redis e) path db) (\<lambda>(fid, db1).
        if eDataConnection c = PORT then
          (if Slaves (config e) \<noteq> [] \<and> fid \<ge> 0 then
             and_then (lookup_slave_info (redis e) path db1) (\<lambda>(slave, db2).
             and_then (get_new_transaction_id (redis e) db2) (\<lambda>(trans_id, db3).
             and_then (active_params e c slave fid trans_id (rand e 0)) (\<lambda>p.
               retrieved e c' (say e ''150 Opening data channel.'') db3
                 (rpc_active_retrieve rpc slave p net))))
           else finish e c' (say e []) db1 net)
        else if eDataConnection c = PASV then
          (if nPRET_CMD c \<noteq> CMD_RETR \<or> llPRET_fid c \<noteq> fid
           then finish e c' (say e ''503 Bad sequence of commands'') db1 net
           else retrieved e c' [] db1 (rpc_pasv_retrieve rpc (SlaveInfo c)
                  (pasv_params e c (inet_addr e (si_host (SlaveInfo c))) (uint (usDataPort c)) fid) net))
        else finish e c' (say e []) db1 net))"

end
