(* ===== verification/SlaveProps.thy ===== *)
theory SlaveProps
  imports SlaveService
begin

text \<open>
  The lemmas on a slave: what reaches a file whatever the network and the disk do, what reaches the
  client, and which connections are closed; then its properties.
\<close>

section \<open>Writing\<close>

text \<open>A file that is written at its end: the mode is append, or the offset is the length.\<close>

definition at_end :: "open_file \<Rightarrow> bool" where
  "at_end f \<longleftrightarrow> appending f \<or> offset f = length (contents f)"

lemma file_write_at_end:
  "at_end f \<Longrightarrow> at_end (file_write f b) \<and> contents (file_write f b) = contents f @ b"
  by (auto simp: at_end_def file_write_def Let_def)

lemma SafeWrite_prefix:
  "at_end f \<Longrightarrow> SafeWrite ks f b = (ok, f', ks') \<Longrightarrow>
     at_end f' \<and> (\<exists>n. contents f' = contents f @ take n b) \<and> (ok \<longrightarrow> contents f' = contents f @ b)"
proof (induction ks f b rule: SafeWrite.induct)
  case (1 f b)
  then show ?case using file_write_at_end[of f b] by (auto intro: exI[of _ "length b"])
next
  case (2 k ks f b)
  show ?case
  proof (cases "b = [] \<or> k < 0")
    case True
    then show ?thesis using 2(2,3) by (auto intro: exI[of _ 0] split: if_splits)
  next
    case False
    let ?g = "file_write f (take (nat k) b)"
    have g: "at_end ?g" "contents ?g = contents f @ take (nat k) b" using file_write_at_end 2(2) by auto
    have "SafeWrite ks ?g (drop (nat k) b) = (ok, f', ks')" using 2(3) False by simp
    from 2(1)[OF _ _ g(1) this] False
    have ih: "at_end f'" "ok \<Longrightarrow> contents f' = contents ?g @ drop (nat k) b"
      and "\<exists>n. contents f' = contents ?g @ take n (drop (nat k) b)" by auto
    then obtain n where "contents f' = contents ?g @ take n (drop (nat k) b)" by auto
    then have "contents f' = contents f @ take (nat k + n) b" by (simp add: g take_add)
    with ih show ?thesis by (auto simp: g)
  qed
qed

lemma SafeWrite_total:
  "\<forall>k\<in>set ks. 0 \<le> k \<Longrightarrow> SafeWrite ks f b = (ok, f', ks') \<Longrightarrow> ok \<and> set ks' \<subseteq> set ks"
  by (induction ks f b rule: SafeWrite.induct) (auto split: if_splits)

lemma SafeWrite_at_end:
  assumes "at_end f"
  shows "at_end (fst (snd (SafeWrite ks f b)))"
    and "\<exists>n. contents (fst (snd (SafeWrite ks f b))) = contents f @ take n b"
    and "\<forall>k\<in>set ks. 0 \<le> k \<Longrightarrow> contents (fst (snd (SafeWrite ks f b))) = contents f @ b"
proof -
  obtain ok f' ks' where s: "SafeWrite ks f b = (ok, f', ks')" by (metis prod_cases3)
  show "at_end (fst (snd (SafeWrite ks f b)))"
    and "\<exists>n. contents (fst (snd (SafeWrite ks f b))) = contents f @ take n b"
    using SafeWrite_prefix[OF assms s] s by auto
  assume "\<forall>k\<in>set ks. 0 \<le> k"
  then show "contents (fst (snd (SafeWrite ks f b))) = contents f @ b"
    using SafeWrite_prefix[OF assms s] SafeWrite_total[OF _ s] s by auto
qed

section \<open>Receiving\<close>

text \<open>The bytes that arrive before the end of the connection, and whether it ends by a shutdown.\<close>

fun received :: "recv_event list \<Rightarrow> string" where
  "received (Bytes s # evs) = (if s = [] then [] else s @ received evs)"
| "received _ = []"

fun shut_down :: "recv_event list \<Rightarrow> bool" where
  "shut_down [] = True"
| "shut_down (Bytes s # evs) = (s = [] \<or> shut_down evs)"
| "shut_down _ = False"

lemma received_split:
  "take n s \<noteq> [] \<Longrightarrow> received (Bytes s # evs) =
     take n s @ received (if drop n s = [] then evs else Bytes (drop n s) # evs)"
  using append_take_drop_id[of n s] by (cases "s = []") auto

lemma shut_down_split:
  "take n s \<noteq> [] \<Longrightarrow> shut_down (Bytes s # evs) = shut_down (if drop n s = [] then evs else Bytes (drop n s) # evs)"
  by auto

lemma take_min_append: "take m b = take (min m (length b)) (b @ c)"
  by (auto simp: min_def)

lemma take_append_add: "take (length b + n) (b @ c) = b @ take n c"
  by simp

lemma store_loop_prefix:
  "at_end f \<Longrightarrow> store_loop cap evs ks b f = (len, f') \<Longrightarrow>
     (len = 0 \<or> len = - 1) \<and> (\<exists>n. contents f' = contents f @ take n (b @ received evs))"
proof (induction cap evs ks b f arbitrary: len f' rule: store_loop.induct)
  case (1 cap ks b f)
  then show ?case using SafeWrite_at_end(2)[of f ks b] by auto
next
  case (4 cap s evs ks b f)
  let ?n = "cap - length b" and ?evs = "if drop (cap - length b) s = [] then evs else Bytes (drop (cap - length b) s) # evs"
  show ?case
  proof (cases "take ?n s = []")
    case True
    obtain m where "contents (fst (snd (SafeWrite ks f b))) = contents f @ take m b"
      using SafeWrite_at_end(2)[OF 4(3)] by auto
    moreover have "take m b = take (min m (length b)) (b @ received (Bytes s # evs))" by (rule take_min_append)
    moreover have "len = 0" "f' = fst (snd (SafeWrite ks f b))" using 4(4) True by (simp_all add: Let_def)
    ultimately show ?thesis by metis
  next
    case False
    have r: "b @ received (Bytes s # evs) = (b @ take ?n s) @ received ?evs"
      using received_split[OF False] by simp
    show ?thesis
    proof (cases "length (b @ take ?n s) = cap")
      case full: True
      obtain ok g ks' where w: "SafeWrite ks f (b @ take ?n s) = (ok, g, ks')" by (metis prod_cases3)
      note p = SafeWrite_prefix[OF 4(3) w]
      show ?thesis
      proof (cases ok)
        case True
        have "store_loop cap ?evs ks' [] g = (len, f')" using 4(4) False full w True by (simp add: Let_def)
        from 4(1)[OF refl refl refl refl False full w[symmetric] refl True _ this] p
        obtain n where n: "len = 0 \<or> len = - 1" "contents f' = contents g @ take n (received ?evs)" by auto
        moreover have "contents g = contents f @ b @ take ?n s" using p True by simp
        ultimately have "contents f' = contents f @ take (length (b @ take ?n s) + n) ((b @ take ?n s) @ received ?evs)"
          unfolding take_append_add by (simp only: append_assoc)
        then show ?thesis unfolding r using n(1) by blast
      next
        case nok: False
        then have "len = - 1" "f' = g" using 4(4) False full w by (simp_all add: Let_def)
        moreover obtain n where "contents g = contents f @ take n (b @ take ?n s)" using p by auto
        moreover have "take n (b @ take ?n s) = take (min n (length (b @ take ?n s))) ((b @ take ?n s) @ received ?evs)"
          by (rule take_min_append)
        ultimately show ?thesis unfolding r by metis
      qed
    next
      case part: False
      have "store_loop cap ?evs ks (b @ take ?n s) f = (len, f')" using 4(4) False part by (simp add: Let_def)
      from 4(2)[OF refl refl refl refl False part 4(3) this] show ?thesis unfolding r .
    qed
  qed
qed (auto intro: exI[of _ 0])

lemma store_loop_total:
  "at_end f \<Longrightarrow> length b < cap \<Longrightarrow> \<forall>k\<in>set ks. 0 \<le> k \<Longrightarrow> shut_down evs \<Longrightarrow>
     store_loop cap evs ks b f = (len, f') \<Longrightarrow> len = 0 \<and> contents f' = contents f @ b @ received evs"
proof (induction cap evs ks b f arbitrary: len f' rule: store_loop.induct)
  case (1 cap ks b f)
  then show ?case using SafeWrite_at_end(3)[of f ks b] by auto
next
  case (4 cap s evs ks b f)
  let ?n = "cap - length b" and ?evs = "if drop (cap - length b) s = [] then evs else Bytes (drop (cap - length b) s) # evs"
  show ?case
  proof (cases "take ?n s = []")
    case True
    then have "s = []" using 4(4) by auto
    with 4(7) SafeWrite_at_end(3)[OF 4(3) 4(5), of b] show ?thesis by (simp add: Let_def)
  next
    case False
    have r: "received (Bytes s # evs) = take ?n s @ received ?evs" by (rule received_split[OF False])
    have sd: "shut_down ?evs" using 4(6) shut_down_split[OF False] by simp
    show ?thesis
    proof (cases "length (b @ take ?n s) = cap")
      case full: True
      obtain ok g ks' where w: "SafeWrite ks f (b @ take ?n s) = (ok, g, ks')" by (metis prod_cases3)
      note p = SafeWrite_prefix[OF 4(3) w] and t = SafeWrite_total[OF 4(5) w]
      have ks': "\<forall>k\<in>set ks'. 0 \<le> k" using t 4(5) by auto
      have "store_loop cap ?evs ks' [] g = (len, f')" using 4(7) False full w t by (simp add: Let_def)
      from 4(1)[OF refl refl refl refl False full w[symmetric] refl _ _ _ ks' sd this] p t 4(4)
      show ?thesis unfolding r by auto
    next
      case part: False
      then have "length (b @ take ?n s) < cap" using 4(4) by simp
      moreover have "store_loop cap ?evs ks (b @ take ?n s) f = (len, f')" using 4(7) False part by (simp add: Let_def)
      ultimately show ?thesis using 4(2)[OF refl refl refl refl False part 4(3) _ 4(5) sd] unfolding r by simp
    qed
  qed
qed simp_all

section \<open>Sending\<close>

text \<open>Reads that return something and sends that take a whole block.\<close>

lemma retrieve_loop_total:
  "0 < cap \<Longrightarrow> \<forall>k\<in>set rs. 0 < k \<Longrightarrow> \<forall>k\<in>set ss. int cap \<le> k \<Longrightarrow> 0 \<le> len \<Longrightarrow>
     retrieve_loop cap s rs ss len c = (l, out) \<Longrightarrow> 0 \<le> l \<and> sent out = c \<and> closed out = []"
proof (induction cap s rs ss len c arbitrary: l out rule: retrieve_loop.induct)
  case (1 cap s rs ss len c)
  obtain n rs' where n: "os_count rs (min cap (length c)) = (n, rs')" by (metis surj_pair)
  have rs': "\<forall>k\<in>set rs'. 0 < k" and pos: "c \<noteq> [] \<Longrightarrow> 0 < n" and le: "n \<le> int (min cap (length c))"
    using n 1(2,3) by (auto simp: os_count_def split: list.splits)
  let ?b = "take (nat n) c"
  obtain m ss' where m: "os_count ss (length ?b) = (m, ss')" by (metis surj_pair)
  have ss': "\<forall>k\<in>set ss'. int cap \<le> k" and all: "m = int (length ?b)"
    using m le 1(4) by (auto simp: os_count_def split: list.splits)
  show ?case
  proof (cases "n \<le> 0")
    case True
    then have "c = []" using pos by auto
    then show ?thesis using 1(5,6) n True by (simp add: retrieve_loop.simps[of _ _ _ _ _ "[]"] os_count_def split: list.splits)
  next
    case False
    then have m0: "0 < m" using all le by auto
    obtain l2 outs where r: "retrieve_loop cap s rs' ss' m (drop (nat n) c) = (l2, outs)" by (metis surj_pair)
    have lo: "l = l2" "out = Send s (take (nat m) ?b) # outs"
      using 1(6) False m0 by (simp_all add: retrieve_loop.simps[of cap s rs ss] n m[simplified] r)
    have "0 \<le> l2 \<and> sent outs = drop (nat n) c \<and> closed outs = []"
      using 1(1)[OF n[symmetric] refl False refl m[symmetric] refl refl _ 1(2) rs' ss' _ r] m0 by simp
    moreover have "nat n \<le> length c" using le by simp
    ultimately show ?thesis using lo all by (simp add: min_absorb2)
  qed
qed

lemma retrieve_loop_closes: "retrieve_loop cap s rs ss len c = (l, out) \<Longrightarrow> closed out = []"
proof (induction cap s rs ss len c arbitrary: l out rule: retrieve_loop.induct)
  case (1 cap s rs ss len c)
  then show ?case
    by (auto simp: retrieve_loop.simps[of cap s rs ss len c] Let_def split: prod.splits if_splits)
qed

section \<open>Connections\<close>

lemma data_sock_set_sock [simp]: "data_sock (set_sock t s st) t' = (if t' = t then s else data_sock st t')"
  by (simp add: data_sock_def set_sock_def)

lemma data_sock_files [simp]: "data_sock (st\<lparr>files := F\<rparr>) t = data_sock st t"
  by (simp add: data_sock_def)

lemma files_set_sock [simp]: "files (set_sock t s st) = files st"
  by (simp add: set_sock_def)

text \<open>A call that ends the connection \<open>s\<close> of a transaction and leaves the others alone.\<close>

definition ends_connection :: "int \<Rightarrow> int \<Rightarrow> slave_state \<Rightarrow> sock_effect list \<Rightarrow> slave_state \<Rightarrow> bool" where
  "ends_connection t s st out st' \<longleftrightarrow>
     data_sock st' t = INVALID_SOCK \<and> (\<forall>t'. t' \<noteq> t \<longrightarrow> data_sock st' t' = data_sock st t') \<and>
     closed out = (if s = INVALID_SOCK then [] else [s])"

lemma Reset_ends: "ResetSlaveConnection t st = (st', out) \<Longrightarrow>
    ends_connection t (data_sock st t) st out st' \<and> files st' = files st"
  by (auto simp: ResetSlaveConnection_def ends_connection_def split: if_splits)

text \<open>One run of \<open>Store\<close>: the file after the loop, the reply, and the closing of the connection.\<close>

lemma Store_run:
  assumes "Store os bs fid r fl t st = (v, out, st')"
  obtains (failed) "os_open_write os fl (files st (file_path os fid)) = None"
      "ResetSlaveConnection t st = (st', out)" "rv_msg v = ''550 Can't store file.''"
      "rv_size v = (if os_stat os then case files st' (file_path os fid) of None \<Rightarrow> - 1 | Some c \<Rightarrow> int (length c) else - 1)"
  | (opened) f len f' where "os_open_write os fl (files st (file_path os fid)) = Some f"
      "(len, f') = (if (r > 0 \<and> os_lseek os \<or> r = 0) \<and> data_sock st t \<noteq> INVALID_SOCK
         then store_loop (nat (to_unsigned bs)) (os_recv os) (os_write os) [] (f\<lparr>offset := nat r\<rparr>) else (0, f))"
      "ResetSlaveConnection t (st\<lparr>files := (files st)(file_path os fid \<mapsto> contents f')\<rparr>) = (st', out)"
      "rv_msg v = (if len < 0 then ''550 Can't store file.'' else ''226 Transfer complete.'')"
      "rv_size v = (if os_stat os then int (length (contents f')) else - 1)"
proof (cases "os_open_write os fl (files st (file_path os fid))")
  case None
  then show thesis using assms failed by (simp add: Store_def Let_def split: prod.splits) fastforce
next
  case (Some f)
  obtain len f' where l: "(if (r > 0 \<and> os_lseek os \<or> r = 0) \<and> data_sock st t \<noteq> INVALID_SOCK
      then store_loop (nat (to_unsigned bs)) (os_recv os) (os_write os) [] (f\<lparr>offset := nat r\<rparr>) else (0, f)) = (len, f')"
    by (metis surj_pair)
  obtain st2 o2 where c: "ResetSlaveConnection t (st\<lparr>files := (files st)(file_path os fid \<mapsto> contents f')\<rparr>) = (st2, o2)"
    by (metis surj_pair)
  have "files st2 (file_path os fid) = Some (contents f')" using Reset_ends[OF c] by simp
  then have "st2 = st'" "o2 = out" "rv_size v = (if os_stat os then int (length (contents f')) else - 1)"
    "rv_msg v = (if len < 0 then ''550 Can't store file.'' else ''226 Transfer complete.'')"
    using assms unfolding Store_def Let_def Some option.case l prod.case c by auto
  then show thesis using opened[OF Some l[symmetric]] c by simp
qed

lemma Store_ends:
  assumes "Store os bs fid r fl t st = (v, out, st')"
  shows "ends_connection t (data_sock st t) st out st'"
  using assms
proof (cases rule: Store_run)
  case failed
  then show ?thesis using Reset_ends by blast
next
  case (opened f len f')
  show ?thesis using Reset_ends[OF opened(3)] by (simp add: ends_connection_def)
qed

lemma Retrieve_ends:
  assumes "Retrieve os bs fid r t st = (v, out, st')"
  shows "ends_connection t (data_sock st t) st out st' \<and> files st' = files st"
proof -
  obtain out0 out1 where "closed out0 = []" "out = out0 @ out1" "ResetSlaveConnection t st = (st', out1)"
    using assms by (auto simp: Retrieve_def Let_def split: prod.splits option.splits if_splits
        dest: retrieve_loop_closes)
  then show ?thesis using Reset_ends[of t st st' out1] by (simp add: ends_connection_def)
qed

lemma Open_ends:
  assumes "OpenActiveDataConnection os p st = (ok, out, st')"
  shows "if ok then data_sock st' = (data_sock st)(p_trans_id p := os_socket os) \<and> closed out = [] \<and>
                    os_socket os \<noteq> INVALID_SOCK \<and> sent out = [] \<and> files st' = files st
         else ends_connection (p_trans_id p) (os_socket os) st out st' \<and> files st' = files st"
proof (cases ok)
  case True
  then show ?thesis using assms
    by (auto simp: OpenActiveDataConnection_def Let_def fun_eq_iff split: if_splits prod.splits)
next
  case False
  let ?st1 = "set_sock (p_trans_id p) (os_socket os) st"
  let ?out0 = "if os_socket os \<noteq> INVALID_SOCK \<and> os_sockopt os \<and> os_bind os (word_of_int (p_server_port p))
    then [Bind (os_socket os) (word_of_int (p_server_port p))] else []"
  obtain out1 where "out = ?out0 @ out1" and "ResetSlaveConnection (p_trans_id p) ?st1 = (st', out1)"
    using assms False by (auto simp: OpenActiveDataConnection_def Let_def split: if_splits prod.splits)
  moreover have "closed ?out0 = []" by simp
  ultimately show ?thesis using Reset_ends[of "p_trans_id p" ?st1 st' out1] False
    by (simp add: ends_connection_def)
qed

lemma ends_after_open:
  "data_sock st1 = (data_sock st)(t := s) \<Longrightarrow> closed out1 = [] \<Longrightarrow>
     ends_connection t (data_sock st1 t) st1 out2 st2 \<Longrightarrow> ends_connection t s st (out1 @ out2) st2"
  by (simp add: ends_connection_def)

lemma open_at_end:
  assumes "os_open_write os fl old = Some f" and "has_flag fl O_APPEND \<or> r \<le> 0"
    and "has_flag fl O_TRUNC \<or> has_flag fl O_APPEND"
  shows "at_end (f\<lparr>offset := nat r\<rparr>)"
    and "contents f = (if has_flag fl O_TRUNC then [] else case old of None \<Rightarrow> [] | Some c \<Rightarrow> c)"
  using assms by (auto simp: os_open_write_def at_end_def split: if_splits)

section \<open>The properties\<close>

text \<open>C10: Whatever the network and the disk do, a transfer that stores a file changes no file but its
  own, the file holds what it held at the opening (nothing with \<open>O_TRUNC\<close>) followed by an initial part
  of the bytes that arrived, and the size in the reply is the length of the file or \<open>-1\<close>; when every
  \<open>write\<close> succeeds and the client shuts the connection down, all the bytes are in the file and the
  reply is 226.\<close>

theorem stored_is_received:
  assumes "has_flag fl O_APPEND \<or> r \<le> 0" and "has_flag fl O_TRUNC \<or> has_flag fl O_APPEND"
    and "Store os bs fid r fl t st = (v, out, st')"
  defines "old \<equiv> if has_flag fl O_TRUNC then [] else case files st (file_path os fid) of None \<Rightarrow> [] | Some c \<Rightarrow> c"
  shows "(files st' = files st \<and> rv_msg v = ''550 Can't store file.'' \<or>
       (\<exists>n. files st' = (files st)(file_path os fid \<mapsto> old @ take n (received (os_recv os))) \<and>
         rv_size v \<in> {- 1, int (length (old @ take n (received (os_recv os))))})) \<and>
    (os_open os \<and> has_flag fl O_CREAT \<and> os_stat os \<and> (r = 0 \<or> r > 0 \<and> os_lseek os) \<and>
      data_sock st t \<noteq> INVALID_SOCK \<and> 0 < to_unsigned bs \<and> (\<forall>k\<in>set (os_write os). 0 \<le> k) \<and>
      shut_down (os_recv os) \<longrightarrow>
        files st' = (files st)(file_path os fid \<mapsto> old @ received (os_recv os)) \<and>
        v = \<lparr>rv_msg = ''226 Transfer complete.'', rv_size = int (length (old @ received (os_recv os)))\<rparr>)"
  using assms(3)
proof (cases rule: Store_run)
  case failed
  then show ?thesis using Reset_ends[OF failed(2)] by (auto simp: os_open_write_def split: if_splits)
next
  case (opened f len f')
  note e = open_at_end[OF opened(1) assms(1,2)]
  have F: "files st' = (files st)(file_path os fid \<mapsto> contents f')" using Reset_ends[OF opened(3)] by simp
  have c: "contents f = old" using e(2) by (simp add: old_def)
  have "\<exists>n. contents f' = old @ take n (received (os_recv os))"
  proof (cases "(r > 0 \<and> os_lseek os \<or> r = 0) \<and> data_sock st t \<noteq> INVALID_SOCK")
    case True
    then show ?thesis using store_loop_prefix[OF e(1) opened(2)[symmetric, unfolded if_P[OF True]]] c by simp
  next
    case False
    then have "f' = f" using opened(2) by auto
    then show ?thesis using c by (auto intro: exI[of _ 0])
  qed
  moreover have "contents f' = old @ received (os_recv os) \<and> len = 0"
    if g: "r = 0 \<or> r > 0 \<and> os_lseek os" "data_sock st t \<noteq> INVALID_SOCK" "0 < to_unsigned bs"
      "\<forall>k\<in>set (os_write os). 0 \<le> k" "shut_down (os_recv os)"
  proof -
    have "(r > 0 \<and> os_lseek os \<or> r = 0) \<and> data_sock st t \<noteq> INVALID_SOCK" using g by auto
    from store_loop_total[OF e(1) _ g(4,5) opened(2)[symmetric, unfolded if_P[OF this]]] g(3) c
    show ?thesis by simp
  qed
  moreover have "v = \<lparr>rv_msg = rv_msg v, rv_size = rv_size v\<rparr>" by simp
  ultimately show ?thesis using F opened(4,5) by (auto simp del: StorRetVal.surjective)
qed

definition demo_os :: slave_os where
  "demo_os = \<lparr>DataRootPath = ''data'', os_socket = 7, os_accept = 8, os_sockopt = True, os_bind = (\<lambda>_. True),
     os_listen = True, os_ready = True, os_connect = True, os_rand = 0, os_open = True, os_lseek = True,
     os_stat = True, os_read = [], os_write = [], os_send = [], os_recv = [Bytes ''abc'', Bytes ''de'']\<rparr>"

definition demo_slave :: slave_state where
  "demo_slave = \<lparr>mDataSock = [5 \<mapsto> 7], files = Map.empty\<rparr>"

lemma stored_is_received_witness:
  "files (snd (snd (Store demo_os 4 9 0 577 5 demo_slave))) ''data/9'' = Some ''abcde''"
proof -
  obtain v out st' where s: "Store demo_os 4 9 0 577 5 demo_slave = (v, out, st')" by (metis prod_cases3)
  have fl: "has_flag 577 O_TRUNC" "has_flag 577 O_CREAT"
    by (simp_all add: has_flag_def O_TRUNC_def O_CREAT_def)
  have p: "file_path demo_os 9 = ''data/9''"
    by code_simp
  have "files st' = (files demo_slave)(file_path demo_os 9 \<mapsto> [] @ received (os_recv demo_os))"
    using stored_is_received[of 577 0 demo_os 4 9 5 demo_slave, OF _ _ s] fl
    by (simp add: demo_os_def demo_slave_def data_sock_def to_unsigned_def)
  then show ?thesis unfolding s p by (simp add: demo_os_def)
qed

text \<open>The operating system does nothing unexpected, with the client sending and closing in order.\<close>

definition reliable :: "slave_os \<Rightarrow> int \<Rightarrow> bool" where
  "reliable os bs \<longleftrightarrow> os_open os \<and> os_lseek os \<and> os_stat os \<and> 0 < to_unsigned bs \<and> shut_down (os_recv os) \<and>
     (\<forall>k\<in>set (os_write os). 0 \<le> k) \<and> (\<forall>k\<in>set (os_read os). 0 < k) \<and> (\<forall>k\<in>set (os_send os). to_unsigned bs \<le> k)"

definition can_connect :: "slave_os \<Rightarrow> bool" where
  "can_connect os \<longleftrightarrow> os_socket os \<noteq> INVALID_SOCK \<and> os_sockopt os \<and> (\<forall>p. os_bind os p) \<and> os_connect os"

lemma can_connect_open:
  "can_connect os \<Longrightarrow> OpenActiveDataConnection os p st =
     (True, [Bind (os_socket os) (word_of_int (p_server_port p)), Connect (os_socket os) (word_of_int (p_client_port p))],
      set_sock (p_trans_id p) (os_socket os) st)"
  by (simp add: can_connect_def OpenActiveDataConnection_def Let_def)

lemma reliable_store:
  assumes "reliable os bs" and "has_flag fl O_APPEND \<or> r = 0" "has_flag fl O_TRUNC \<or> has_flag fl O_APPEND"
    and "has_flag fl O_CREAT" and "data_sock st t \<noteq> INVALID_SOCK" and "0 \<le> r"
    and "Store os bs fid r fl t st = (v, out, st')"
  defines "new \<equiv> (if has_flag fl O_TRUNC then [] else case files st (file_path os fid) of None \<Rightarrow> [] | Some c \<Rightarrow> c) @
      received (os_recv os)"
  shows "files st' = (files st)(file_path os fid \<mapsto> new) \<and> rv_msg v = ''226 Transfer complete.'' \<and>
    rv_size v = int (length new)"
  using assms(7)
proof (cases rule: Store_run)
  case failed
  then show ?thesis using assms(1,4) by (simp add: os_open_write_def reliable_def)
next
  case (opened f len f')
  have g: "(r > 0 \<and> os_lseek os \<or> r = 0) \<and> data_sock st t \<noteq> INVALID_SOCK"
    using assms(1,5,6) by (auto simp: reliable_def)
  have r: "has_flag fl O_APPEND \<or> r \<le> 0" using assms(2) by auto
  note e = open_at_end[OF opened(1) r assms(3)]
  have "len = 0 \<and> contents f' = contents (f\<lparr>offset := nat r\<rparr>) @ [] @ received (os_recv os)"
    by (rule store_loop_total[OF e(1) _ _ _ opened(2)[symmetric, unfolded if_P[OF g]]])
      (use assms(1) in \<open>auto simp: reliable_def\<close>)
  then have "contents f' = new" "len = 0" using e(2) by (simp_all add: new_def)
  then show ?thesis using Reset_ends[OF opened(3)] opened(4,5) assms(1) by (simp add: reliable_def)
qed

lemma reliable_retrieve:
  assumes "reliable os bs" and "data_sock st t \<noteq> INVALID_SOCK" and "0 \<le> r"
    and "files st (file_path os fid) = Some c" and "Retrieve os bs fid r t st = (msg, out, st')"
  shows "msg = ''226 Transfer complete.'' \<and> sent out = drop (nat r) c \<and> files st' = files st"
proof -
  obtain l o1 where l: "retrieve_loop (nat (to_unsigned bs)) (data_sock st t) (os_read os) (os_send os) 0
      (drop (nat r) c) = (l, o1)" by (metis surj_pair)
  have "0 \<le> l \<and> sent o1 = drop (nat r) c \<and> closed o1 = []"
    by (rule retrieve_loop_total[OF _ _ _ _ l]) (use assms(1) in \<open>auto simp: reliable_def\<close>)
  moreover have "(if os_open os then files st (file_path os fid) else None) = Some c"
    "(r = 0 \<or> r > 0 \<and> os_lseek os) \<and> data_sock st t \<noteq> INVALID_SOCK"
    using assms by (auto simp: reliable_def)
  ultimately show ?thesis using assms(5) l Retrieve_ends[OF assms(5)]
    by (auto simp: Retrieve_def ResetSlaveConnection_def Let_def split: prod.splits if_splits)
qed

lemma reliable_active_store:
  assumes "reliable os (p_transfer_buffer_size p)" and "can_connect os" and "0 \<le> p_restart_at p"
    and "has_flag fl O_APPEND \<or> p_restart_at p = 0" "has_flag fl O_TRUNC \<or> has_flag fl O_APPEND" "has_flag fl O_CREAT"
    and "ActiveStoreTransfer os p fl st = (v, out, st')"
  defines "new \<equiv> (if has_flag fl O_TRUNC then []
      else case files st (file_path os (p_fid p)) of None \<Rightarrow> [] | Some c \<Rightarrow> c) @ received (os_recv os)"
  shows "files st' = (files st)(file_path os (p_fid p) \<mapsto> new) \<and> rv_msg v = ''226 Transfer complete.'' \<and>
    rv_size v = int (length new)"
proof -
  obtain out2 where "Store os (p_transfer_buffer_size p) (p_fid p) (p_restart_at p) fl (p_trans_id p)
      (set_sock (p_trans_id p) (os_socket os) st) = (v, out2, st')"
    using assms(7) by (auto simp: ActiveStoreTransfer_def can_connect_open[OF assms(2)] split: prod.splits)
  from reliable_store[OF assms(1,4,5,6) _ assms(3) this] assms(2) show ?thesis
    by (simp add: can_connect_def new_def)
qed

lemma reliable_active_retrieve:
  assumes "reliable os (p_transfer_buffer_size p)" and "can_connect os" and "0 \<le> p_restart_at p"
    and "files st (file_path os (p_fid p)) = Some c" and "ActiveRetrieveTransfer os p st = (msg, out, st')"
  shows "msg = ''226 Transfer complete.'' \<and> sent out = drop (nat (p_restart_at p)) c \<and> files st' = files st"
proof -
  let ?st = "set_sock (p_trans_id p) (os_socket os) st"
  obtain out2 where o: "Retrieve os (p_transfer_buffer_size p) (p_fid p) (p_restart_at p) (p_trans_id p) ?st = (msg, out2, st')"
      "sent out = sent out2"
    using assms(5) by (auto simp: ActiveRetrieveTransfer_def can_connect_open[OF assms(2)] split: prod.splits)
  from reliable_retrieve[OF assms(1) _ assms(3) _ o(1)] assms(2,4) show ?thesis
    by (simp add: can_connect_def o(2))
qed

text \<open>C17: What is stored can be retrieved: after an active \<open>STOR\<close> from the start, over any segmentation
  by the network, any short writes and any two buffer sizes, a \<open>RETR\<close> from position \<open>r\<close> sends exactly
  the bytes that arrived from position \<open>r\<close> on, and both replies are 226.\<close>

theorem store_then_retrieve:
  assumes "reliable os1 (p_transfer_buffer_size p1)" and "can_connect os1"
    and "reliable os2 (p_transfer_buffer_size p2)" and "can_connect os2" and "DataRootPath os2 = DataRootPath os1"
    and "has_flag fl O_TRUNC" and "has_flag fl O_CREAT" and "p_restart_at p1 = 0"
    and "p_fid p2 = p_fid p1" and "0 \<le> p_restart_at p2"
    and "ActiveStoreTransfer os1 p1 fl st = (v, out1, st1)"
    and "ActiveRetrieveTransfer os2 p2 st1 = (msg, out2, st2)"
  shows "rv_msg v = ''226 Transfer complete.'' \<and> msg = ''226 Transfer complete.'' \<and>
    sent out2 = drop (nat (p_restart_at p2)) (received (os_recv os1))"
proof -
  have "file_path os2 (p_fid p2) = file_path os1 (p_fid p1)" using assms(5,9) by (simp add: file_path_def)
  with reliable_active_store[OF assms(1,2) _ _ _ assms(7,11)] assms(6,8)
    reliable_active_retrieve[OF assms(3,4,10) _ assms(12)]
  show ?thesis by simp
qed

definition demo_params :: "int \<Rightarrow> int \<Rightarrow> int \<Rightarrow> ActiveParams" where
  "demo_params fid r bs = \<lparr>p_server_ip = 0, p_server_port = 2000, p_fid = fid, p_restart_at = r,
     p_transfer_buffer_size = bs, p_trans_id = 5, p_client_ip = 0, p_client_port = 3000\<rparr>"

lemma demo_reliable: "reliable demo_os 4" "reliable demo_os 2" "can_connect demo_os"
  by (simp_all add: reliable_def can_connect_def demo_os_def to_unsigned_def)

lemma demo_flags: "has_flag 577 O_TRUNC" "has_flag 577 O_CREAT" "has_flag 1089 O_APPEND" "has_flag 1089 O_CREAT"
  "\<not> has_flag 1089 O_TRUNC"
  by (simp_all add: has_flag_def O_TRUNC_def O_CREAT_def O_APPEND_def)

theorem store_then_retrieve_witness:
  "sent (fst (snd (ActiveRetrieveTransfer demo_os (demo_params 9 1 2)
     (snd (snd (ActiveStoreTransfer demo_os (demo_params 9 0 4) 577 demo_slave)))))) = ''bcde''"
proof -
  obtain v out1 st1 where s: "ActiveStoreTransfer demo_os (demo_params 9 0 4) 577 demo_slave = (v, out1, st1)"
    by (metis prod_cases3)
  obtain msg out2 st2 where r: "ActiveRetrieveTransfer demo_os (demo_params 9 1 2) st1 = (msg, out2, st2)"
    by (metis prod_cases3)
  have "sent out2 = drop (nat 1) (received (os_recv demo_os))"
    using store_then_retrieve[of demo_os "demo_params 9 0 4" demo_os "demo_params 9 1 2", OF _ _ _ _ _ _ _ _ _ _ s r]
      demo_reliable demo_flags by (simp add: demo_params_def)
  then show ?thesis unfolding s snd_conv r fst_conv by (simp add: demo_os_def)
qed

text \<open>The transfer that stores the file ends with the connection of its transaction closed, exactly
  once when there is one, and touches no other connection; so do the other three transfers.\<close>

theorem transfers_close_their_connection:
  "(case ActiveStoreTransfer os p fl st of (_, out, st') \<Rightarrow> ends_connection (p_trans_id p) (os_socket os) st out st') \<and>
   (case ActiveRetrieveTransfer os p st of (_, out, st') \<Rightarrow> ends_connection (p_trans_id p) (os_socket os) st out st') \<and>
   (case PasvStoreTransfer os q fl st of (_, out, st') \<Rightarrow>
      ends_connection (p_trans_id q) (data_sock st (p_trans_id q)) st out st') \<and>
   (case PasvRetrieveTransfer os q st of (_, out, st') \<Rightarrow>
      ends_connection (p_trans_id q) (data_sock st (p_trans_id q)) st out st')"
proof -
  obtain ok out1 st1 where o: "OpenActiveDataConnection os p st = (ok, out1, st1)" by (metis prod_cases3)
  note e = Open_ends[OF o]
  have "case ActiveStoreTransfer os p fl st of (_, out, st') \<Rightarrow> ends_connection (p_trans_id p) (os_socket os) st out st'"
  proof (cases ok)
    case True
    then have "data_sock st1 = (data_sock st)(p_trans_id p := os_socket os)" "closed out1 = []" using e by auto
    from ends_after_open[OF this Store_ends] True show ?thesis
      by (auto simp: ActiveStoreTransfer_def o split: prod.splits)
  qed (use e in \<open>auto simp: ActiveStoreTransfer_def o\<close>)
  moreover have "case ActiveRetrieveTransfer os p st of (_, out, st') \<Rightarrow> ends_connection (p_trans_id p) (os_socket os) st out st'"
  proof (cases ok)
    case True
    then have "data_sock st1 = (data_sock st)(p_trans_id p := os_socket os)" "closed out1 = []" using e by auto
    from ends_after_open[OF this conjunct1[OF Retrieve_ends]] True show ?thesis
      by (auto simp: ActiveRetrieveTransfer_def o split: prod.splits)
  qed (use e in \<open>auto simp: ActiveRetrieveTransfer_def o\<close>)
  ultimately show ?thesis
    by (auto simp: PasvStoreTransfer_def PasvRetrieveTransfer_def dest: Store_ends Retrieve_ends split: prod.splits)
qed

text \<open>The reply to \<open>PASV\<close> is formatted into 50 bytes, which is not enough for every address: once a
  port is bound and listening, the slave answers when the six numbers with their commas take at most
  21 characters, and writes past the buffer otherwise.\<close>

theorem PASV_reply_overflow:
  assumes "os_socket os \<noteq> INVALID_SOCK" and "os_sockopt os" and "os_listen os"
    and "find_port (os_bind os) \<lparr>usStart = word_of_int startPort, usLen = word_of_int portLen\<rparr> (os_rand os) = Ret port"
    and "port \<noteq> 0"
  shows "InitPasvDataConnection os p startPort portLen st =
    (if length (pasv_numbers (p_server_ip p) port) \<le> 21
     then Ret (''227 Entering Passive Mode ('' @ pasv_numbers (p_server_ip p) port @ '')'', [Bind (os_socket os) port],
       set_sock (p_trans_id p) (os_socket os) st)
     else Crash OutOfBounds)"
  using assms by (simp add: InitPasvDataConnection_def sprintf_def pasv_reply_def outcome_simps Let_def)

text \<open>192.168.100.100 and port 50000: the 22 characters \<open>192,168,100,100,195,80\<close>.\<close>

theorem PASV_reply_overflow_witness:
  "InitPasvDataConnection demo_os \<lparr>p_server_ip = 1684318400, p_server_port = 0, p_fid = 9, p_restart_at = 0,
     p_transfer_buffer_size = 4, p_trans_id = 5\<rparr> 50000 100 demo_slave = Crash OutOfBounds"
proof -
  have n: "length (pasv_numbers 1684318400 50000) = 22"
    by (simp add: pasv_numbers_def show_int_def show_nat.simps)
  have f: "find_port (os_bind demo_os) \<lparr>usStart = word_of_int 50000, usLen = word_of_int 100\<rparr> (os_rand demo_os)
      = Ret 50000"
    by (simp add: find_port_def random_port_def demo_os_def outcome_simps port_loop.simps)
  have "os_socket demo_os \<noteq> INVALID_SOCK" "os_sockopt demo_os" "os_listen demo_os" "(50000 :: 16 word) \<noteq> 0"
    by (simp_all add: demo_os_def)
  from PASV_reply_overflow[OF this(1-3) f this(4)] show ?thesis by (simp add: n)
qed

text \<open>A write error on the last block of a file is not noticed: a file that is smaller than the
  buffer, on a disk that refuses the write, is answered with 226 and recorded with size 0.\<close>

theorem last_write_unchecked:
  assumes "os_open os" and "os_stat os" and "has_flag fl O_TRUNC" and "has_flag fl O_CREAT"
    and "data_sock st t \<noteq> INVALID_SOCK" and "os_recv os = [Bytes s]" and "s \<noteq> []"
    and "int (length s) < to_unsigned bs" and "k < 0" and "os_write os = [k]"
  shows "fst (Store os bs fid 0 fl t st) = \<lparr>rv_msg = ''226 Transfer complete.'', rv_size = 0\<rparr>"
proof -
  have l: "store_loop (nat (to_unsigned bs)) [Bytes s] [k] [] f = (0, f)" for f
    using assms(7,8,9) by (simp add: Let_def)
  obtain v out st' where run: "Store os bs fid 0 fl t st = (v, out, st')" by (metis prod_cases3)
  then have "rv_msg v = ''226 Transfer complete.'' \<and> rv_size v = 0"
  proof (cases rule: Store_run)
    case failed
    then show ?thesis using assms(1,4) by (simp add: os_open_write_def)
  next
    case (opened f len f')
    have "contents f = []" using opened(1) assms(3) by (auto simp: os_open_write_def split: if_splits)
    moreover have "(len, f') = store_loop (nat (to_unsigned bs)) [Bytes s] [k] [] (f\<lparr>offset := nat 0\<rparr>)"
      using opened(2) assms(5,6,10) by (simp del: store_loop.simps)
    ultimately show ?thesis using opened(4,5) assms(2) unfolding l by simp
  qed
  then show ?thesis by (simp add: run)
qed

theorem last_write_unchecked_witness:
  "fst (Store (demo_os\<lparr>os_recv := [Bytes ''abc''], os_write := [- 1]\<rparr>) 4 9 0 577 5 demo_slave) =
     \<lparr>rv_msg = ''226 Transfer complete.'', rv_size = 0\<rparr>"
  by (rule last_write_unchecked[where s = "''abc''" and k = "- 1"])
    (simp_all add: demo_os_def demo_slave_def data_sock_def demo_flags to_unsigned_def)

end
