(* ===== verification/VfsTree.thy ===== *)
theory VfsTree
  imports RedisVfs
begin

text \<open>
  What the operations of the virtual file system do to the directory tree that the database holds,
  on every server that obeys the laws of \<open>redis_server\<close>: the walk along a path is a reference
  definition of \<open>lookup_fid\<close>, the invariant \<open>tree_ok\<close> says that file ids come from the counter.
\<close>

section \<open>Maps and keys\<close>

lemma map_of_map_put [simp]: "map_of (map_put k v m) = (map_of m)(k \<mapsto> v)"
  by (induction k v m rule: map_put.induct) (auto simp: fun_eq_iff)

lemma keys_map_put: "fst ` set (map_put k v m) = insert k (fst ` set m)"
  by (induction k v m rule: map_put.induct) auto

definition strict_keys :: "(string \<times> 'v) list \<Rightarrow> bool" where
  "strict_keys m \<longleftrightarrow> sorted_wrt (<) (map fst m)"

lemma strict_keys_map_put: "strict_keys m \<Longrightarrow> strict_keys (map_put k v m)"
proof (induction k v m rule: map_put.induct)
  case (2 k v k' v' m)
  then show ?case
    using keys_map_put[of k v m] by (fastforce simp: strict_keys_def image_iff)
qed (simp add: strict_keys_def)

lemma rows_flatten:
  assumes "\<forall>s\<in>snd ` set ps. cast s \<noteq> None" and "distinct (map fst ps)" and "strict_keys m"
  shows "\<exists>m'. rows cast (flatten ps) m = Ret m' \<and> strict_keys m' \<and>
    map_of m' = (\<lambda>k. case map_of ps k of None \<Rightarrow> map_of m k | Some s \<Rightarrow> cast s)"
  using assms
proof (induction ps arbitrary: m rule: flatten.induct)
  case 1
  then show ?case by simp
next
  case (2 k s ps)
  then obtain x where x: "cast s = Some x" by auto
  have "strict_keys (map_put k x m)" using 2 by (simp add: strict_keys_map_put)
  with 2 obtain m' where m': "rows cast (flatten ps) (map_put k x m) = Ret m'" "strict_keys m'"
    "map_of m' = (\<lambda>j. case map_of ps j of None \<Rightarrow> map_of (map_put k x m) j | Some s \<Rightarrow> cast s)"
    by fastforce
  have "map_of ps k = None" using 2 by (auto simp: map_of_eq_None_iff)
  with m' x show ?case by (auto simp: fun_eq_iff split: option.splits)
qed

lemma to_map_flatten:
  assumes "\<forall>s\<in>ran (map_of ps). cast s \<noteq> None" and "distinct (map fst ps)"
  obtains m where "to_map cast (ReplyArray (flatten ps)) = Ret m" "strict_keys m"
    "map_of m = (\<lambda>k. Option.bind (map_of ps k) cast)"
proof -
  have "\<forall>s\<in>snd ` set ps. cast s \<noteq> None" using assms by (simp add: ran_distinct)
  moreover have "strict_keys []" by (simp add: strict_keys_def)
  ultimately obtain m where "rows cast (flatten ps) [] = Ret m" "strict_keys m"
    "map_of m = (\<lambda>k. case map_of ps k of None \<Rightarrow> map_of [] k | Some s \<Rightarrow> cast s)"
    using rows_flatten[of ps cast "[]"] assms by blast
  then show thesis by (intro that[of m]) (auto simp: to_map_def fun_eq_iff split: option.splits)
qed

lemma key_inject [simp]:
  "dirent_key f = dirent_key g \<longleftrightarrow> f mod 2 ^ 32 = g mod 2 ^ 32"
  "stat_key f = stat_key g \<longleftrightarrow> f mod 2 ^ 32 = g mod 2 ^ 32"
  "diren_key f = diren_key g \<longleftrightarrow> f mod 2 ^ 32 = g mod 2 ^ 32"
  by (simp_all add: dirent_key_def stat_key_def diren_key_def fmt_u_inject)

lemma key_disjoint [simp]:
  "dirent_key f \<noteq> stat_key g" "stat_key g \<noteq> dirent_key f"
  "dirent_key f \<noteq> diren_key g" "diren_key g \<noteq> dirent_key f"
  "stat_key f \<noteq> diren_key g" "diren_key g \<noteq> stat_key f"
  by (simp_all add: dirent_key_def stat_key_def diren_key_def)

lemma to_int_mod: "to_int i mod 2 ^ 32 = i mod 2 ^ 32"
proof -
  have "take_bit 32 (signed_take_bit 31 i) = take_bit 32 i" by (rule take_bit_signed_take_bit) simp
  then show ?thesis by (simp add: to_int_def sint_sbintrunc' take_bit_eq_mod)
qed

lemma to_int_small: "0 \<le> i \<Longrightarrow> i < 2 ^ 31 \<Longrightarrow> to_int i = i"
  unfolding to_int_def by (subst sint_sbintrunc') (simp add: signed_take_bit_int_eq_self)

lemma to_int_minus1 [simp]: "to_int (- 1) = - 1"
  by (simp add: to_int_def)

lemma atoi_fmt_u: "atoi (fmt_u i) = to_int i"
proof -
  have "strtol (fmt_u i) = i mod 2 ^ 32"
    unfolding fmt_u_def by (subst strtol_show_nat) auto
  moreover have "(word_of_int (i mod 2 ^ 32) :: 32 word) = word_of_int i"
    by (simp add: word_of_int_eq_iff take_bit_eq_mod)
  ultimately show ?thesis by (simp only: atoi_def to_int_def)
qed

lemma lexical_ll_fmt_u: "lexical_ll (fmt_u i) = Some (i mod 2 ^ 32)"
  unfolding fmt_u_def by (subst lexical_ll_show_nat) auto

lemma lexical_ll_minus1 [simp]: "lexical_ll ''-1'' = Some (- 1)"
  by code_simp

section \<open>The walk along a path\<close>

datatype found = Found int | Missing | Endless

definition next_fid :: "string \<Rightarrow> int" where
  "next_fid s = to_int (the (lexical_ll s))"

fun walk :: "(string \<Rightarrow> string \<rightharpoonup> string) \<Rightarrow> int \<Rightarrow> string list \<Rightarrow> found" where
  "walk h f [] = Found f"
| "walk h f (t # ts) =
     (if h (dirent_key f) = Map.empty then Endless
      else (case h (dirent_key f) t of None \<Rightarrow> Missing | Some s \<Rightarrow> walk h (next_fid s) ts))"

text \<open>The directories a walk reads.\<close>

fun visited :: "(string \<Rightarrow> string \<rightharpoonup> string) \<Rightarrow> int \<Rightarrow> string list \<Rightarrow> int list" where
  "visited h f [] = []"
| "visited h f (t # ts) =
     f # (case h (dirent_key f) t of None \<Rightarrow> [] | Some s \<Rightarrow> visited h (next_fid s) ts)"

lemma walk_cong:
  "(\<And>g. g \<in> set (visited h f ts) \<Longrightarrow> h' (dirent_key g) = h (dirent_key g)) \<Longrightarrow> walk h' f ts = walk h f ts"
  by (induction ts arbitrary: f) (auto split: option.splits)

lemma walk_append:
  "walk h f (ts @ us) = (case walk h f ts of Found g \<Rightarrow> walk h g us | r \<Rightarrow> r)"
  by (induction ts arbitrary: f) (auto split: option.splits)

lemma visited_nonempty:
  "walk h f ts = Found g \<Longrightarrow> d \<in> set (visited h f ts) \<Longrightarrow> h (dirent_key d) \<noteq> Map.empty"
  by (induction ts arbitrary: f) (auto split: option.splits if_splits)

text \<open>Directory entries that \<open>lexical_cast\<close> accepts.\<close>

definition castable :: "(string \<Rightarrow> string \<rightharpoonup> string) \<Rightarrow> bool" where
  "castable h \<longleftrightarrow> (\<forall>f n s. h (dirent_key f) n = Some s \<longrightarrow> lexical_ll s \<noteq> None)"

text \<open>Path tokens as a path of the server has them.\<close>

definition plain :: "string \<Rightarrow> bool" where
  "plain t \<longleftrightarrow> t \<noteq> [] \<and> CHR ''/'' \<notin> set t \<and> BACKSLASH \<notin> set t"

lemma tokens_canonical_path:
  assumes "\<forall>t\<in>set ts. plain t" and "ts \<noteq> []"
  shows "tokens (canonical ts) = [] # ts"
  using assms by (simp add: canonical_join tokens_def plain_def split_join)

definition dir_path :: "string list \<Rightarrow> string" where
  "dir_path ts = (if ts = [] then ''/'' else canonical ts @ ''/'')"

lemma canonical_snoc: "canonical (ts @ [t]) = dir_path ts @ t"
  by (cases ts) (auto simp: dir_path_def)

lemma parent_entry:
  assumes "plain t"
  shows "parentpath (canonical (ts @ [t])) = dir_path ts" and "entry_name (canonical (ts @ [t])) = t"
proof -
  have t: "\<forall>c\<in>set (rev t). \<not> separator c" using assms by (auto simp: plain_def separator_def)
  obtain s where s: "rev (dir_path ts) = CHR ''/'' # s"
    by (cases "ts = []") (simp_all add: dir_path_def)
  then have "\<not> (\<not> separator (CHR ''/''))" by (simp add: separator_def)
  with t s show "entry_name (canonical (ts @ [t])) = t"
    by (simp add: entry_name_def canonical_snoc takeWhile_append)
  have "rev (CHR ''/'' # s) = dir_path ts" using s by (metis rev_rev_ident)
  with t s show "parentpath (canonical (ts @ [t])) = dir_path ts"
    by (simp add: parentpath_def canonical_snoc dropWhile_append separator_def)
qed

section \<open>Lookups\<close>

lemma flatten_eq_Nil [simp]: "flatten ps = [] \<longleftrightarrow> ps = []"
  by (cases ps rule: flatten.cases) auto

lemma map_of_eq_empty [simp]: "map_of ps = Map.empty \<longleftrightarrow> ps = []"
  by (cases ps) (auto simp: fun_eq_iff)

context redis_server
begin

abbreviation hs :: "'db \<Rightarrow> string \<Rightarrow> string \<rightharpoonup> string" where
  "hs db \<equiv> hashes (view db)"

lemma read_hash:
  assumes "idle db"
  obtains ps where "query R (HGETALL k) db = Ret (ReplyArray (flatten ps), db)"
    "distinct (map fst ps)" "map_of ps = hs db k" "ps = [] \<longleftrightarrow> hs db k = Map.empty"
  using query_hgetall[OF assms, of k] by (metis map_of_eq_empty)

lemma read_map:
  assumes "idle db" and "\<forall>s\<in>ran (hs db k). cast s \<noteq> None"
  obtains r m where "query R (HGETALL k) db = Ret (r, db)" "to_map cast r = Ret m" "strict_keys m"
    "map_of m = (\<lambda>n. Option.bind (hs db k n) cast)" "elements r > 0 \<longleftrightarrow> hs db k \<noteq> Map.empty"
proof -
  obtain ps where ps: "query R (HGETALL k) db = Ret (ReplyArray (flatten ps), db)"
    "distinct (map fst ps)" "map_of ps = hs db k" "ps = [] \<longleftrightarrow> hs db k = Map.empty"
    using read_hash[OF assms(1)] by blast
  with to_map_flatten[of ps cast] assms(2) obtain m where
    "to_map cast (ReplyArray (flatten ps)) = Ret m" "strict_keys m"
    "map_of m = (\<lambda>n. Option.bind (hs db k n) cast)" by metis
  with ps show thesis by (intro that) auto
qed

lemma lookup_loop_endless:
  assumes "idle db" and "hs db (dirent_key f) = Map.empty" and "ts \<noteq> []"
  shows "lookup_loop R f ts db = None"
proof (rule ccontr)
  assume "lookup_loop R f ts db \<noteq> None"
  then obtain y where "lookup_loop R f ts db = Some y" by auto
  then have "\<not> (idle db \<and> hs db (dirent_key f) = Map.empty \<and> ts \<noteq> [] \<and> R = R)"
  proof (rule lookup_loop.raw_induct[rotated, where P = "\<lambda>R' f ts db y.
      \<not> (idle db \<and> hs db (dirent_key f) = Map.empty \<and> ts \<noteq> [] \<and> R' = R)"], goal_cases)
    case (1 loop R' f ts db y)
    show ?case
    proof
      assume a: "idle db \<and> hs db (dirent_key f) = Map.empty \<and> ts \<noteq> [] \<and> R' = R"
      then obtain ps where "query R (HGETALL (dirent_key f)) db = Ret (ReplyArray (flatten ps), db)" "ps = []"
        using read_hash by metis
      with 1(2) a have "loop R' f ts db = Some y" by simp
      from 1(1)[OF this] a show False by blast
    qed
  qed
  with assms show False by simp
qed

lemma lookup_loop_walk:
  assumes "idle db" and "castable (hs db)"
  shows "lookup_loop R f ts db = (case walk (hs db) f ts of
      Found g \<Rightarrow> Some (Ret (g, db)) | Missing \<Rightarrow> Some (Ret (- 1, db)) | Endless \<Rightarrow> None)"
proof (induction ts arbitrary: f)
  case Nil
  then show ?case by (subst lookup_loop.simps) simp
next
  case (Cons t ts)
  show ?case
  proof (cases "hs db (dirent_key f) = Map.empty")
    case True
    with assms(1) show ?thesis by (simp add: lookup_loop_endless)
  next
    case False
    have "\<forall>s\<in>ran (hs db (dirent_key f)). lexical_ll s \<noteq> None"
      using assms(2) by (auto simp: castable_def ran_def)
    then obtain r m where r: "query R (HGETALL (dirent_key f)) db = Ret (r, db)" "to_map lexical_ll r = Ret m"
      "strict_keys m" "map_of m = (\<lambda>n. Option.bind (hs db (dirent_key f) n) lexical_ll)"
      "elements r > 0 \<longleftrightarrow> hs db (dirent_key f) \<noteq> Map.empty"
      by (rule read_map[OF assms(1)])
    show ?thesis
    proof (cases "hs db (dirent_key f) t")
      case None
      with r(4) have "map_of m t = None" by simp
      with r(1,2,5) False None show ?thesis by (subst lookup_loop.simps) simp
    next
      case (Some s)
      with assms(2) obtain i where "lexical_ll s = Some i" unfolding castable_def by fast
      with r(4) Some have "map_of m t = Some i" "next_fid s = to_int i" by (simp_all add: next_fid_def)
      with r(1,2,5) False Some Cons.IH show ?thesis by (subst lookup_loop.simps) simp
    qed
  qed
qed

definition found_fid :: "'db \<Rightarrow> found \<Rightarrow> (int \<times> 'db) outcome" where
  "found_fid db w = (case w of Found g \<Rightarrow> Ret (g, db) | Missing \<Rightarrow> Ret (- 1, db) | Endless \<Rightarrow> Hang)"

lemma lookup_canonical:
  assumes "idle db" and "castable (hs db)" and "\<forall>t\<in>set ts. plain t"
  shows "lookup_fid R (canonical ts) db = found_fid db (walk (hs db) 0 ts)"
proof (cases "ts = []")
  case True
  then show ?thesis by (simp add: lookup_fid_def found_fid_def)
next
  case False
  then have t: "tokens (canonical ts) = [] # ts" using assms(3) by (simp add: tokens_canonical_path)
  have "last ts \<noteq> []" "ts ! 0 \<noteq> []" using False assms(3) by (auto simp: plain_def)
  then show ?thesis using False
    by (auto simp: lookup_fid_def Let_def t lookup_loop_walk[OF assms(1,2)] found_fid_def split: found.split)
qed

lemma lookup_dir:
  assumes "idle db" and "castable (hs db)" and "\<forall>t\<in>set ts. plain t"
  shows "lookup_fid R (dir_path ts) db = found_fid db (walk (hs db) 0 ts)"
proof (cases "ts = []")
  case True
  then show ?thesis by (simp add: lookup_fid_def found_fid_def dir_path_def)
next
  case False
  then have "tokens (canonical ts) = [] # ts" using assms(3) by (simp add: tokens_canonical_path)
  then have "tokens (dir_path ts) = [] # ts @ [[]]" using False by (simp add: dir_path_def tokens_append)
  then show ?thesis using False
    by (auto simp: lookup_fid_def Let_def lookup_loop_walk[OF assms(1,2)] found_fid_def split: found.split)
qed

end

end
