(* ===== verification/VfsOps.thy ===== *)
theory VfsOps
  imports VfsTree
begin

text \<open>
  The operations of the virtual file system on a database that obeys the laws: what each of them
  returns and what it leaves in the tree, and the properties of the file system.
\<close>

section \<open>The invariant of the tree\<close>

text \<open>
  The file ids in use come from the counter; the entries of a directory are file ids, or \<open>-1\<close> for
  the placeholder that keeps a directory from being empty.
\<close>

definition fids :: "rview \<Rightarrow> int" where
  "fids v = counters v ''fid_counter''"

definition fresh :: "rview \<Rightarrow> int \<Rightarrow> bool" where
  "fresh v f \<longleftrightarrow> hashes v (dirent_key f) = Map.empty \<and> hashes v (stat_key f) = Map.empty"

definition entry_ok :: "int \<Rightarrow> string \<Rightarrow> bool" where
  "entry_ok c s \<longleftrightarrow> (\<exists>i. lexical_ll s = Some i \<and> - 1 \<le> i \<and> i \<le> c)"

definition tree_ok :: "rview \<Rightarrow> bool" where
  "tree_ok v \<longleftrightarrow> 0 \<le> fids v \<and> fids v < 2 ^ 31 \<and>
     (\<forall>f. fids v < f \<and> f < 2 ^ 32 \<longrightarrow> fresh v f) \<and>
     (\<forall>f n s. hashes v (dirent_key f) n = Some s \<longrightarrow> entry_ok (fids v) s)"

lemma tree_ok_castable: "tree_ok v \<Longrightarrow> castable (hashes v)"
  unfolding tree_ok_def castable_def entry_ok_def by fastforce

lemma entry_ok_next: "entry_ok c s \<Longrightarrow> c < 2 ^ 31 \<Longrightarrow> - 1 \<le> next_fid s \<and> next_fid s \<le> c"
proof -
  assume s: "entry_ok c s" "c < 2 ^ 31"
  then obtain i where i: "lexical_ll s = Some i" "- 1 \<le> i" "i \<le> c" by (auto simp: entry_ok_def)
  have "to_int i = i" using i s(2) by (cases "i = - 1") (auto intro: to_int_small)
  with i show ?thesis by (simp add: next_fid_def)
qed

lemma walk_in_range:
  "tree_ok v \<Longrightarrow> f \<le> fids v \<Longrightarrow> walk (hashes v) f ts = Found g \<Longrightarrow> g \<le> fids v"
proof (induction ts arbitrary: f)
  case Nil
  then show ?case by simp
next
  case (Cons t ts)
  then obtain s where s: "hashes v (dirent_key f) t = Some s" "walk (hashes v) (next_fid s) ts = Found g"
    by (auto split: if_splits option.splits)
  with Cons.prems(1) have "entry_ok (fids v) s" "fids v < 2 ^ 31" by (auto simp: tree_ok_def)
  then have "next_fid s \<le> fids v" using entry_ok_next by blast
  with s Cons show ?case by blast
qed

lemma walk_root_in_range: "tree_ok v \<Longrightarrow> walk (hashes v) 0 ts = Found g \<Longrightarrow> g \<le> fids v"
  using walk_in_range[of v 0 ts g] by (simp add: tree_ok_def)

lemma entry_ok_fmt_u: "0 \<le> f \<Longrightarrow> f \<le> c \<Longrightarrow> c < 2 ^ 31 \<Longrightarrow> entry_ok c (fmt_u f)"
  by (simp add: entry_ok_def lexical_ll_fmt_u)

lemma entry_ok_mono: "entry_ok c s \<Longrightarrow> c \<le> d \<Longrightarrow> entry_ok d s"
  by (auto simp: entry_ok_def)

lemma next_fid_fmt_u: "0 \<le> f \<Longrightarrow> f < 2 ^ 31 \<Longrightarrow> next_fid (fmt_u f) = f"
  by (simp add: next_fid_def lexical_ll_fmt_u to_int_small)

section \<open>Attributes\<close>

definition attr :: "(string \<rightharpoonup> string) \<Rightarrow> string \<Rightarrow> string" where
  "attr M k = (case M k of None \<Rightarrow> [] | Some v \<Rightarrow> v)"

definition attributes :: "(string \<rightharpoonup> string) \<Rightarrow> stat_buf" where
  "attributes M = \<lparr>st_mode = to_unsigned (atoi (attr M ''st_mode'')), st_size = atoi (attr M ''st_size''),
     st_uid = to_unsigned (atoi (attr M ''st_uid'')), st_gid = to_unsigned (atoi (attr M ''st_gid'')),
     st_mtime = atoi (attr M ''st_mtime'')\<rparr>"

lemma field_attr: "field m k = attr (map_of m) k"
  by (simp add: field_def attr_def)

lemma stat_of_attributes: "stat_of m = attributes (map_of m)"
  by (simp add: stat_of_def attributes_def field_attr)

lemma to_unsigned_to_int: "to_unsigned (to_int i) = i mod 2 ^ 32"
  unfolding to_unsigned_def by (rule to_int_mod)

lemma strict_keys_unique:
  assumes "strict_keys m" and "strict_keys m'" and "map_of m = map_of m'"
  shows "m = m'"
proof -
  have d: "sorted (map fst x) \<and> distinct (map fst x)" if "strict_keys x" for x :: "(string \<times> 'a) list"
    using that strict_sorted_iff by (auto simp: strict_keys_def)
  have "set m = set m'" using assms d map_of_inject_set by blast
  moreover have "inj_on fst (set m)" using d[OF assms(1)] by (simp add: distinct_map)
  ultimately show ?thesis using d[OF assms(1)] d[OF assms(2)] by (intro map_sorted_distinct_set_unique) auto
qed

section \<open>Running the operations\<close>

context redis_server
begin

lemma and_then_found:
  "walk h f ts = Found g \<Longrightarrow> and_then (found_fid db (walk h f ts)) k = k (g, db)"
  by (simp add: found_fid_def)

lemma commit_idle:
  assumes "idle db" and "\<forall>c\<in>set cs. is_write c"
  obtains db' where "commit R cs db = (0, db')" "idle db'"
    "view db' = (view db)\<lparr>hashes := apply_writes cs (hs db)\<rparr>"
  using transaction[OF assms] by (intro that) (simp_all add: commit_def idle_err)

lemma new_fid:
  assumes "idle db"
  obtains db' where "get_new_fid R db = Ret (fids (view db) + 1, db')" "idle db'"
    "view db' = (view db)\<lparr>counters := (counters (view db))(''fid_counter'' := fids (view db) + 1)\<rparr>"
  using query_incr[OF assms, of "''fid_counter''"] by (force simp: get_new_fid_def fids_def)

lemma stat_found:
  assumes "idle db" and "castable (hs db)" and "\<forall>t\<in>set ts. plain t"
    and "walk (hs db) 0 ts = Found g" and "0 \<le> g"
  shows "vfs_stat R (canonical ts) db =
    Ret (if hs db (stat_key g) = Map.empty then None else Some (attributes (hs db (stat_key g))), db)"
proof -
  have "\<forall>s\<in>ran (hs db (stat_key g)). Some s \<noteq> None" by simp
  then obtain r m where "query R (HGETALL (stat_key g)) db = Ret (r, db)" "to_map Some r = Ret m"
    "strict_keys m" "map_of m = (\<lambda>n. Option.bind (hs db (stat_key g) n) Some)"
    "elements r > 0 \<longleftrightarrow> hs db (stat_key g) \<noteq> Map.empty"
    by (rule read_map[OF assms(1)])
  then show ?thesis using assms(5)
    by (simp add: vfs_stat_def lookup_canonical[OF assms(1-3)] and_then_found[OF assms(4)] stat_of_attributes)
qed

lemma slave_found:
  assumes "idle db" and "castable (hs db)" and "\<forall>t\<in>set ts. plain t"
    and "walk (hs db) 0 ts = Found g" and "hs db (stat_key g) \<noteq> Map.empty"
  shows "lookup_slave_info R (canonical ts) db =
    Ret (\<lparr>si_host = attr (hs db (stat_key g)) ''slave_host'',
          si_port = Some (to_ushort (atoi (attr (hs db (stat_key g)) ''slave_port'')))\<rparr>, db)"
proof -
  have "\<forall>s\<in>ran (hs db (stat_key g)). Some s \<noteq> None" by simp
  then obtain r m where "query R (HGETALL (stat_key g)) db = Ret (r, db)" "to_map Some r = Ret m"
    "strict_keys m" "map_of m = (\<lambda>n. Option.bind (hs db (stat_key g) n) Some)"
    "elements r > 0 \<longleftrightarrow> hs db (stat_key g) \<noteq> Map.empty"
    by (rule read_map[OF assms(1)])
  then show ?thesis using assms(5)
    by (simp add: lookup_slave_info_def lookup_slave_info_fid_def lookup_canonical[OF assms(1-3)]
        and_then_found[OF assms(4)] field_attr)
qed

lemma opendir_found:
  assumes "idle db" and "castable (hs db)" and "\<forall>t\<in>set ts. plain t"
    and "walk (hs db) 0 ts = Found g" and "0 \<le> g"
  obtains m where "strict_keys m" "map_of m = (\<lambda>n. Option.bind (hs db (dirent_key g) n) lexical_ll)"
    "opendir R (canonical ts) db = Ret (if hs db (dirent_key g) = Map.empty then None else Some m, db)"
proof -
  have "\<forall>s\<in>ran (hs db (dirent_key g)). lexical_ll s \<noteq> None"
    using assms(2) by (auto simp: castable_def ran_def)
  then obtain r m where "query R (HGETALL (dirent_key g)) db = Ret (r, db)" "to_map lexical_ll r = Ret m"
    "strict_keys m" "map_of m = (\<lambda>n. Option.bind (hs db (dirent_key g) n) lexical_ll)"
    "elements r > 0 \<longleftrightarrow> hs db (dirent_key g) \<noteq> Map.empty"
    by (rule read_map[OF assms(1)])
  then show thesis using assms(5)
    by (intro that[of m])
      (simp_all add: opendir_def lookup_canonical[OF assms(1-3)] and_then_found[OF assms(4)])
qed

lemma lookup_parent:
  assumes "idle db" and "castable (hs db)" and "\<forall>t\<in>set ts. plain t" and "plain t"
  shows "lookup_fid R (parentpath (canonical (ts @ [t]))) db = found_fid db (walk (hs db) 0 ts)"
    and "lookup_fid R (canonical (ts @ [t])) db = found_fid db (walk (hs db) 0 (ts @ [t]))"
  using assms lookup_dir[OF assms(1-3)] lookup_canonical[OF assms(1,2), of "ts @ [t]"]
  by (auto simp: parent_entry)

lemma mkdir_run:
  assumes "idle db" and "castable (hs db)" and "\<forall>t\<in>set ts. plain t" and "plain t"
    and "walk (hs db) 0 ts = Found p" and "0 \<le> p"
  obtains db' where "vfs_mkdir R now (canonical (ts @ [t])) mode uid gid db = Ret (0, db')" "idle db'"
    "view db' = (view db)\<lparr>
       hashes := apply_writes (mkdir_writes (fids (view db) + 1) p t uid gid now) (hs db),
       counters := (counters (view db))(''fid_counter'' := fids (view db) + 1)\<rparr>"
proof -
  obtain db1 where 1: "get_new_fid R db = Ret (fids (view db) + 1, db1)" "idle db1"
    "view db1 = (view db)\<lparr>counters := (counters (view db))(''fid_counter'' := fids (view db) + 1)\<rparr>"
    by (rule new_fid[OF assms(1)])
  then have h: "hs db1 = hs db" by simp
  let ?ws = "mkdir_writes (fids (view db) + 1) p t uid gid now"
  have "\<forall>c\<in>set ?ws. is_write c" by (simp add: mkdir_writes_def)
  then obtain db2 where 2: "commit R ?ws db1 = (0, db2)" "idle db2"
    "view db2 = (view db1)\<lparr>hashes := apply_writes ?ws (hs db1)\<rparr>"
    by (rule commit_idle[OF 1(2)])
  have "lookup_fid R (parentpath (canonical (ts @ [t]))) db1 = found_fid db1 (Found p)"
    using lookup_parent(1)[OF 1(2) _ assms(3,4)] assms(2,5) by (simp add: h)
  with 1 2 assms(4,6) show thesis
    by (intro that[of db2]) (simp_all add: vfs_mkdir_def found_fid_def parent_entry outcome_simps)
qed

lemma remove_run:
  assumes "idle db" and "castable (hs db)" and "\<forall>t\<in>set ts. plain t" and "plain t"
    and "walk (hs db) 0 ts = Found p" and "0 \<le> p" and "walk (hs db) 0 (ts @ [t]) = Found f" and "0 \<le> f"
  obtains db' where "vfs_remove R (canonical (ts @ [t])) db = Ret (0, db')" "idle db'"
    "view db' = (view db)\<lparr>
       hashes := apply_writes [HDEL (dirent_key p) t, DEL (stat_key f)] (hs db)\<rparr>"
proof -
  let ?ws = "[HDEL (dirent_key p) t, DEL (stat_key f)]"
  have "\<forall>c\<in>set ?ws. is_write c" by simp
  then obtain db2 where 2: "commit R ?ws db = (0, db2)" "idle db2"
    "view db2 = (view db)\<lparr>hashes := apply_writes ?ws (hs db)\<rparr>"
    by (rule commit_idle[OF assms(1)])
  with lookup_parent[OF assms(1-4)] assms(4-) show thesis
    by (intro that[of db2]) (simp_all add: vfs_remove_def found_fid_def parent_entry outcome_simps)
qed

lemma save_run:
  assumes "idle db" and "castable (hs db)" and "\<forall>t\<in>set ts. plain t" and "plain t"
    and "walk (hs db) 0 ts = Found p" and "0 \<le> p" and "si_port slave = Some port"
  obtains db' where "save_new_file R now (canonical (ts @ [t])) mode sz uid gid f slave db = Ret (0, db')"
    "idle db'"
    "view db' = (view db)\<lparr>
       hashes := apply_writes (save_writes f p t sz uid gid now (si_host slave) port) (hs db)\<rparr>"
proof -
  let ?ws = "save_writes f p t sz uid gid now (si_host slave) port"
  have "\<forall>c\<in>set ?ws. is_write c" by (simp add: save_writes_def)
  then obtain db2 where 2: "commit R ?ws db = (0, db2)" "idle db2"
    "view db2 = (view db)\<lparr>hashes := apply_writes ?ws (hs db)\<rparr>"
    by (rule commit_idle[OF assms(1)])
  with lookup_parent[OF assms(1-4)] assms(4-) show thesis
    by (intro that[of db2]) (simp_all add: save_new_file_def found_fid_def parent_entry outcome_simps)
qed

lemma rename_run:
  assumes "idle db" and "castable (hs db)" and "\<forall>t\<in>set ts. plain t" and "plain t" and "plain u"
    and "walk (hs db) 0 ts = Found p" and "0 \<le> p" and "walk (hs db) 0 (ts @ [t]) = Found f" and "0 \<le> f"
  obtains db' where "vfs_rename R (canonical (ts @ [t])) (canonical (us @ [u])) db = Ret (0, db')" "idle db'"
    "view db' = (view db)\<lparr>
       hashes := apply_writes [HDEL (dirent_key p) t, HSET (dirent_key p) u (fmt_u f)] (hs db)\<rparr>"
proof -
  let ?ws = "[HDEL (dirent_key p) t, HSET (dirent_key p) u (fmt_u f)]"
  have "\<forall>c\<in>set ?ws. is_write c" by simp
  then obtain db2 where 2: "commit R ?ws db = (0, db2)" "idle db2"
    "view db2 = (view db)\<lparr>hashes := apply_writes ?ws (hs db)\<rparr>"
    by (rule commit_idle[OF assms(1)])
  with lookup_parent[OF assms(1-4)] assms(4-) show thesis
    by (intro that[of db2]) (simp_all add: vfs_rename_def found_fid_def parent_entry outcome_simps)
qed

lemma rmdir_run:
  assumes "idle db" and "castable (hs db)" and "\<forall>t\<in>set ts. plain t" and "plain t"
    and "walk (hs db) 0 ts = Found p" and "0 \<le> p" and "walk (hs db) 0 (ts @ [t]) = Found f" and "0 \<le> f"
  shows "hs db (dirent_key f) \<noteq> Map.empty \<Longrightarrow> vfs_rmdir R (canonical (ts @ [t])) db = Ret (- 1, db)"
    and "hs db (dirent_key f) = Map.empty \<Longrightarrow> \<exists>db'. vfs_rmdir R (canonical (ts @ [t])) db = Ret (0, db') \<and>
      idle db' \<and> view db' = (view db)\<lparr>
        hashes := apply_writes [HDEL (dirent_key p) t, DEL (stat_key f), DEL (diren_key f)] (hs db)\<rparr>"
proof -
  have fin: "finite (dom (hs db (dirent_key f)))" using assms(1) by (simp add: usable_def finite_hash)
  have start: "vfs_rmdir R (canonical (ts @ [t])) db = (if card (dom (hs db (dirent_key f))) = 0
     then Ret (commit R [HDEL (dirent_key p) t, DEL (stat_key f), DEL (diren_key f)] db) else Ret (- 1, db))"
    using lookup_parent[OF assms(1-4)] assms(4-)
    by (simp add: vfs_rmdir_def found_fid_def query_hlen[OF assms(1)] parent_entry outcome_simps)
  show "hs db (dirent_key f) \<noteq> Map.empty \<Longrightarrow> vfs_rmdir R (canonical (ts @ [t])) db = Ret (- 1, db)"
    using start fin by simp
  have "\<forall>c\<in>set [HDEL (dirent_key p) t, DEL (stat_key f), DEL (diren_key f)]. is_write c" by simp
  from commit_idle[OF assms(1) this] start
  show "hs db (dirent_key f) = Map.empty \<Longrightarrow> \<exists>db'. vfs_rmdir R (canonical (ts @ [t])) db = Ret (0, db') \<and>
      idle db' \<and> view db' = (view db)\<lparr>
        hashes := apply_writes [HDEL (dirent_key p) t, DEL (stat_key f), DEL (diren_key f)] (hs db)\<rparr>"
    by simp metis
qed

end

section \<open>What the writes do to the tree\<close>

lemma small_mod: "0 \<le> f \<Longrightarrow> f < 2 ^ 32 \<Longrightarrow> f mod 2 ^ 32 = (f :: int)"
  by simp

text \<open>Writes that keep the invariant: entries and attributes of file ids that are in use.\<close>

fun safe_write :: "int \<Rightarrow> rcmd \<Rightarrow> bool" where
  "safe_write c (HSET k n s) \<longleftrightarrow>
     (\<exists>f. 0 \<le> f \<and> f \<le> c \<and> (k = dirent_key f \<and> entry_ok c s \<or> k = stat_key f))"
| "safe_write c _ \<longleftrightarrow> True"

lemma safe_write_dirent: "0 \<le> f \<Longrightarrow> f \<le> c \<Longrightarrow> entry_ok c s \<Longrightarrow> safe_write c (HSET (dirent_key f) n s)"
  and safe_write_stat: "0 \<le> f \<Longrightarrow> f \<le> c \<Longrightarrow> safe_write c (HSET (stat_key f) n s)"
  by auto

lemma tree_ok_write:
  assumes "tree_ok v" and "safe_write (fids v) c"
  shows "tree_ok (v\<lparr>hashes := apply_write c (hashes v)\<rparr>)"
proof -
  have fids: "fids (v\<lparr>hashes := apply_write c (hashes v)\<rparr>) = fids v" by (simp add: fids_def)
  have other: "g mod 2 ^ 32 \<noteq> f mod 2 ^ 32" if "0 \<le> f" "f \<le> fids v" "fids v < g" "g < 2 ^ 32" for f g :: int
    using that by (simp add: small_mod)
  show ?thesis
  proof (cases c)
    case (HSET k n s)
    with assms(2) obtain f where f: "0 \<le> f" "f \<le> fids v"
      "k = dirent_key f \<and> entry_ok (fids v) s \<or> k = stat_key f" by auto
    have fr: "fresh (v\<lparr>hashes := apply_write c (hashes v)\<rparr>) g" if "fids v < g" "g < 2 ^ 32" for g
      using other[OF f(1,2) that] f(3) assms(1) that unfolding tree_ok_def fresh_def HSET by auto
    have "entry_ok (fids v) s'" if "apply_write c (hashes v) (dirent_key g) n' = Some s'" for g n' s'
      using that f(3) assms(1) by (auto simp: HSET tree_ok_def split: if_splits)
    with fr assms(1) show ?thesis by (simp add: tree_ok_def fids)
  qed (use assms(1) in \<open>auto simp: tree_ok_def fresh_def fids_def split: if_splits\<close>)
qed

lemma tree_ok_writes:
  "tree_ok v \<Longrightarrow> \<forall>c\<in>set cs. safe_write (fids v) c \<Longrightarrow> tree_ok (v\<lparr>hashes := apply_writes cs (hashes v)\<rparr>)"
proof (induction cs arbitrary: v)
  case (Cons c cs)
  let ?v = "v\<lparr>hashes := apply_write c (hashes v)\<rparr>"
  have "tree_ok ?v" "fids ?v = fids v" using Cons.prems tree_ok_write by (auto simp: fids_def)
  with Cons.IH[of ?v] Cons.prems show ?case by simp
qed simp

lemma tree_ok_count:
  assumes "tree_ok v" and "fids v + 1 < 2 ^ 31"
  shows "tree_ok (v\<lparr>counters := (counters v)(''fid_counter'' := fids v + 1)\<rparr>)"
  using assms entry_ok_mono[of "fids v" _ "fids v + 1"]
  by (auto simp: tree_ok_def fids_def fresh_def)

definition off_path :: "(string \<Rightarrow> string \<rightharpoonup> string) \<Rightarrow> string list \<Rightarrow> int \<Rightarrow> bool" where
  "off_path h ts p \<longleftrightarrow> (\<forall>g\<in>set (visited h 0 ts). g mod 2 ^ 32 \<noteq> p mod 2 ^ 32)"

lemma walk_kept:
  assumes "walk h 0 ts = Found q" and "off_path h ts p"
    and "\<And>g. g mod 2 ^ 32 \<noteq> p mod 2 ^ 32 \<Longrightarrow> h (dirent_key g) \<noteq> Map.empty \<Longrightarrow>
      h' (dirent_key g) = h (dirent_key g)"
  shows "walk h' 0 ts = Found q"
proof -
  have "h' (dirent_key g) = h (dirent_key g)" if "g \<in> set (visited h 0 ts)" for g
    using that assms(2,3) visited_nonempty[OF assms(1)] unfolding off_path_def by blast
  then show ?thesis using walk_cong[of h 0 ts h'] assms(1) by simp
qed

lemma walk_to_entry:
  "walk h 0 ts = Found p \<Longrightarrow> h (dirent_key p) t = Some s \<Longrightarrow> walk h 0 (ts @ [t]) = Found (next_fid s)"
  by (auto simp: walk_append)

declare safe_write.simps(1) [simp del]

section \<open>The invariant is kept\<close>

context redis_server
begin

lemma lookup_fid_cases:
  assumes "idle db" and "castable (hs db)"
  obtains "lookup_fid R path db = Ret (0, db)" | "lookup_fid R path db = Crash OutOfBounds"
    | ts where "lookup_fid R path db = found_fid db (walk (hs db) 0 ts)"
proof -
  let ?ts = "tl (tokens path)"
  let ?us = "if last ?ts = [] then butlast ?ts else ?ts"
  have w: "lookup_fid R path db = (if length (tokens path) = 2 \<and> tokens path ! 1 = [] then Ret (0, db)
      else if ?ts = [] then Crash OutOfBounds else found_fid db (walk (hs db) 0 ?us))"
    unfolding lookup_fid_def Let_def lookup_loop_walk[OF assms]
    by (simp add: found_fid_def split: found.splits)
  show thesis
  proof (cases "length (tokens path) = 2 \<and> tokens path ! 1 = []")
    case True
    with w that(1) show thesis by simp
  next
    case False
    then show thesis
      unfolding w by (cases "?ts = []") (use that(2) that(3)[of ?us] w in auto)
  qed
qed

lemma lookup_any:
  assumes "idle db" and "tree_ok (view db)" and "lookup_fid R path db = Ret (g, db')"
  shows "db' = db \<and> g \<le> fids (view db)"
proof -
  have root: "0 \<le> fids (view db)" using assms(2) by (simp add: tree_ok_def)
  consider "lookup_fid R path db = Ret (0, db)" | "lookup_fid R path db = Crash OutOfBounds"
    | ts where "lookup_fid R path db = found_fid db (walk (hs db) 0 ts)"
    by (rule lookup_fid_cases[OF assms(1) tree_ok_castable[OF assms(2)], of path])
  then show ?thesis
  proof cases
    case (3 ts)
    with assms(3) have "db' = db" "g = - 1 \<or> walk (hs db) 0 ts = Found g"
      by (auto simp: found_fid_def split: found.splits)
    with root walk_root_in_range[OF assms(2), of ts g] show ?thesis by auto
  qed (use root assms(3) in auto)
qed

lemma commit_keeps:
  assumes "idle db" and "tree_ok (view db)" and "\<forall>c\<in>set cs. is_write c \<and> safe_write (fids (view db)) c"
    and "commit R cs db = (r, db')"
  shows "idle db' \<and> tree_ok (view db')"
proof -
  obtain db2 where "commit R cs db = (0, db2)" "idle db2"
    "view db2 = (view db)\<lparr>hashes := apply_writes cs (hs db)\<rparr>"
    using commit_idle[OF assms(1), of cs] assms(3) by blast
  with assms show ?thesis using tree_ok_writes[of "view db" cs] by simp
qed

text \<open>The common end of the operations: look the parent up, then commit.\<close>

lemma update_keeps:
  assumes "idle db" and "tree_ok (view db)"
    and "and_then (lookup_fid R path db) (\<lambda>(p, db1).
      if p < 0 then Ret (- 1, db1) else Ret (commit R (ws p) db1)) = Ret (r, db')"
    and "\<And>p. 0 \<le> p \<Longrightarrow> p \<le> fids (view db) \<Longrightarrow>
      \<forall>c\<in>set (ws p). is_write c \<and> safe_write (fids (view db)) c"
  shows "idle db' \<and> tree_ok (view db')"
proof -
  from assms(3) obtain p db1 where p: "lookup_fid R path db = Ret (p, db1)"
    "(if p < 0 then Ret (- 1, db1) else Ret (commit R (ws p) db1)) = Ret (r, db')"
    by (auto simp: and_then_eq_Ret)
  from lookup_any[OF assms(1,2) p(1)] have "db1 = db" "p \<le> fids (view db)" by auto
  with p(2) assms(1,2) commit_keeps[OF assms(1,2) assms(4)[of p]] show ?thesis
    by (cases "p < 0") auto
qed

lemma mkdir_keeps:
  assumes "idle db" and "tree_ok (view db)" and "fids (view db) + 1 < 2 ^ 31"
    and "vfs_mkdir R now path mode uid gid db = Ret (r, db')"
  shows "idle db' \<and> tree_ok (view db')"
proof -
  obtain db1 where 1: "get_new_fid R db = Ret (fids (view db) + 1, db1)" "idle db1"
    "view db1 = (view db)\<lparr>counters := (counters (view db))(''fid_counter'' := fids (view db) + 1)\<rparr>"
    by (rule new_fid[OF assms(1)])
  have ok1: "tree_ok (view db1)" unfolding 1(3) by (rule tree_ok_count[OF assms(2,3)])
  have f1: "fids (view db1) = fids (view db) + 1" by (simp add: 1(3) fids_def)
  have "0 \<le> fids (view db)" using assms(2) by (simp add: tree_ok_def)
  then have e: "entry_ok (fids (view db1)) (fmt_u (fids (view db1)))" "entry_ok (fids (view db1)) ''-1''"
    and f0: "0 \<le> fids (view db1)"
    using assms(3) f1 by (auto intro: entry_ok_fmt_u) (simp add: entry_ok_def)
  have "\<forall>c\<in>set (mkdir_writes (fids (view db1)) p (entry_name path) uid gid now).
      is_write c \<and> safe_write (fids (view db1)) c" if "0 \<le> p" "p \<le> fids (view db1)" for p
    using e f0 that by (simp add: mkdir_writes_def safe_write_dirent safe_write_stat)
  then show ?thesis
    using update_keeps[OF 1(2) ok1] assms(4) by (simp add: vfs_mkdir_def 1(1) f1 outcome_simps)
qed

lemma remove_keeps:
  assumes "idle db" and "tree_ok (view db)" and "vfs_remove R path db = Ret (r, db')"
  shows "idle db' \<and> tree_ok (view db')"
proof -
  from assms(3) obtain f db1 where f: "lookup_fid R path db = Ret (f, db1)"
    "(if f < 0 then Ret (- 1, db1) else and_then (lookup_fid R (parentpath path) db1) (\<lambda>(p, db2).
       if p < 0 then Ret (- 1, db2)
       else Ret (commit R [HDEL (dirent_key p) (entry_name path), DEL (stat_key f)] db2))) = Ret (r, db')"
    by (auto simp: vfs_remove_def and_then_eq_Ret)
  from lookup_any[OF assms(1,2) f(1)] have "db1 = db" by simp
  with f(2) assms(1,2) update_keeps[OF assms(1,2)] show ?thesis by (cases "f < 0") auto
qed

lemma rmdir_keeps:
  assumes "idle db" and "tree_ok (view db)" and "vfs_rmdir R path db = Ret (r, db')"
  shows "idle db' \<and> tree_ok (view db')"
proof -
  from assms(3) obtain f db1 where f: "lookup_fid R path db = Ret (f, db1)"
    by (auto simp: vfs_rmdir_def and_then_eq_Ret)
  from lookup_any[OF assms(1,2) f(1)] have "db1 = db" by simp
  with assms f update_keeps[OF assms(1,2)] show ?thesis
    by (auto simp: vfs_rmdir_def outcome_simps query_hlen split: if_splits)
qed

lemma rename_keeps:
  assumes "idle db" and "tree_ok (view db)" and "vfs_rename R path newpath db = Ret (r, db')"
  shows "idle db' \<and> tree_ok (view db')"
proof -
  from assms(3) obtain f db1 where f: "lookup_fid R path db = Ret (f, db1)"
    by (auto simp: vfs_rename_def and_then_eq_Ret)
  from lookup_any[OF assms(1,2) f(1)] have f1: "db1 = db" "f \<le> fids (view db)" by auto
  show ?thesis
  proof (cases "f < 0")
    case True
    with f f1 assms show ?thesis by (simp add: vfs_rename_def outcome_simps)
  next
    case False
    with f f1 assms(3) obtain p db2 where p: "lookup_fid R (parentpath path) db = Ret (p, db2)"
      by (auto simp: vfs_rename_def and_then_eq_Ret outcome_simps)
    from lookup_any[OF assms(1,2) p] have p1: "db2 = db" "p \<le> fids (view db)" by auto
    have "fids (view db) < 2 ^ 31" using assms(2) by (simp add: tree_ok_def)
    then have "entry_ok (fids (view db)) (fmt_u f)" using False f1 by (intro entry_ok_fmt_u) auto
    with f1 False have "\<forall>c\<in>set [HDEL (dirent_key p) (entry_name path),
        HSET (dirent_key p) (entry_name newpath) (fmt_u f)]. is_write c \<and> safe_write (fids (view db)) c"
      if "0 \<le> p" using p1 that by (simp add: safe_write_dirent)
    note keep = commit_keeps[OF assms(1,2) this]
    have "(if p < 0 then (- 1, db) else commit R [HDEL (dirent_key p) (entry_name path),
        HSET (dirent_key p) (entry_name newpath) (fmt_u f)] db) = (r, db')"
      using assms(3) False f f1 p p1 by (auto simp: vfs_rename_def outcome_simps split: if_splits)
    then show ?thesis using keep assms(1,2) by (cases "p < 0") auto
  qed
qed

lemma save_keeps:
  assumes "idle db" and "tree_ok (view db)" and "0 \<le> f" and "f \<le> fids (view db)"
    and "save_new_file R now path mode sz uid gid f slave db = Ret (r, db')"
  shows "idle db' \<and> tree_ok (view db')"
proof (cases "si_port slave")
  case None
  from assms(5) obtain p db1 where p: "lookup_fid R (parentpath path) db = Ret (p, db1)"
    by (auto simp: save_new_file_def and_then_eq_Ret)
  from lookup_any[OF assms(1,2) p] assms p None show ?thesis
    by (auto simp: save_new_file_def outcome_simps split: if_splits)
next
  case (Some port)
  have "fids (view db) < 2 ^ 31" using assms(2) by (simp add: tree_ok_def)
  then have "entry_ok (fids (view db)) (fmt_u f)" using assms(3,4) by (intro entry_ok_fmt_u) auto
  then have w: "\<forall>c\<in>set (save_writes f p (entry_name path) sz uid gid now (si_host slave) port).
      is_write c \<and> safe_write (fids (view db)) c" if "0 \<le> p" "p \<le> fids (view db)" for p
    using that assms(3,4) by (simp add: save_writes_def safe_write_dirent safe_write_stat)
  show ?thesis
    by (rule update_keeps[OF assms(1,2) assms(5)[unfolded save_new_file_def Some option.case]]) (rule w)
qed

end

end
