(* ===== verification/VfsProps.thy ===== *)
theory VfsProps
  imports VfsOps
begin

text \<open>
  The properties of the virtual file system, for every database that obeys the laws of
  \<open>redis_server\<close>; the examples run them on the in-memory server.
\<close>

section \<open>An example tree\<close>

text \<open>The root with a directory \<open>d\<close> (file id 1) and a file \<open>f\<close> (file id 2).\<close>

definition demo :: mem where
  "demo = \<lparr>m_hash = (\<lambda>_. [])(dirent_key 0 := [(''.foo'', ''-1''), (''d'', fmt_u 1), (''f'', fmt_u 2)],
       dirent_key 1 := [(''.placeholder'', ''-1'')], stat_key 1 := [(''st_mode'', fmt_u 16895)],
       stat_key 2 := [(''st_mode'', fmt_u 33279)]),
     m_count = (\<lambda>_. 0)(''fid_counter'' := 5), m_queue = None\<rparr>"

lemma demo_usable: "usable mem_view mem_live demo"
  by (simp add: mem_usable demo_def mem_live_def)

lemma demo_hashes:
  "hashes (mem_view demo) (dirent_key f) =
     (if f mod 2 ^ 32 = 0 then [''.foo'' \<mapsto> ''-1'', ''d'' \<mapsto> fmt_u 1, ''f'' \<mapsto> fmt_u 2]
      else if f mod 2 ^ 32 = 1 then [''.placeholder'' \<mapsto> ''-1''] else Map.empty)"
  "hashes (mem_view demo) (stat_key f) =
     (if f mod 2 ^ 32 = 1 then [''st_mode'' \<mapsto> fmt_u 16895]
      else if f mod 2 ^ 32 = 2 then [''st_mode'' \<mapsto> fmt_u 33279] else Map.empty)"
  by (auto simp: mem_view_def demo_def fun_eq_iff)

lemma demo_fids [simp]: "fids (mem_view demo) = 5"
  by (simp add: fids_def mem_view_def demo_def)

lemma demo_tree: "tree_ok (mem_view demo)"
proof -
  have "entry_ok 5 ''-1''" "entry_ok 5 (fmt_u 1)" "entry_ok 5 (fmt_u 2)"
    by (simp add: entry_ok_def) (intro entry_ok_fmt_u; simp)+
  then show ?thesis by (auto simp: tree_ok_def fresh_def demo_hashes small_mod split: if_splits)
qed

lemma demo_next: "next_fid (fmt_u 1) = 1" "next_fid (fmt_u 2) = 2"
  by (simp_all add: next_fid_fmt_u)

lemma demo_walks:
  "walk (hashes (mem_view demo)) 0 [] = Found 0"
  "walk (hashes (mem_view demo)) 0 [''d''] = Found 1"
  "walk (hashes (mem_view demo)) 0 [''f''] = Found 2"
  "walk (hashes (mem_view demo)) 0 [''f'', ''x''] = Endless"
  by (simp_all add: demo_hashes demo_next)

lemma demo_off_path:
  "off_path (hashes (mem_view demo)) [] 0" "off_path (hashes (mem_view demo)) [''d''] 1"
  by (simp_all add: off_path_def demo_hashes)

lemma demo_plain: "plain ''d''" "plain ''f''" "plain ''n''" "plain ''x''"
  by (simp_all add: plain_def)

section \<open>Effects on the hashes\<close>

lemma apply_mkdir:
  assumes "0 \<le> p" "p < f" "f < 2 ^ 31" "h (dirent_key f) = Map.empty" "h (stat_key f) = Map.empty"
  shows "apply_writes (mkdir_writes f p t uid gid now) h =
    h(dirent_key p := (h (dirent_key p))(t \<mapsto> fmt_u f),
      dirent_key f := [''.placeholder'' \<mapsto> ''-1''],
      stat_key f := [''st_size'' \<mapsto> fmt_u 4096, ''st_mode'' \<mapsto> fmt_u 16895, ''st_uid'' \<mapsto> fmt_u uid,
        ''st_gid'' \<mapsto> fmt_u gid, ''st_mtime'' \<mapsto> fmt_u now])"
  using assms by (auto simp: mkdir_writes_def small_mod fun_eq_iff)

lemma apply_save:
  "apply_writes (save_writes f p t sz uid gid now host port) h =
    h(dirent_key p := (h (dirent_key p))(t \<mapsto> fmt_u f),
      stat_key f := (h (stat_key f))(''st_mode'' \<mapsto> fmt_u 33279, ''st_size'' \<mapsto> fmt_u sz, ''st_uid'' \<mapsto> fmt_u uid,
        ''st_gid'' \<mapsto> fmt_u gid, ''st_mtime'' \<mapsto> fmt_u now, ''slave_host'' \<mapsto> host,
        ''slave_port'' \<mapsto> fmt_u (int port)))"
  by (auto simp: save_writes_def fun_eq_iff)

lemma atoi_parts [simp]: "atoi (fmt_u i) = to_int i" "to_unsigned (to_int i) = i mod 2 ^ 32"
  by (simp_all only: atoi_fmt_u to_unsigned_to_int)

lemma mode_parts [simp]:
  "to_int 4096 = 4096" "to_int 16895 = 16895" "to_unsigned 16895 = 16895"
  "to_int 33279 = 33279" "to_unsigned 33279 = 33279"
  by (simp_all add: to_int_small to_unsigned_def)

section \<open>The properties\<close>

text \<open>C15: A path lookup is the walk through the directory entries: the file id that the entries of the
  path lead to, \<open>-1\<close> when a directory on the way does not have the next name, and no return at all
  when the walk comes to something without directory entries (a regular file in the middle of the
  path, or a directory whose last entry was removed): the loop then asks the same question forever.\<close>

theorem lookup_fid_walk:
  assumes "redis_server R view live" and "usable view live db" and "castable (hashes (view db))"
    and "\<forall>t\<in>set ts. plain t"
  shows "lookup_fid R (canonical ts) db = (case walk (hashes (view db)) 0 ts of
      Found g \<Rightarrow> Ret (g, db) | Missing \<Rightarrow> Ret (- 1, db) | Endless \<Rightarrow> Hang)"
  using redis_server.lookup_canonical[OF assms] by (simp add: redis_server.found_fid_def[OF assms(1)])

theorem lookup_fid_walk_witness:
  "lookup_fid mem_redis ''/d'' demo = Ret (1, demo) \<and> lookup_fid mem_redis ''/f/x'' demo = Hang"
proof -
  note l = lookup_fid_walk[OF mem.redis_server_axioms demo_usable tree_ok_castable[OF demo_tree]]
  show ?thesis using l[of "[''d'']"] l[of "[''f'', ''x'']"] demo_plain
    by (simp add: demo_walks del: walk.simps)
qed




lemma saved_file:
  assumes "redis_server R view live" and "usable view live db" and "tree_ok (view db)"
    and "\<forall>s\<in>set ts. plain s" and "plain t"
    and "walk (hashes (view db)) 0 ts = Found p" and "0 \<le> p" and "off_path (hashes (view db)) ts p"
    and "0 \<le> f" and "f \<le> fids (view db)" and "si_port slave = Some port" and "port < 2 ^ 16"
  shows "\<exists>db'. save_new_file R now (canonical (ts @ [t])) mode sz uid gid f slave db = Ret (0, db') \<and>
    usable view live db' \<and> tree_ok (view db') \<and> counters (view db') = counters (view db) \<and>
    lookup_fid R (canonical (ts @ [t])) db' = Ret (f, db') \<and>
    vfs_stat R (canonical (ts @ [t])) db' = Ret (Some \<lparr>st_mode = 33279, st_size = to_int sz,
      st_uid = uid mod 2 ^ 32, st_gid = gid mod 2 ^ 32, st_mtime = to_int now\<rparr>, db') \<and>
    lookup_slave_info R (canonical (ts @ [t])) db' = Ret (slave, db') \<and>
    (\<forall>us g. walk (hashes (view db)) 0 us = Found g \<and> off_path (hashes (view db)) us p \<longrightarrow>
      walk (hashes (view db')) 0 us = Found g)"
proof -
  let ?h = "hashes (view db)" and ?path = "canonical (ts @ [t])"
  note cast = tree_ok_castable[OF assms(3)]
  obtain db' where db': "save_new_file R now ?path mode sz uid gid f slave db = Ret (0, db')"
    "usable view live db'"
    "view db' = (view db)\<lparr>hashes := apply_writes (save_writes f p t sz uid gid now (si_host slave) port) ?h\<rparr>"
    by (rule redis_server.save_run[OF assms(1,2) cast assms(4-7,11)])
  let ?h' = "hashes (view db')"
  have h': "?h' = ?h(dirent_key p := (?h (dirent_key p))(t \<mapsto> fmt_u f), stat_key f := ?h' (stat_key f))"
    by (simp add: db'(3) apply_save fun_eq_iff)
  have st: "?h' (stat_key f) = (?h (stat_key f))(''st_mode'' \<mapsto> fmt_u 33279, ''st_size'' \<mapsto> fmt_u sz,
      ''st_uid'' \<mapsto> fmt_u uid, ''st_gid'' \<mapsto> fmt_u gid, ''st_mtime'' \<mapsto> fmt_u now,
      ''slave_host'' \<mapsto> si_host slave, ''slave_port'' \<mapsto> fmt_u (int port))"
    by (simp add: db'(3) apply_save)
  have tree': "tree_ok (view db')" by (rule redis_server.save_keeps[OF assms(1-3,9,10) db'(1), THEN conjunct2])
  then have cast': "castable ?h'" by (rule tree_ok_castable)
  have keep: "walk ?h' 0 us = Found g" if "walk ?h 0 us = Found g" "off_path ?h us p" for us g
    by (rule walk_kept[OF that]) (subst h', simp)
  have "f < 2 ^ 31" using assms(3,10) by (simp add: tree_ok_def)
  moreover have "?h' (dirent_key p) t = Some (fmt_u f)" by (subst h') simp
  ultimately have w: "walk ?h' 0 (ts @ [t]) = Found f"
    using walk_to_entry keep[OF assms(6,8)] next_fid_fmt_u[of f] assms(9) by fastforce
  have pl: "\<forall>s\<in>set (ts @ [t]). plain s" using assms(4,5) by simp
  note found = db'(2) cast' pl w
  have ne: "?h' (stat_key f) \<noteq> Map.empty" by (simp add: st)
  have "attributes (?h' (stat_key f)) = \<lparr>st_mode = 33279, st_size = to_int sz,
      st_uid = uid mod 2 ^ 32, st_gid = gid mod 2 ^ 32, st_mtime = to_int now\<rparr>"
    by (simp add: st attributes_def attr_def)
  moreover have "attr (?h' (stat_key f)) ''slave_host'' = si_host slave"
    "to_ushort (atoi (attr (?h' (stat_key f)) ''slave_port'')) = port"
    using assms(12) by (simp_all add: st attr_def to_ushort_def to_int_small)
  ultimately show ?thesis
    using db'(1,2) arg_cong[OF db'(3), of counters] tree' keep ne redis_server.stat_found[OF assms(1) found assms(9)] assms(11)
      redis_server.lookup_canonical[OF assms(1) db'(2) cast' pl] w
      redis_server.slave_found[OF assms(1) found ne]
    by (intro exI[of _ db']) (simp add: redis_server.found_fid_def[OF assms(1)])
qed

text \<open>C23: A stored file is there: after \<open>save_new_file\<close> with a new file id the lookup of its path
  finds the id, \<open>stat\<close> reads mode 33279 (a regular file), the owner, the time and the size as far as
  a signed 32-bit integer holds it, \<open>lookup_slave_info\<close> names the slave that has the contents, and
  every path that does not go through the directory leads where it led.\<close>

theorem save_new_file_round_trip:
  assumes "redis_server R view live" and "usable view live db" and "tree_ok (view db)"
    and "\<forall>s\<in>set ts. plain s" and "plain t"
    and "walk (hashes (view db)) 0 ts = Found p" and "0 \<le> p" and "off_path (hashes (view db)) ts p"
    and "0 \<le> f" and "f \<le> fids (view db)" and "si_port slave = Some port" and "port < 2 ^ 16"
  shows "\<exists>db'. save_new_file R now (canonical (ts @ [t])) mode sz uid gid f slave db = Ret (0, db') \<and>
    lookup_fid R (canonical (ts @ [t])) db' = Ret (f, db') \<and>
    vfs_stat R (canonical (ts @ [t])) db' = Ret (Some \<lparr>st_mode = 33279, st_size = to_int sz,
      st_uid = uid mod 2 ^ 32, st_gid = gid mod 2 ^ 32, st_mtime = to_int now\<rparr>, db') \<and>
    lookup_slave_info R (canonical (ts @ [t])) db' = Ret (slave, db') \<and>
    (\<forall>us g. walk (hashes (view db)) 0 us = Found g \<and> off_path (hashes (view db)) us p \<longrightarrow>
      walk (hashes (view db')) 0 us = Found g)"
  using saved_file[OF assms] by blast

theorem save_new_file_round_trip_witness:
  "\<exists>db'. save_new_file mem_redis 7 ''/d/n'' 0 5000000000 1 1 3 \<lparr>si_host = ''s1'', si_port = Some 9090\<rparr> demo
       = Ret (0, db') \<and>
     vfs_stat mem_redis ''/d/n'' db' = Ret (Some \<lparr>st_mode = 33279, st_size = 705032704,
       st_uid = 1, st_gid = 1, st_mtime = 7\<rparr>, db') \<and>
     lookup_slave_info mem_redis ''/d/n'' db' = Ret (\<lparr>si_host = ''s1'', si_port = Some 9090\<rparr>, db')"
proof -
  have "\<forall>s\<in>set [''d'']. plain s" using demo_plain by simp
  from save_new_file_round_trip[OF mem.redis_server_axioms demo_usable demo_tree this demo_plain(3)
      demo_walks(2) _ demo_off_path(2), of 3 "\<lparr>si_host = ''s1'', si_port = Some 9090\<rparr>" 9090 7 0 5000000000 1 1]
  show ?thesis by (auto simp: to_int_def)
qed

text \<open>C26: After a file is removed its attributes are gone, and its path is not found any more, unless
  it was the last entry of its directory: then the lookup of every path through that directory never
  returns. (The placeholder of a directory is there to prevent this, but a client can overwrite it by
  storing or renaming to its name, and then remove it.)\<close>

theorem remove_deletes:
  assumes "redis_server R view live" and "usable view live db" and "tree_ok (view db)"
    and "\<forall>s\<in>set ts. plain s" and "plain t"
    and "walk (hashes (view db)) 0 ts = Found p" and "0 \<le> p" and "off_path (hashes (view db)) ts p"
    and "walk (hashes (view db)) 0 (ts @ [t]) = Found f" and "0 \<le> f"
  shows "\<exists>db'. vfs_remove R (canonical (ts @ [t])) db = Ret (0, db') \<and>
    hashes (view db') (stat_key f) = Map.empty \<and>
    lookup_fid R (canonical (ts @ [t])) db' =
      (if dom (hashes (view db) (dirent_key p)) \<subseteq> {t} then Hang else Ret (- 1, db'))"
proof -
  let ?h = "hashes (view db)" and ?path = "canonical (ts @ [t])"
  note cast = tree_ok_castable[OF assms(3)]
  obtain db' where db': "vfs_remove R ?path db = Ret (0, db')" "usable view live db'"
    "view db' = (view db)\<lparr>hashes := apply_writes [HDEL (dirent_key p) t, DEL (stat_key f)] ?h\<rparr>"
    by (rule redis_server.remove_run[OF assms(1,2) cast assms(4-7,9,10)])
  let ?h' = "hashes (view db')"
  have h': "?h' = ?h(dirent_key p := (?h (dirent_key p))(t := None), stat_key f := Map.empty)"
    by (simp add: db'(3) fun_eq_iff)
  have "tree_ok (view db')" by (rule redis_server.remove_keeps[OF assms(1-3) db'(1), THEN conjunct2])
  then have cast': "castable ?h'" by (rule tree_ok_castable)
  have w: "walk ?h' 0 ts = Found p" by (rule walk_kept[OF assms(6,8)]) (simp add: h')
  have e: "(?h (dirent_key p))(t := None) = Map.empty \<longleftrightarrow> dom (?h (dirent_key p)) \<subseteq> {t}"
    by (auto simp: fun_eq_iff dom_def)
  have "walk ?h' 0 (ts @ [t]) = walk ?h' p [t]" by (simp add: walk_append w)
  then have "walk ?h' 0 (ts @ [t]) = (if dom (?h (dirent_key p)) \<subseteq> {t} then Endless else Missing)"
    by (simp add: h' flip: e)
  moreover have "\<forall>s\<in>set (ts @ [t]). plain s" using assms(4,5) by simp
  ultimately have "lookup_fid R ?path db' = (if dom (?h (dirent_key p)) \<subseteq> {t} then Hang else Ret (- 1, db'))"
    using redis_server.lookup_canonical[OF assms(1) db'(2) cast', of "ts @ [t]"]
    by (simp add: redis_server.found_fid_def[OF assms(1)])
  moreover have "?h' (stat_key f) = Map.empty" by (simp add: h')
  ultimately show ?thesis using db'(1) by blast
qed

theorem remove_deletes_witness:
  "\<exists>db'. vfs_remove mem_redis ''/f'' demo = Ret (0, db') \<and> lookup_fid mem_redis ''/f'' db' = Ret (- 1, db')"
proof -
  have "\<not> dom (hashes (mem_view demo) (dirent_key 0)) \<subseteq> {''f''}" by (simp add: demo_hashes)
  then show ?thesis
    using remove_deletes[OF mem.redis_server_axioms demo_usable demo_tree _ demo_plain(2) demo_walks(1) _
        demo_off_path(1), of 2] demo_walks(3) by fastforce
qed



text \<open>A rename stays in its directory: whatever directory the new path names, the new entry is made
  in the directory of the old path (the parent of the new path is looked up with the old path). Every
  other directory and all attributes are as they were.\<close>

theorem rename_stays_in_directory:
  assumes "redis_server R view live" and "usable view live db" and "tree_ok (view db)"
    and "\<forall>s\<in>set ts. plain s" and "plain t" and "plain u"
    and "walk (hashes (view db)) 0 ts = Found p" and "0 \<le> p" and "off_path (hashes (view db)) ts p"
    and "walk (hashes (view db)) 0 (ts @ [t]) = Found f" and "0 \<le> f"
  shows "\<exists>db'. vfs_rename R (canonical (ts @ [t])) (canonical (us @ [u])) db = Ret (0, db') \<and>
    lookup_fid R (canonical (ts @ [u])) db' = Ret (f, db') \<and>
    hashes (view db') = (hashes (view db))
      (dirent_key p := (hashes (view db) (dirent_key p))(t := None, u := Some (fmt_u f)))"
proof -
  let ?h = "hashes (view db)"
  note cast = tree_ok_castable[OF assms(3)]
  obtain db' where db': "vfs_rename R (canonical (ts @ [t])) (canonical (us @ [u])) db = Ret (0, db')"
    "usable view live db'"
    "view db' = (view db)\<lparr>hashes := apply_writes [HDEL (dirent_key p) t, HSET (dirent_key p) u (fmt_u f)] ?h\<rparr>"
    by (rule redis_server.rename_run[OF assms(1,2) cast assms(4-8,10,11)])
  let ?h' = "hashes (view db')"
  have h': "?h' = ?h(dirent_key p := (?h (dirent_key p))(t := None, u := Some (fmt_u f)))"
    by (simp add: db'(3))
  have "tree_ok (view db')" by (rule redis_server.rename_keeps[OF assms(1-3) db'(1), THEN conjunct2])
  then have cast': "castable ?h'" by (rule tree_ok_castable)
  have "f < 2 ^ 31" using walk_root_in_range[OF assms(3,10)] assms(3) by (simp add: tree_ok_def)
  moreover have "walk ?h' 0 ts = Found p" by (rule walk_kept[OF assms(7,9)]) (simp add: h')
  moreover have "?h' (dirent_key p) u = Some (fmt_u f)" by (simp add: h')
  ultimately have "walk ?h' 0 (ts @ [u]) = Found f"
    using walk_to_entry[of ?h' ts p u] next_fid_fmt_u[of f] assms(11) by simp
  moreover have "\<forall>s\<in>set (ts @ [u]). plain s" using assms(4,6) by simp
  ultimately have "lookup_fid R (canonical (ts @ [u])) db' = Ret (f, db')"
    using redis_server.lookup_canonical[OF assms(1) db'(2) cast', of "ts @ [u]"]
    by (simp add: redis_server.found_fid_def[OF assms(1)])
  with db'(1) h' show ?thesis by blast
qed

theorem rename_stays_in_directory_witness:
  "\<exists>db'. vfs_rename mem_redis ''/f'' ''/d/x'' demo = Ret (0, db') \<and> lookup_fid mem_redis ''/x'' db' = Ret (2, db')"
  using rename_stays_in_directory[OF mem.redis_server_axioms demo_usable demo_tree _ demo_plain(2,4)
      demo_walks(1) _ demo_off_path(1), of 2 "[''d'']"] demo_walks(3) by fastforce

text \<open>C18: The invariant of the tree is kept by every operation, for every path and whether the operation
  succeeds or not: all file ids in use come from the counter, so that the next file id is new, and every
  directory entry is such a file id or the placeholder, so that no lookup can fail to convert one.\<close>

theorem operations_keep_tree:
  assumes "redis_server R view live" and "usable view live db" and "tree_ok (view db)"
  shows "(\<forall>now path mode uid gid r db'. fids (view db) + 1 < 2 ^ 31 \<and>
        vfs_mkdir R now path mode uid gid db = Ret (r, db') \<longrightarrow> usable view live db' \<and> tree_ok (view db')) \<and>
    (\<forall>now path mode sz uid gid f slave r db'. 0 \<le> f \<and> f \<le> fids (view db) \<and>
        save_new_file R now path mode sz uid gid f slave db = Ret (r, db') \<longrightarrow>
        usable view live db' \<and> tree_ok (view db')) \<and>
    (\<forall>path r db'. vfs_remove R path db = Ret (r, db') \<longrightarrow> usable view live db' \<and> tree_ok (view db')) \<and>
    (\<forall>path r db'. vfs_rmdir R path db = Ret (r, db') \<longrightarrow> usable view live db' \<and> tree_ok (view db')) \<and>
    (\<forall>path path' r db'. vfs_rename R path path' db = Ret (r, db') \<longrightarrow>
        usable view live db' \<and> tree_ok (view db')) \<and>
    (fids (view db) + 1 < 2 ^ 31 \<longrightarrow> (\<exists>db'. get_new_fid R db = Ret (fids (view db) + 1, db') \<and>
        fresh (view db') (fids (view db) + 1) \<and> usable view live db' \<and> tree_ok (view db')))"
proof -
  have new: "\<exists>db'. get_new_fid R db = Ret (fids (view db) + 1, db') \<and>
        fresh (view db') (fids (view db) + 1) \<and> usable view live db' \<and> tree_ok (view db')"
    if c: "fids (view db) + 1 < 2 ^ 31"
  proof -
    obtain db' where "get_new_fid R db = Ret (fids (view db) + 1, db')" "usable view live db'"
      "view db' = (view db)\<lparr>counters := (counters (view db))(''fid_counter'' := fids (view db) + 1)\<rparr>"
      by (rule redis_server.new_fid[OF assms(1,2)])
    moreover have "fresh (view db) (fids (view db) + 1)" using assms(3) c by (simp add: tree_ok_def)
    ultimately show ?thesis using tree_ok_count[OF assms(3) c] by (simp add: fresh_def)
  qed
  note a = assms
  show ?thesis
  proof (intro conjI, goal_cases)
    case 1 then show ?case using redis_server.mkdir_keeps[OF a] by blast
  next
    case 2 then show ?case using redis_server.save_keeps[OF a] by blast
  next
    case 3 then show ?case using redis_server.remove_keeps[OF a] by blast
  next
    case 4 then show ?case using redis_server.rmdir_keeps[OF a] by blast
  next
    case 5 then show ?case using redis_server.rename_keeps[OF a] by blast
  next
    case 6 then show ?case using new by blast
  qed
qed

theorem operations_keep_tree_witness:
  "\<exists>db'. vfs_mkdir mem_redis 7 ''/d/n'' 511 1 1 demo = Ret (0, db') \<and> tree_ok (mem_view db')"
proof -
  have d: "\<forall>s\<in>set [''d'']. plain s" using demo_plain by simp
  obtain db' where db': "vfs_mkdir mem_redis 7 (canonical ([''d''] @ [''n''])) 511 1 1 demo = Ret (0, db')"
    by (rule mem.mkdir_run[OF demo_usable tree_ok_castable[OF demo_tree] d demo_plain(3) demo_walks(2)]) simp_all
  moreover have "tree_ok (mem_view db')"
    using operations_keep_tree[OF mem.redis_server_axioms demo_usable demo_tree] db' by simp
  ultimately show ?thesis by auto
qed

fun read_entries :: "nat \<Rightarrow> vdir \<Rightarrow> (dirent list \<times> vdir) outcome" where
  "read_entries 0 dp = Ret ([], dp)"
| "read_entries (Suc n) dp = and_then (readdir dp) (\<lambda>(e, dp'). case e of
      None \<Rightarrow> Ret ([], dp')
    | Some d \<Rightarrow> and_then (read_entries n dp') (\<lambda>(ds, dp''). Ret (d # ds, dp'')))"

lemma read_entries_all:
  "\<forall>n\<in>fst ` set m. length n < 256 \<Longrightarrow> read_entries (length m + 1) (Some m) =
     Ret (map (\<lambda>(n, f). \<lparr>d_name = n, d_ino = f mod 2 ^ 64\<rparr>) m, None)"
  by (induction m) (auto simp: readdir_def outcome_simps)

text \<open>Listing a directory: \<open>opendir\<close> followed by calls of \<open>readdir\<close> until it answers NULL gives every
  entry of the directory exactly once, in the order of the names, and then the listing is released
  (one more call would use it after it was freed). Names must fit \<open>d_name\<close>.\<close>

theorem readdir_enumerates:
  assumes "redis_server R view live" and "usable view live db" and "tree_ok (view db)"
    and "\<forall>s\<in>set ts. plain s" and "walk (hashes (view db)) 0 ts = Found g" and "0 \<le> g"
    and "hashes (view db) (dirent_key g) \<noteq> Map.empty"
    and "\<forall>n\<in>dom (hashes (view db) (dirent_key g)). length n < 256"
  shows "\<exists>m ds. opendir R (canonical ts) db = Ret (Some m, db) \<and>
    read_entries (length m + 1) (Some m) = Ret (ds, None) \<and>
    sorted_wrt (<) (map d_name ds) \<and> set (map d_name ds) = dom (hashes (view db) (dirent_key g))"
proof -
  let ?h = "hashes (view db) (dirent_key g)"
  note cast = tree_ok_castable[OF assms(3)]
  obtain m where m: "strict_keys m" "map_of m = (\<lambda>n. Option.bind (?h n) lexical_ll)"
    "opendir R (canonical ts) db = Ret (if ?h = Map.empty then None else Some m, db)"
    by (rule redis_server.opendir_found[OF assms(1,2) cast assms(4-6)])
  have "Option.bind (?h n) lexical_ll \<noteq> None \<longleftrightarrow> ?h n \<noteq> None" for n
    using cast by (cases "?h n") (auto simp: castable_def)
  then have keys: "fst ` set m = dom ?h" using m(2) by (auto simp: dom_def simp flip: dom_map_of_conv_image_fst)
  let ?ds = "map (\<lambda>(n, f). \<lparr>d_name = n, d_ino = f mod 2 ^ 64\<rparr>) m"
  have names: "map d_name ?ds = map fst m" by auto
  have "read_entries (length m + 1) (Some m) = Ret (?ds, None)"
    using assms(8) keys by (intro read_entries_all) simp
  moreover have "sorted_wrt (<) (map d_name ?ds)" "set (map d_name ?ds) = dom ?h"
    using m(1) keys unfolding names by (simp_all add: strict_keys_def)
  moreover have "opendir R (canonical ts) db = Ret (Some m, db)" using m(3) assms(7) by simp
  ultimately show ?thesis by blast
qed

theorem readdir_enumerates_witness:
  "\<exists>m ds. opendir mem_redis ''/'' demo = Ret (Some m, demo) \<and> read_entries (length m + 1) (Some m) = Ret (ds, None) \<and>
     set (map d_name ds) = {''.foo'', ''d'', ''f''}"
proof -
  have "dom (hashes (mem_view demo) (dirent_key 0)) = {''.foo'', ''d'', ''f''}"
    "hashes (mem_view demo) (dirent_key 0) \<noteq> Map.empty"
    by (auto simp: demo_hashes)
  then show ?thesis
    using readdir_enumerates[OF mem.redis_server_axioms demo_usable demo_tree _ demo_walks(1)]
    by (simp del: read_entries.simps) blast
qed

end
