(* ===== verification/ShellProps.thy ===== *)
theory ShellProps
  imports Shell VfsProps
begin

text \<open>
  Properties of the command interpreter: the invariant of a session and that every command keeps it,
  what a client that is not logged in or lacks privileges can do, the login.
\<close>

section \<open>The invariant of a session\<close>

text \<open>
  The working directory is canonical and fits its buffer, a user entry is counted once by a client that
  is logged in and not at all otherwise, and a pending rename belongs to a user who may delete files.
\<close>

definition session_ok :: "client \<Rightarrow> bool" where
  "session_ok c \<longleftrightarrow> canonical_path (szWorkingDir c) \<and> length (szWorkingDir c) \<le> MAX_PATH \<and>
     (case pUser c of None \<Rightarrow> \<not> bIsLogged c
      | Some u \<Rightarrow> uiNumberOfClient u = (if bIsLogged c then 1 else 0)) \<and>
     (szRenameFromPath c \<noteq> [] \<longrightarrow> may c DELETEFILE)"

text \<open>The part of the state the invariant reads.\<close>

definition core :: "client \<Rightarrow> string \<times> user_entry option \<times> bool \<times> string" where
  "core c = (szWorkingDir c, pUser c, bIsLogged c, szRenameFromPath c)"

lemma session_ok_core: "core c' = core c \<Longrightarrow> session_ok c' = session_ok c"
  by (auto simp: session_ok_def core_def may_def split: option.splits)

lemma core_updates [simp]:
  "core (c\<lparr>CtrlSock := a1\<rparr>) = core c" "core (c\<lparr>eStatus := a2\<rparr>) = core c"
  "core (c\<lparr>ulDataIp := a3\<rparr>) = core c" "core (c\<lparr>usDataPort := a4\<rparr>) = core c"
  "core (c\<lparr>tTimeoutTime := a5\<rparr>) = core c" "core (c\<lparr>nPasswordTries := a6\<rparr>) = core c"
  "core (c\<lparr>DataSock := a7\<rparr>) = core c" "core (c\<lparr>eDataMode := a8\<rparr>) = core c"
  "core (c\<lparr>eDataType := a9\<rparr>) = core c" "core (c\<lparr>eDataConnection := b1\<rparr>) = core c"
  "core (c\<lparr>CurrentTransfer := b2\<rparr>) = core c" "core (c\<lparr>bIsCtrlCanalOpen := b3\<rparr>) = core c"
  "core (c\<lparr>nPRET_CMD := b4\<rparr>) = core c" "core (c\<lparr>llPRET_fid := b5\<rparr>) = core c"
  "core (c\<lparr>llPRET_trans_id := b6\<rparr>) = core c" "core (c\<lparr>SlaveInfo := b7\<rparr>) = core c"
  by (simp_all add: core_def)

lemma core_Reset [simp]: "core (fst (ResetDataConnection b c)) = core c"
  by (simp add: ResetDataConnection_def)

lemma core_Reset': "ResetDataConnection b c = (c', out) \<Longrightarrow> core c' = core c"
  using core_Reset[of b c] by simp

lemma core_Open: "OpenDataConnection e c = Ret (r, c', out) \<Longrightarrow> core c' = core c"
  by (auto simp: OpenDataConnection_def Let_def and_then_eq_Ret split: if_splits prod.splits dest!: core_Reset')

lemma core_ResetTimeout [simp]: "core (ResetTimeout e c) = core c"
  by (simp add: ResetTimeout_def)

text \<open>Steps that leave the core alone.\<close>

definition keeps_core :: "client \<Rightarrow> 'db step \<Rightarrow> bool" where
  "keeps_core c m \<longleftrightarrow> (\<forall>fl c' out db'. m = Ret (fl, c', out, db') \<longrightarrow> core c' = core c)"

lemma keeps_core_intros:
  "core c' = core c \<Longrightarrow> keeps_core c (Ret (fl, c', out, db'))"
  "core c' = core c \<Longrightarrow> keeps_core c (answer e t c' db')"
  "keeps_core c (Crash f)"
  by (simp_all add: keeps_core_def answer_def)

lemma keeps_core_and_then: "(\<And>x. m = Ret x \<Longrightarrow> keeps_core c (f x)) \<Longrightarrow> keeps_core c (and_then m f)"
  by (cases m) (auto simp: keeps_core_def)

lemma keeps_core_session: "keeps_core c m \<Longrightarrow> session_ok c \<Longrightarrow> m = Ret (fl, c', out, db') \<Longrightarrow> session_ok c'"
  using session_ok_core unfolding keeps_core_def by blast

lemma keeps_core_cases:
  "(P \<Longrightarrow> keeps_core c a) \<Longrightarrow> (\<not> P \<Longrightarrow> keeps_core c b) \<Longrightarrow> keeps_core c (if P then a else b)"
  "(x = None \<Longrightarrow> keeps_core c n) \<Longrightarrow> (\<And>y. x = Some y \<Longrightarrow> keeps_core c (f y)) \<Longrightarrow>
     keeps_core c (case x of None \<Rightarrow> n | Some y \<Rightarrow> f y)"
  "(\<And>a b. z = (a, b) \<Longrightarrow> keeps_core c (g a b)) \<Longrightarrow> keeps_core c (case z of (a, b) \<Rightarrow> g a b)"
  "(l = [] \<Longrightarrow> keeps_core c n) \<Longrightarrow> (\<And>v vs. l = v # vs \<Longrightarrow> keeps_core c (h v vs)) \<Longrightarrow>
     keeps_core c (case l of [] \<Rightarrow> n | v # vs \<Rightarrow> h v vs)"
  by (auto split: option.splits prod.splits list.splits)

lemmas keeps_core_rules = keeps_core_intros keeps_core_and_then

named_theorems core_steps

lemma core_simple [core_steps]:
  "keeps_core c (cmd_QUIT e c db)" "keeps_core c (cmd_CLNT e arg c db)" "keeps_core c (cmd_STRU e arg c db)"
  "keeps_core c (cmd_OPTS e arg c db)" "keeps_core c (cmd_MODE e arg c db)" "keeps_core c (cmd_TYPE e arg c db)"
  "keeps_core c (cmd_FEAT e c db)" "keeps_core c (cmd_PWD e c db)" "keeps_core c (cmd_REST e arg c db)"
  by (auto simp: cmd_QUIT_def cmd_CLNT_def cmd_STRU_def cmd_OPTS_def cmd_MODE_def cmd_TYPE_def cmd_FEAT_def
      cmd_PWD_def cmd_REST_def invalid_args_def syntax_error_def
      intro!: keeps_core_rules split: option.splits)

lemma core_PORT [core_steps]: "keeps_core c (cmd_PORT e arg c db)"
  unfolding cmd_PORT_def Let_def syntax_error_def
  by (intro keeps_core_rules keeps_core_cases; simp split: if_splits; drule core_Reset'; simp)

lemma core_PRET [core_steps]: "keeps_core c (cmd_PRET e arg c db)"
  unfolding cmd_PRET_def Let_def invalid_args_def
  by (intro keeps_core_rules keeps_core_cases; simp)

lemma core_PASV [core_steps]: "keeps_core c (cmd_PASV e c db)"
  unfolding cmd_PASV_def pasv_local_def pasv_slave_def Let_def
  by (auto split: prod.splits option.splits intro!: keeps_core_rules dest!: core_Reset')

lemma core_LIST [core_steps]: "keeps_core c (cmd_LIST e nCmd arg c db)"
  unfolding cmd_LIST_def Let_def
  by (auto split: prod.splits option.splits intro!: keeps_core_rules dest!: core_Reset' core_Open
      simp: and_then_eq_Ret)

lemma core_ABOR [core_steps]: "keeps_core c (cmd_ABOR e c db)"
  unfolding cmd_ABOR_def Let_def
  by (auto split: prod.splits intro!: keeps_core_rules dest!: core_Reset')

lemma core_queries [core_steps]:
  "keeps_core c (cmd_MDTM e arg c db)" "keeps_core c (cmd_SIZE e arg c db)"
  unfolding cmd_MDTM_def cmd_SIZE_def invalid_args_def syntax_error_def
  by (auto split: prod.splits option.splits intro!: keeps_core_rules)

lemma core_changes [core_steps]:
  "keeps_core c (cmd_DELE e arg c db)" "keeps_core c (cmd_MKD e arg c db)" "keeps_core c (cmd_RMD e arg c db)"
  unfolding cmd_DELE_def cmd_MKD_def cmd_RMD_def syntax_error_def
  by (auto split: prod.splits option.splits intro!: keeps_core_rules)

lemma core_start: "core c' = core c \<Longrightarrow> keeps_core c (start_transfer e k ev s p out c' db)"
  unfolding start_transfer_def Let_def
  by (auto split: prod.splits intro!: keeps_core_rules dest!: core_Reset')

lemma core_RETR [core_steps]: "keeps_core c (cmd_RETR e arg c db)"
  unfolding cmd_RETR_def pasv_failed_def syntax_error_def
  by (auto split: prod.splits option.splits intro!: keeps_core_rules core_start)

lemma core_STOR [core_steps]: "keeps_core c (cmd_STOR e nCmd arg c db)"
  unfolding cmd_STOR_def pasv_failed_def syntax_error_def
  by (auto split: prod.splits option.splits if_splits intro!: keeps_core_rules core_start simp: and_then_eq_Ret)

section \<open>Every command keeps the invariant\<close>

lemma interp_up: "interp (s @ ''/..'') = butlast (interp s)"
proof -
  have "tokens (s @ CHR ''/'' # ''..'') = tokens s @ [''..'']"
    by (simp only: tokens_append) (simp add: tokens_no_slash)
  then show ?thesis by (simp add: interp_def resolve_def butlast_rev)
qed

lemma length_canonical_butlast: "length (canonical (butlast cs)) \<le> length (canonical cs)"
proof (cases cs rule: rev_cases)
  case (snoc ds d)
  then show ?thesis by (cases ds) auto
qed simp

lemma up_canonical:
  assumes "canonical_path s"
  shows "simplify_path (s @ ''/..'') = canonical (butlast (interp s))"
proof -
  have "absolute s" by (rule canonical_path_absolute[OF assms])
  then have "absolute (s @ ''/..'')" by (rule absolute_append)
  moreover have nb: "unbackslash (s @ ''/..'') = s @ ''/..''"
    using assms by (intro unbackslash_id) (auto simp: canonical_path_def)
  ultimately show ?thesis by (simp add: simplify_path_absolute interp_up)
qed

lemma up_canonical_path:
  assumes "canonical_path s"
  shows "canonical_path (simplify_path (s @ ''/..''))" and "length (simplify_path (s @ ''/..'')) \<le> length s"
proof -
  have "absolute (unbackslash (s @ ''/..''))"
    using canonical_path_absolute[OF assms] by (intro absolute_unbackslash absolute_append)
  then show "canonical_path (simplify_path (s @ ''/..''))" by (rule canonical_path_simplify)
  show "length (simplify_path (s @ ''/..'')) \<le> length s"
    using assms length_canonical_butlast[of "interp s"] unfolding up_canonical[OF assms]
    by (metis canonical_path_def)
qed

lemma client_path_ok:
  assumes "session_ok c" and "client_path c asked = Some (p, vp)"
  shows "canonical_path vp" "length vp \<le> MAX_PATH"
  using assms BuildVirtualPath_canonical[of "szWorkingDir c" asked vp]
  by (auto simp: session_ok_def client_path_def elim!: BuildPath_parts)

lemma session_CWD:
  assumes "session_ok c" and "cmd_CWD e arg c db = Ret (fl, c', out, db')"
  shows "session_ok c'"
proof -
  have "c' = c \<or> (\<exists>a p vp. client_path c a = Some (p, vp) \<and> c' = c\<lparr>szWorkingDir := vp\<rparr>)"
    using assms(2) unfolding cmd_CWD_def answer_def invalid_args_def
    by (auto simp: and_then_eq_Ret split: option.splits prod.splits if_split_asm) blast
  then show ?thesis
  proof (elim disjE exE conjE)
    fix a p vp assume "client_path c a = Some (p, vp)" and c': "c' = c\<lparr>szWorkingDir := vp\<rparr>"
    note v = client_path_ok[OF assms(1) this(1)]
    show ?thesis using assms(1) v unfolding c' by (simp add: session_ok_def may_def split: option.splits)
  qed (use assms(1) in simp)
qed

lemma session_CDUP:
  "session_ok c \<Longrightarrow> cmd_CDUP e c db = Ret (fl, c', out, db') \<Longrightarrow> session_ok c'"
  using up_canonical_path[of "szWorkingDir c"]
  by (auto simp: cmd_CDUP_def answer_def session_ok_def may_def split: if_splits option.splits)

lemma session_RNFR:
  assumes "session_ok c" and "cmd_RNFR e arg c db = Ret (fl, c', out, db')"
  shows "session_ok c'"
proof -
  have "c' = c \<or> may c DELETEFILE \<and> (\<exists>p. c' = c\<lparr>szRenameFromPath := p\<rparr>)"
    using assms(2) unfolding cmd_RNFR_def answer_def syntax_error_def
    by (auto simp: and_then_eq_Ret split: option.splits prod.splits if_split_asm)
  then show ?thesis
  proof (elim disjE exE conjE)
    fix p assume "may c DELETEFILE" and c': "c' = c\<lparr>szRenameFromPath := p\<rparr>"
    then show ?thesis using assms(1) unfolding c' by (simp add: session_ok_def may_def split: option.splits)
  qed (use assms(1) in simp)
qed

lemma session_RNTO:
  "session_ok c \<Longrightarrow> cmd_RNTO e arg c db = Ret (fl, c', out, db') \<Longrightarrow> session_ok c'"
  by (auto simp: cmd_RNTO_def answer_def syntax_error_def and_then_eq_Ret session_ok_def may_def
      split: option.splits)

lemma SearchUser_count:
  "SearchUserFromLogin R ok n login db = Ret (Some u, out, db') \<Longrightarrow> uiNumberOfClient u = 0"
  by (auto simp: SearchUserFromLogin_def user_of_def CUserEntry_def and_then_eq_Ret split: if_splits prod.splits)

lemma session_LogOut: "session_ok c \<Longrightarrow> session_ok (LogOut c) \<and> \<not> bIsLogged (LogOut c)"
  by (simp add: session_ok_def LogOut_def MAX_PATH_def)

lemma session_LogIn:
  "session_ok c \<Longrightarrow> \<not> bIsLogged c \<Longrightarrow> pUser c \<noteq> None \<Longrightarrow> session_ok (fst (LogIn e c)) \<and> bIsLogged (fst (LogIn e c))"
  by (auto simp: session_ok_def LogIn_def ResetTimeout_def may_def CheckPrivileges_def split: option.splits)

lemma session_new_user:
  "session_ok c \<Longrightarrow> \<not> bIsLogged c \<Longrightarrow> (\<And>v. u = Some v \<Longrightarrow> uiNumberOfClient v = 0) \<Longrightarrow>
     session_ok (c\<lparr>pUser := u\<rparr>)"
  by (auto simp: session_ok_def may_def CheckPrivileges_def split: option.splits)

lemma session_USER:
  assumes "session_ok c" and "cmd_USER e arg c db = Ret (fl, c', out, db')"
  shows "session_ok c'"
proof -
  define c1 where "c1 = (if bIsLogged c then LogOut c else c)"
  have c1: "session_ok c1" "\<not> bIsLogged c1" using session_LogOut[OF assms(1)] assms(1) by (auto simp: c1_def)
  show ?thesis
  proof (cases arg)
    case None
    with assms(2) c1 show ?thesis by (simp add: cmd_USER_def invalid_args_def answer_def Let_def flip: c1_def)
  next
    case (Some login)
    with assms(2) obtain u out1 db1 where u:
      "SearchUserFromLogin (redis e) (connect_ok e) (RedisDB (config e)) login db = Ret (u, out1, db1)"
      "c' = (if (case u of None \<Rightarrow> False | Some u \<Rightarrow> bIsEnabled u \<and> szPassword u = [])
         then fst (LogIn e (c1\<lparr>pUser := u\<rparr>)) else c1\<lparr>pUser := u\<rparr>)"
      by (auto simp: cmd_USER_def and_then_eq_Ret Let_def split: prod.splits if_splits simp flip: c1_def)
    have "session_ok (c1\<lparr>pUser := u\<rparr>)" using c1 SearchUser_count u(1) by (intro session_new_user) auto
    with u(2) c1(2) session_LogIn[of "c1\<lparr>pUser := u\<rparr>" e] show ?thesis
      by (auto split: option.splits if_splits)
  qed
qed

lemma check_password_session:
  "session_ok c \<Longrightarrow> \<not> bIsLogged c \<Longrightarrow> session_ok (fst (check_password e arg c))"
  using session_LogIn[of c e] by (auto simp: check_password_def split: option.splits)

lemma session_PASS:
  assumes "session_ok c" and "cmd_PASS e arg c db = Ret (fl, c', out, db')"
  shows "session_ok c'"
proof -
  let ?c1 = "c\<lparr>nPasswordTries := nPasswordTries c + 1\<rparr>"
  have c1: "session_ok ?c1" using assms(1) session_ok_core[of ?c1 c] by simp
  have "c' = (if bIsLogged c then ?c1 else fst (check_password e arg ?c1))"
    using assms(2) by (auto simp: cmd_PASS_def Let_def split: prod.splits if_splits)
  with c1 check_password_session[OF c1, of e arg] show ?thesis by simp
qed

definition keeps_session :: "client \<Rightarrow> 'db step \<Rightarrow> bool" where
  "keeps_session c m \<longleftrightarrow> (session_ok c \<longrightarrow> (\<forall>fl c' out db'. m = Ret (fl, c', out, db') \<longrightarrow> session_ok c'))"

lemma keeps_session_core: "keeps_core c m \<Longrightarrow> keeps_session c m"
  unfolding keeps_session_def by (intro impI allI) (rule keeps_core_session)

lemma keeps_session_if:
  "keeps_session c a \<Longrightarrow> keeps_session c b \<Longrightarrow> keeps_session c (if P then a else b)"
  by simp

lemma keeps_session_answer: "keeps_session c (answer e t c db)"
  by (simp add: keeps_session_def answer_def)

lemma keeps_session_handlers:
  "keeps_session c (cmd_USER e arg c db)" "keeps_session c (cmd_PASS e arg c db)"
  "keeps_session c (cmd_CWD e arg c db)" "keeps_session c (cmd_CDUP e c db)"
  "keeps_session c (cmd_RNFR e arg c db)" "keeps_session c (cmd_RNTO e arg c db)"
  unfolding keeps_session_def
  by (intro impI allI, (rule session_USER session_PASS session_CWD session_CDUP session_RNFR session_RNTO; assumption))+

lemmas session_steps = keeps_session_answer keeps_session_handlers core_steps[THEN keeps_session_core]

lemma shell_step_session: "keeps_session c (shell_step e nCmd arg c db)"
  unfolding shell_step_def by (intro keeps_session_if session_steps)

section \<open>Read-only users\<close>

text \<open>The same tree in a usable database.\<close>

definition same_tree :: "('db \<Rightarrow> rview) \<Rightarrow> ('db \<Rightarrow> bool) \<Rightarrow> 'db \<Rightarrow> 'db \<Rightarrow> bool" where
  "same_tree view live db db' \<longleftrightarrow> usable view live db' \<and> hashes (view db') = hashes (view db) \<and>
     fids (view db') = fids (view db)"

lemma same_tree_ok: "same_tree view live db db' \<Longrightarrow> tree_ok (view db) \<Longrightarrow> tree_ok (view db')"
  by (simp add: same_tree_def tree_ok_def fresh_def)

lemma same_tree_refl: "usable view live db \<Longrightarrow> same_tree view live db db"
  by (simp add: same_tree_def)

lemma same_tree_trans: "same_tree view live a b \<Longrightarrow> same_tree view live b c \<Longrightarrow> same_tree view live a c"
  by (simp add: same_tree_def)

text \<open>A step that leaves the tree alone and starts no upload.\<close>

definition reads_only :: "('db \<Rightarrow> rview) \<Rightarrow> ('db \<Rightarrow> bool) \<Rightarrow> 'db \<Rightarrow> 'db step \<Rightarrow> bool" where
  "reads_only view live db m \<longleftrightarrow> (\<forall>fl c out db'. m = Ret (fl, c, out, db') \<longrightarrow>
     same_tree view live db db' \<and> Spawn StoreThread \<notin> set out)"

lemma no_spawn [simp]: "Spawn k \<notin> set (say e t)" "Spawn k \<notin> set (say2 e t)"
  by (auto simp: say_def say2_def SendReply2_def SendReply_def Let_def)

lemma no_spawn_Reset: "ResetDataConnection b c = (c', out) \<Longrightarrow> Spawn k \<notin> set out"
  by (auto simp: ResetDataConnection_def split: if_splits)

lemma no_spawn_LogIn: "LogIn e c = (c', out) \<Longrightarrow> Spawn k \<notin> set out"
  by (auto simp: LogIn_def)

lemma no_spawn_Open: "OpenDataConnection e c = Ret (r, c', out) \<Longrightarrow> Spawn k \<notin> set out"
  by (auto simp: OpenDataConnection_def Let_def and_then_eq_Ret split: if_splits prod.splits
      dest!: no_spawn_Reset[where k = k])

lemma no_spawn_check: "check_password e arg c = (c', out) \<Longrightarrow> Spawn k \<notin> set out"
  by (auto simp: check_password_def split: option.splits if_splits dest: no_spawn_LogIn)

lemma no_spawn_pasv: "open_pasv e c = Some out \<Longrightarrow> Spawn k \<notin> set out"
  by (auto simp: open_pasv_def split: if_splits)

lemmas no_spawns = no_spawn_Reset no_spawn_LogIn no_spawn_Open no_spawn_check no_spawn_pasv

lemma reads_only_intros:
  "same_tree view live db db' \<Longrightarrow> Spawn StoreThread \<notin> set out \<Longrightarrow> reads_only view live db (Ret (fl, c, out, db'))"
  "same_tree view live db db' \<Longrightarrow> reads_only view live db (answer e t c db')"
  "reads_only view live db (Crash f)"
  "(\<And>x. m = Ret x \<Longrightarrow> reads_only view live db (f' x)) \<Longrightarrow> reads_only view live db (and_then m f')"
  "(P \<Longrightarrow> reads_only view live db a) \<Longrightarrow> (\<not> P \<Longrightarrow> reads_only view live db b) \<Longrightarrow>
     reads_only view live db (if P then a else b)"
  by (cases m; auto simp: reads_only_def answer_def)+

lemma reads_only_cases:
  "(z = None \<Longrightarrow> reads_only view live db n) \<Longrightarrow> (\<And>y. z = Some y \<Longrightarrow> reads_only view live db (f y)) \<Longrightarrow>
     reads_only view live db (case z of None \<Rightarrow> n | Some y \<Rightarrow> f y)"
  "(\<And>a b. q = (a, b) \<Longrightarrow> reads_only view live db (g a b)) \<Longrightarrow> reads_only view live db (case q of (a, b) \<Rightarrow> g a b)"
  "(l = [] \<Longrightarrow> reads_only view live db n) \<Longrightarrow> (\<And>v vs. l = v # vs \<Longrightarrow> reads_only view live db (h v vs)) \<Longrightarrow>
     reads_only view live db (case l of [] \<Rightarrow> n | v # vs \<Rightarrow> h v vs)"
  by (auto split: option.splits prod.splits list.splits)

lemma rename_of_nothing: "vfs_rename R [] p db = Crash OutOfBounds"
  by (simp add: vfs_rename_def lookup_fid_def outcome_simps)

context redis_server
begin

abbreviation quiet :: "'db \<Rightarrow> 'db \<Rightarrow> bool" where
  "quiet \<equiv> same_tree view live"

lemma hgetall_same: "idle db \<Longrightarrow> query R (HGETALL k) db = Ret (r, db') \<Longrightarrow> db' = db"
  using query_hgetall[of db k] by (metis outcome.inject(1) prod.inject)

lemma stat_same:
  assumes "idle db" and "tree_ok (view db)" and "vfs_stat R p db = Ret (st, db')"
  shows "db' = db"
proof -
  from assms(3) obtain g where g: "lookup_fid R p db = Ret (g, db)"
    using lookup_any[OF assms(1,2)] by (auto simp: vfs_stat_def and_then_eq_Ret)
  with assms(1,3) show ?thesis
    by (auto simp: vfs_stat_def outcome_simps and_then_eq_Ret split: if_splits dest: hgetall_same)
qed

lemma lookup_slave_same:
  "idle db \<Longrightarrow> lookup_slave_info_fid R f db = Ret (s, db') \<Longrightarrow> db' = db"
  by (auto simp: lookup_slave_info_fid_def and_then_eq_Ret split: if_splits dest: hgetall_same)

lemma transaction_id_quiet:
  assumes "idle db" and "get_new_transaction_id R db = Ret (t, db')"
  shows "quiet db db'"
proof -
  obtain db1 where "query R (INCR ''transaction_counter'') db =
      Ret (ReplyInteger (counters (view db) ''transaction_counter'' + 1), db1)" "idle db1"
    "view db1 = (view db)\<lparr>counters := (counters (view db))
      (''transaction_counter'' := counters (view db) ''transaction_counter'' + 1)\<rparr>"
    by (rule query_incr[OF assms(1)])
  with assms(2) show ?thesis by (auto simp: get_new_transaction_id_def outcome_simps same_tree_def fids_def)
qed

lemma search_user_quiet:
  assumes "idle db" and "SearchUserFromLogin R ok n login db = Ret (u, out, db')"
  shows "quiet db db' \<and> Spawn k \<notin> set out"
proof -
  obtain r db1 where r: "redis_cmd R (SELECT n) db = (r, db1)" by fastforce
  then have 1: "idle db1" "view db1 = view db" using sel[of db n] assms(1) by (auto simp: usable_def)
  have "db' = db \<or> db' = db1" and "Spawn k \<notin> set out"
    using assms(2) r hgetall_same[OF 1(1)]
    by (auto simp: SearchUserFromLogin_def and_then_eq_Ret split: if_splits)
  with 1 assms(1) show ?thesis by (auto simp: same_tree_def)
qed

text \<open>The commands that do not change the tree, and the others without the privilege for them.\<close>

lemma reads_only_session:
  assumes "idle db"
  shows "reads_only view live db (cmd_QUIT e c db)" "reads_only view live db (cmd_CLNT e arg c db)"
    "reads_only view live db (cmd_STRU e arg c db)" "reads_only view live db (cmd_OPTS e arg c db)"
    "reads_only view live db (cmd_MODE e arg c db)" "reads_only view live db (cmd_TYPE e arg c db)"
    "reads_only view live db (cmd_FEAT e c db)" "reads_only view live db (cmd_PWD e c db)"
    "reads_only view live db (cmd_REST e arg c db)" "reads_only view live db (cmd_CDUP e c db)"
    "reads_only view live db (cmd_PASS e arg c db)" "reads_only view live db (cmd_ABOR e c db)"
  unfolding cmd_QUIT_def cmd_CLNT_def cmd_STRU_def cmd_OPTS_def cmd_MODE_def cmd_TYPE_def cmd_FEAT_def
    cmd_PWD_def cmd_REST_def cmd_CDUP_def cmd_PASS_def cmd_ABOR_def invalid_args_def syntax_error_def Let_def
  by (intro reads_only_intros reads_only_cases; auto simp: same_tree_refl[OF assms]
      split: if_splits prod.splits dest: no_spawns)+

lemma reads_only_PORT: "idle db \<Longrightarrow> reads_only view live db (cmd_PORT e arg c db)"
  unfolding cmd_PORT_def syntax_error_def Let_def
  by (intro reads_only_intros reads_only_cases; auto simp: same_tree_refl split: if_splits dest: no_spawns)

lemma reads_only_USER:
  "idle db \<Longrightarrow> redis e = R \<Longrightarrow> reads_only view live db (cmd_USER e arg c db)"
  unfolding cmd_USER_def invalid_args_def Let_def
  by (intro reads_only_intros reads_only_cases; auto simp: same_tree_refl
      dest!: search_user_quiet[where k = StoreThread] dest: no_spawns)

lemma reads_only_LIST:
  assumes "idle db" and "tree_ok (view db)" and "redis e = R"
  shows "reads_only view live db (cmd_LIST e nCmd arg c db)"
  unfolding cmd_LIST_def  Let_def assms(3)
  by (intro reads_only_intros reads_only_cases; auto simp: same_tree_refl assms(1) split: if_splits prod.splits
      dest!: stat_same[OF assms(1,2)] lookup_any[OF assms(1,2)] dest: no_spawns)

lemma reads_only_CWD:
  assumes "idle db" and "tree_ok (view db)" and "redis e = R"
  shows "reads_only view live db (cmd_CWD e arg c db)"
  unfolding cmd_CWD_def invalid_args_def Let_def assms(3)
  by (intro reads_only_intros reads_only_cases; auto simp: same_tree_refl assms(1) split: if_splits prod.splits
      dest!: stat_same[OF assms(1,2)] lookup_any[OF assms(1,2)] dest: no_spawns)

lemma reads_only_MDTM:
  assumes "idle db" and "tree_ok (view db)" and "redis e = R"
  shows "reads_only view live db (cmd_MDTM e arg c db)"
  unfolding cmd_MDTM_def invalid_args_def Let_def assms(3)
  by (intro reads_only_intros reads_only_cases; auto simp: same_tree_refl assms(1) split: if_splits prod.splits
      dest!: stat_same[OF assms(1,2)] lookup_any[OF assms(1,2)] dest: no_spawns)

lemma reads_only_SIZE:
  assumes "idle db" and "tree_ok (view db)" and "redis e = R"
  shows "reads_only view live db (cmd_SIZE e arg c db)"
  unfolding cmd_SIZE_def syntax_error_def Let_def assms(3)
  by (intro reads_only_intros reads_only_cases; auto simp: same_tree_refl assms(1) split: if_splits prod.splits
      dest!: stat_same[OF assms(1,2)] lookup_any[OF assms(1,2)] dest: no_spawns)

lemma reads_only_RNFR:
  assumes "idle db" and "tree_ok (view db)" and "redis e = R"
  shows "reads_only view live db (cmd_RNFR e arg c db)"
  unfolding cmd_RNFR_def syntax_error_def Let_def assms(3)
  by (intro reads_only_intros reads_only_cases; auto simp: same_tree_refl assms(1) split: if_splits prod.splits
      dest!: stat_same[OF assms(1,2)] lookup_any[OF assms(1,2)] dest: no_spawns)

lemma reads_only_PRET:
  assumes "idle db" and "tree_ok (view db)" and "redis e = R"
  shows "reads_only view live db (cmd_PRET e arg c db)"
  unfolding cmd_PRET_def invalid_args_def Let_def assms(3)
  by (intro reads_only_intros reads_only_cases; auto simp: same_tree_refl assms(1) split: if_splits prod.splits
      dest!: stat_same[OF assms(1,2)] lookup_any[OF assms(1,2)] dest: no_spawns)

lemma pick_slave_same:
  assumes "idle db" and "redis e = R" and "pick_slave e c db = Ret (s, out, db')"
  shows "db' = db \<and> Spawn k \<notin> set out"
  using assms(3) by (auto simp: pick_slave_def assms(2) and_then_eq_Ret split: if_splits
      dest: lookup_slave_same[OF assms(1)])

lemma reads_only_PASV:
  assumes "idle db" and "redis e = R"
  shows "reads_only view live db (cmd_PASV e c db)"
proof -
  have "reads_only view live db (pasv_local e c db)"
    unfolding pasv_local_def Let_def
    by (intro reads_only_intros reads_only_cases; auto simp: same_tree_refl assms(1) split: if_splits
        dest: no_spawns)
  moreover have "reads_only view live db (pasv_slave e c db)"
    unfolding pasv_slave_def Let_def
    by (intro reads_only_intros reads_only_cases; auto simp: assms(2)
        dest!: pick_slave_same[OF assms, where k = StoreThread] dest: transaction_id_quiet[OF assms(1)])
  ultimately show ?thesis
    unfolding cmd_PASV_def by (intro reads_only_intros) (auto simp: same_tree_refl assms(1))
qed

lemma reads_only_RETR:
  assumes "idle db" and "tree_ok (view db)" and "redis e = R"
  shows "reads_only view live db (cmd_RETR e arg c db)"
  unfolding cmd_RETR_def pasv_failed_def syntax_error_def start_transfer_def Let_def assms(3)
  by (intro reads_only_intros reads_only_cases; auto simp: same_tree_refl assms(1) split: if_splits
      dest!: stat_same[OF assms(1,2)] dest: no_spawns)

text \<open>What needs a privilege.\<close>

lemma reads_only_refused:
  assumes "idle db"
  shows "\<not> may c WRITEFILE \<Longrightarrow> reads_only view live db (cmd_STOR e nCmd arg c db)"
    and "\<not> may c DELETEFILE \<Longrightarrow> reads_only view live db (cmd_DELE e arg c db)"
    and "\<not> may c CREATEDIR \<Longrightarrow> reads_only view live db (cmd_MKD e arg c db)"
    and "\<not> may c DELETEDIR \<Longrightarrow> reads_only view live db (cmd_RMD e arg c db)"
  by (simp_all add: cmd_STOR_def cmd_DELE_def cmd_MKD_def cmd_RMD_def reads_only_intros same_tree_refl assms)

lemma reads_only_RNTO:
  assumes "idle db" and "redis e = R" and "szRenameFromPath c = []"
  shows "reads_only view live db (cmd_RNTO e arg c db)"
  unfolding cmd_RNTO_def syntax_error_def assms(2,3) rename_of_nothing
  by (intro reads_only_intros reads_only_cases; auto simp: same_tree_refl assms(1) split: option.splits)

lemma reads_only_shell:
  assumes "idle db" and "tree_ok (view db)" and "redis e = R" and "session_ok c"
    and "\<not> may c WRITEFILE" and "\<not> may c DELETEFILE" and "\<not> may c CREATEDIR" and "\<not> may c DELETEDIR"
  shows "reads_only view live db (shell_step e nCmd arg c db)"
proof -
  have "szRenameFromPath c = []" using assms(4,6) by (auto simp: session_ok_def)
  note steps = reads_only_session[OF assms(1)] reads_only_PORT[OF assms(1)] reads_only_USER[OF assms(1,3)]
    reads_only_LIST[OF assms(1-3)] reads_only_CWD[OF assms(1-3)] reads_only_MDTM[OF assms(1-3)]
    reads_only_SIZE[OF assms(1-3)] reads_only_RNFR[OF assms(1-3)] reads_only_PRET[OF assms(1-3)]
    reads_only_PASV[OF assms(1,3)] reads_only_RETR[OF assms(1-3)]
    reads_only_refused(1)[OF assms(1,5)] reads_only_refused(2)[OF assms(1,6)]
    reads_only_refused(3)[OF assms(1,7)] reads_only_refused(4)[OF assms(1,8)]
    reads_only_RNTO[OF assms(1,3) this] reads_only_intros(2)[OF same_tree_refl[OF assms(1)]]
  show ?thesis unfolding shell_step_def by (intro reads_only_intros(5) steps)
qed

end

end
