(* ===== verification/ShellClaims.thy ===== *)
theory ShellClaims
  imports ShellProps
begin

text \<open>
  The properties of the command interpreter, over the lemmas of the handlers.
\<close>

section \<open>Examples\<close>

definition demo_config :: server_config where
  "demo_config = \<lparr>DataPortRange = \<lparr>usStart = 1000, usLen = 10\<rparr>, uiMaxPasswordTries = 3, uiCheckPassDelay = 0,
     ulNoLoginTimeout = 0, ulNoTransferTimeout = 0, uiTransferBufferSize = 32768,
     uiTransferSocketBufferSize = 65536, bEnableFXP = True, RedisDB = 1,
     Slaves = [\<lparr>si_host = ''s1'', si_port = Some 9090\<rparr>]\<rparr>"

definition demo_env :: "mem env" where
  "demo_env = \<lparr>redis = mem_redis, config = demo_config, now = 7, rand = (\<lambda>_. 0), send_ok = (\<lambda>_. True),
     connect_ok = True, socket_ok = True, sockopt_ok = True, bind_ok = (\<lambda>_. True), listen_ok = True,
     accept_ok = True, reach_ok = True, thread_ok = True, cmd_slack = 4, inet_addr = (\<lambda>_. 0),
     rpc_init_pasv = (\<lambda>_ _ _ _ _. Some ''227 ok''), rpc_open_pasv = (\<lambda>_ _. Some ''150 ok'')\<rparr>"

definition demo_user :: "8 word \<Rightarrow> user_entry" where
  "demo_user priv = CUserEntry\<lparr>szLogin := ''u'', szPassword := ''pw'', szStartDirectory := ''/'',
     bIsEnabled := True, uid := 1, gid := 1, ucPrivileges := priv\<rparr>"

text \<open>A client that has given its name, and one that is logged in.\<close>

definition demo_guest :: "8 word \<Rightarrow> client" where
  "demo_guest priv = (new_client (ip_of 10 0 0 1) (ip_of 10 0 0 2))\<lparr>pUser := Some (demo_user priv)\<rparr>"

definition demo_client :: "8 word \<Rightarrow> client" where
  "demo_client priv = fst (LogIn demo_env (demo_guest priv))"

lemma demo_guest_ok: "session_ok (demo_guest priv)" "\<not> bIsLogged (demo_guest priv)"
  by (simp_all add: session_ok_def demo_guest_def new_client_def CClientEntry_def demo_user_def CUserEntry_def
      MAX_PATH_def)

lemma demo_client_ok: "session_ok (demo_client priv)" "bIsLogged (demo_client priv)"
  using session_LogIn[OF demo_guest_ok, of priv demo_env] by (simp_all add: demo_client_def demo_guest_def)

lemma demo_client_fields:
  "pUser (demo_client priv) = Some (demo_user priv\<lparr>uiNumberOfClient := 1\<rparr>)" "eStatus (demo_client priv) = WAITING"
  "szWorkingDir (demo_client priv) = ''/''" "szRenameFromPath (demo_client priv) = []"
  "eDataConnection (demo_client priv) = NONE"
  by (simp_all add: demo_client_def demo_guest_def LogIn_def ResetTimeout_def new_client_def CClientEntry_def
      demo_user_def CUserEntry_def)

lemma demo_may: "may (demo_client priv) p \<longleftrightarrow> p AND priv = p"
  by (simp add: may_def CheckPrivileges_def demo_client_ok demo_client_fields demo_user_def CUserEntry_def)

section \<open>The session\<close>

lemma run_line_session: "session_ok c \<Longrightarrow> run_line e line c db = Ret (fl, c', out, db') \<Longrightarrow> session_ok c'"
  using shell_step_session[of c e "fst (ParseLine line)" "snd (ParseLine line)" db]
  unfolding keeps_session_def by (simp add: run_line_def split_beta)

lemma main_loop_session:
  "session_ok c0 \<Longrightarrow> main_loop ls c0 db = Ret (c, out, db') \<Longrightarrow> session_ok c"
proof (induction ls c0 db arbitrary: c out db' rule: main_loop.induct)
  case (2 e line ls c0 db)
  then obtain fl c1 o1 db1 where r: "run_line e line c0 db = Ret (fl, c1, o1, db1)"
    "(if fl = Break then Ret (c1, o1, db1)
      else and_then (main_loop ls c1 db1) (\<lambda>(c2, out2, db2). Ret (c2, o1 @ out2, db2))) = Ret (c, out, db')"
    by (auto simp: and_then_eq_Ret)
  have "session_ok c1" by (rule run_line_session[OF 2(2) r(1)])
  then show ?case using r 2(1)[OF r(1) refl refl refl] by (auto simp: and_then_eq_Ret split: if_splits)
qed simp

lemma session_start: "session_ok (fst (shell_start e (new_client server_ip client_ip)))"
  by (simp add: session_ok_def shell_start_def ResetTimeout_def new_client_def CClientEntry_def MAX_PATH_def)

text \<open>C3: Every command keeps the invariant of the session, whatever its argument and whatever the
  network, the slaves and the database answer: after any sequence of command lines of a new client the
  working directory is a canonical path that fits its buffer, only a client with a user is logged in,
  its user entry counts exactly it, and a pending rename belongs to a user who may delete files.\<close>

theorem session_invariant:
  assumes "main_loop ls (fst (shell_start e (new_client server_ip client_ip))) db = Ret (c, out, db')"
  shows "canonical_path (szWorkingDir c) \<and> length (szWorkingDir c) \<le> MAX_PATH \<and>
    (bIsLogged c \<longleftrightarrow> (\<exists>u. pUser c = Some u \<and> uiNumberOfClient u = 1)) \<and>
    (szRenameFromPath c \<noteq> [] \<longrightarrow> may c DELETEFILE)"
  using main_loop_session[OF session_start assms]
  by (auto simp: session_ok_def split: option.splits if_splits)

theorem session_invariant_witness:
  "\<exists>c out. main_loop [(demo_env, ''NOOP''), (demo_env, ''QUIT'')]
      (fst (shell_start demo_env (new_client 1 2))) demo = Ret (c, out, demo) \<and> canonical_path (szWorkingDir c)"
proof -
  let ?c = "fst (shell_start demo_env (new_client 1 2))"
  have p: "ParseLine ''NOOP'' = (CMD_NOOP, None)" "ParseLine ''QUIT'' = (CMD_QUIT, None)" by code_simp+
  have "\<not> bIsLogged ?c" by (simp add: shell_start_def ResetTimeout_def new_client_def CClientEntry_def)
  then have "main_loop [(demo_env, ''NOOP''), (demo_env, ''QUIT'')] ?c demo =
      Ret (?c, say demo_env ''530 Please login with USER and PASS.'' @ say demo_env ''221 Goodbye.'' @
        [OnClientEvent CLIENT_DISCONNECT None], demo)"
    by (simp add: run_line_def p shell_step_def answer_def cmd_QUIT_def outcome_simps)
  from session_invariant[OF this] this show ?thesis by blast
qed

text \<open>C12: Before the login a client can only log in or leave: every other command is answered with 530
  and changes neither the client nor the database.\<close>

theorem login_required:
  assumes "\<not> bIsLogged c" and "nCmd \<notin> {CMD_NONE, CMD_QUIT, CMD_USER, CMD_PASS}"
  shows "shell_step e nCmd arg c db =
    Ret (Continue, c, say e ''530 Please login with USER and PASS.'', db)"
  using assms by (simp add: shell_step_def answer_def)

theorem login_required_witness:
  "shell_step demo_env CMD_DELE (Some ''f'') (demo_guest 63) demo =
     Ret (Continue, demo_guest 63, say demo_env ''530 Please login with USER and PASS.'', demo)"
  using demo_guest_ok by (intro login_required) auto

text \<open>C13: A client whose user has none of the four privileges to write cannot change the directory tree
  with any command, also not with the commands that check no privilege (\<open>RNTO\<close>, \<open>PRET\<close>, \<open>PASV\<close>), and
  no upload is started.\<close>

theorem read_only_user_changes_nothing:
  assumes "redis_server (redis e) view live" and "usable view live db" and "tree_ok (view db)"
    and "session_ok c" and "\<not> may c WRITEFILE" and "\<not> may c DELETEFILE" and "\<not> may c CREATEDIR"
    and "\<not> may c DELETEDIR" and "shell_step e nCmd arg c db = Ret (fl, c', out, db')"
  shows "usable view live db' \<and> hashes (view db') = hashes (view db) \<and> Spawn StoreThread \<notin> set out"
  using redis_server.reads_only_shell[OF assms(1-3) refl assms(4-8), of nCmd arg] assms(9)
  by (simp add: reads_only_def same_tree_def)

theorem read_only_user_changes_nothing_witness:
  "\<exists>c' out db'. shell_step demo_env CMD_MKD (Some ''x'') (demo_client 9) demo = Ret (Continue, c', out, db') \<and>
     hashes (mem_view db') = hashes (mem_view demo) \<and> Spawn StoreThread \<notin> set out"
proof -
  have no: "\<not> may (demo_client 9) WRITEFILE" "\<not> may (demo_client 9) DELETEFILE" "\<not> may (demo_client 9) CREATEDIR"
    "\<not> may (demo_client 9) DELETEDIR"
    by (simp_all add: demo_may WRITEFILE_def DELETEFILE_def CREATEDIR_def DELETEDIR_def)
  then obtain c' out db' where r: "shell_step demo_env CMD_MKD (Some ''x'') (demo_client 9) demo = Ret (Continue, c', out, db')"
    using demo_client_ok(2) by (simp add: shell_step_def cmd_MKD_def answer_def)
  have "redis_server (redis demo_env) mem_view mem_live"
    using mem.redis_server_axioms by (simp add: demo_env_def)
  from read_only_user_changes_nothing[OF this demo_usable demo_tree demo_client_ok(1) no r] r show ?thesis by blast
qed

section \<open>The login\<close>

text \<open>C28: The decision of \<open>PASS\<close>: a client that is not logged in becomes logged in exactly when it has
  named an enabled user and gives that user's password (or the user has none); the limit on the number
  of clients of a user never refuses anyone, because each client has a user entry of its own that
  counts only itself. After a refusal the client is answered 530, or dropped when it has used up its
  tries.\<close>

theorem PASS_decides:
  assumes "session_ok c" and "\<not> bIsLogged c" and "cmd_PASS e arg c db = Ret (fl, c', out, db')"
  shows "(bIsLogged c' \<longleftrightarrow> (\<exists>u. pUser c = Some u \<and> bIsEnabled u \<and> (arg = Some (szPassword u) \<or> szPassword u = []))) \<and>
    nPasswordTries c' = nPasswordTries c + 1 \<and>
    (\<not> bIsLogged c' \<longrightarrow> (if uiMaxPasswordTries (config e) \<noteq> 0 \<and> nPasswordTries c' \<ge> uiMaxPasswordTries (config e)
      then fl = Break \<and> OnClientEvent TOO_MANY_PASS_TRIES None \<in> set out
      else fl = Continue \<and> ''530 Login or password incorrect!'' @ CRLF \<in> set (wires out)))"
proof -
  have count: "uiNumberOfClient u = 0" if "pUser c = Some u" for u
    using assms(1,2) that by (simp add: session_ok_def)
  let ?c1 = "c\<lparr>nPasswordTries := nPasswordTries c + 1\<rparr>"
  have logged: "bIsLogged (fst (check_password e arg ?c1)) \<longleftrightarrow>
      (\<exists>u. pUser c = Some u \<and> bIsEnabled u \<and> (arg = Some (szPassword u) \<or> szPassword u = []))"
    using assms(2) count
    by (auto simp: check_password_def LogIn_def ResetTimeout_def word_neq_0_conv split: option.splits)
  have tries: "nPasswordTries (fst (check_password e arg ?c1)) = nPasswordTries c + 1"
    by (auto simp: check_password_def LogIn_def ResetTimeout_def split: option.splits)
  obtain c2 o2 where k: "check_password e arg ?c1 = (c2, o2)" by fastforce
  show ?thesis
    using assms(2,3) logged tries unfolding cmd_PASS_def Let_def k by (auto split: if_splits)
qed

theorem PASS_decides_witness:
  "\<exists>c' out. cmd_PASS demo_env (Some ''pw'') (demo_guest 63) demo = Ret (Continue, c', out, demo) \<and> bIsLogged c'"
proof -
  obtain c2 o2 where k: "check_password demo_env (Some ''pw'')
      (demo_guest 63\<lparr>nPasswordTries := nPasswordTries (demo_guest 63) + 1\<rparr>) = (c2, o2)" by fastforce
  have "\<exists>fl c' out. cmd_PASS demo_env (Some ''pw'') (demo_guest 63) demo = Ret (fl, c', out, demo) \<and>
      (bIsLogged c' \<longrightarrow> fl = Continue)"
    using demo_guest_ok(2)[of 63] unfolding cmd_PASS_def Let_def k by auto
  then obtain fl c' out where r: "cmd_PASS demo_env (Some ''pw'') (demo_guest 63) demo = Ret (fl, c', out, demo)"
    and *: "bIsLogged c' \<longrightarrow> fl = Continue" by blast
  have "bIsLogged c'"
    using PASS_decides[OF demo_guest_ok r] by (simp add: demo_guest_def demo_user_def CUserEntry_def)
  with r * show ?thesis by blast
qed

section \<open>Renames without a source\<close>

text \<open>\<open>RNTO\<close> without a preceding \<open>RNFR\<close> is not refused with 503, because the test of the source is
  the address of an array: the empty path is looked up, which reads before the start of an empty
  vector.\<close>

theorem RNTO_without_RNFR:
  assumes "bIsLogged c" and "szRenameFromPath c = []" and "client_path c (Some a) = Some pv"
  shows "shell_step e CMD_RNTO (Some a) c db = Crash OutOfBounds"
  using assms by (cases pv) (simp add: shell_step_def cmd_RNTO_def rename_of_nothing outcome_simps)

lemma demo_path: "client_path (demo_client priv) (Some ''x'') = Some (''/x'', ''/x'')"
proof -
  have "simplify_path ''/x'' = ''/x''" "simplify_path ''//x'' = ''/x''" "simplify_path ''///x'' = ''/x''" by code_simp+
  then show ?thesis
    by (simp add: client_path_def demo_client_fields demo_user_def CUserEntry_def BuildPath_def
        BuildVirtualPath_def char_at_def snprintf_path_fits MAX_PATH_def Let_def)
qed

theorem RNTO_without_RNFR_witness:
  "shell_step demo_env CMD_RNTO (Some ''x'') (demo_client 63) demo = Crash OutOfBounds"
  using demo_client_ok(2) demo_client_fields(4) demo_path by (rule RNTO_without_RNFR)

section \<open>The numbers of PASV and PORT\<close>

lemma scan_u_show:
  assumes "n < 2 ^ 32" and "\<not> isdigit (char_at r 0)"
  shows "scan_u (show_nat n @ r) = Some (n, r)"
proof -
  obtain x s where s: "show_nat n = x # s" "isdigit x" using show_nat_hd by blast
  have nos: "\<not> isspace x" "x \<noteq> CHR ''-''" "x \<noteq> CHR ''+''"
    using s(2) not_isspace_digit not_isdigit_minus by auto
  have all: "\<forall>y\<in>set (show_nat n). isdigit y" by (rule show_nat_digits)
  have stop: "takeWhile isdigit r = []" "dropWhile isdigit r = r"
    using assms(2) by (cases r; simp add: char_at_def)+
  have "dropWhile isspace (show_nat n @ r) = show_nat n @ r" using s nos by simp
  moreover have "char_at (show_nat n @ r) 0 = x" using s by (simp add: char_at_def)
  moreover have "takeWhile isdigit (show_nat n @ r) = show_nat n" "dropWhile isdigit (show_nat n @ r) = r"
    using all stop by (simp_all add: takeWhile_append dropWhile_append)
  moreover have "n < 2 ^ 64" using assms(1) by simp
  ultimately show ?thesis using assms(1) nos by (simp add: scan_u_def Let_def)
qed

lemma scan_us_more:
  "n < 2 ^ 32 \<Longrightarrow> scan_us (Suc (Suc k)) (show_nat n @ CHR '','' # r) = map_option (\<lambda>vs. n # vs) (scan_us (Suc k) r)"
  using scan_u_show[of n "CHR '','' # r"] by (simp add: char_at_def isdigit_def code_of_def)

lemma scan_us_last:
  "n < 2 ^ 32 \<Longrightarrow> \<not> isdigit (char_at r 0) \<Longrightarrow> scan_us (Suc 0) (show_nat n @ r) = Some [n]"
  by (simp add: scan_u_show)

lemma byte_small: "nat (i mod 256) < 2 ^ 32" for i :: int
proof -
  have "i mod 256 < 256" by simp
  then show ?thesis by (simp add: nat_less_iff)
qed

lemma show_byte: "show_int (i mod 256) = show_nat (nat (i mod 256))"
  by (simp add: show_int_def)

lemma scan_us_pasv:
  assumes "\<not> isdigit (char_at r 0)"
  shows "scan_us 6 (pasv_numbers ip port @ r) = Some [nat (ip mod 256), nat (ip div 256 mod 256),
    nat (ip div 65536 mod 256), nat (ip div 16777216 mod 256), unat port div 256, unat port mod 256]"
proof -
  have "unat port < 2 ^ LENGTH(16)" by (rule unsigned_less)
  then have p: "unat port div 256 < 2 ^ 32" "unat port mod 256 < 2 ^ 32" by simp_all
  have 6: "(6::nat) = Suc (Suc (Suc (Suc (Suc (Suc 0)))))" by simp
  show ?thesis
    unfolding 6 pasv_numbers_def show_byte append_assoc append_Cons append_Nil
    by (simp only: scan_us_more[OF byte_small] scan_us_more[OF p(1)] scan_us_last[OF p(2) assms] option.map)
qed

lemma ip_of_bytes:
  assumes "0 \<le> ip" and "ip < 2 ^ 32"
  shows "ip_of (nat (ip mod 256)) (nat (ip div 256 mod 256)) (nat (ip div 65536 mod 256))
    (nat (ip div 16777216 mod 256)) = ip"
proof -
  have d: "ip div 65536 = ip div 256 div 256" "ip div 16777216 = ip div 256 div 256 div 256"
    by (simp_all flip: zdiv_zmult2_eq)
  have t: "ip div 256 div 256 div 256 mod 256 = ip div 256 div 256 div 256"
    using assms by (intro mod_pos_pos_trivial) (simp_all flip: d add: pos_imp_zdiv_nonneg_iff)
  have "ip mod 256 + 256 * (ip div 256 mod 256) + 65536 * (ip div 256 div 256 mod 256) +
      16777216 * (ip div 256 div 256 div 256) = ip"
    using div_mult_mod_eq[of ip 256] div_mult_mod_eq[of "ip div 256" 256] div_mult_mod_eq[of "ip div 256 div 256" 256]
    by linarith
  moreover have "0 \<le> ip div 256 div 256 div 256" using assms(1) by (simp add: pos_imp_zdiv_nonneg_iff)
  ultimately show ?thesis unfolding ip_of_def d t by simp
qed

text \<open>C35: The numbers the server sends in its reply to \<open>PASV\<close> are read back exactly: a client that gives
  them to \<open>PORT\<close> (as in a transfer between two servers) makes the server connect to the same address
  and port. With the FXP setting off every address is accepted; with it on, only the address of the
  client itself, or any address for a client on the loopback interface.\<close>

theorem PORT_reads_PASV:
  assumes "0 < ip" and "ip < 2 ^ 32" and "port \<noteq> 0" and "eStatus c = WAITING"
  shows "\<exists>c' out. cmd_PORT e (Some (pasv_numbers ip port)) c db = Ret (Continue, c', out, db) \<and>
    (if \<not> bEnableFXP (config e) \<or> ip = ulClientIP c \<or> ulClientIP c = ip_of 127 0 0 1
     then eDataConnection c' = PORT \<and> ulDataIp c' = ip \<and> usDataPort c' = port
     else eDataConnection c' = NONE \<and> last (wires out) = ''501 PORT address does not match originator.'' @ CRLF)"
proof -
  let ?v = "[nat (ip mod 256), nat (ip div 256 mod 256),
    nat (ip div 65536 mod 256), nat (ip div 16777216 mod 256), unat port div 256, unat port mod 256]"
  have s: "scan_us 6 (pasv_numbers ip port) = Some ?v"
    using scan_us_pasv[of "[]" ip port] by (simp add: char_at_def isdigit_def code_of_def)
  have "unat port < 2 ^ LENGTH(16)" by (rule unsigned_less)
  then have port: "unat port < 65536" "unat port \<noteq> 0" using assms(3) by (simp_all add: unat_eq_0)
  have ip: "ip_of (nat (ip mod 256)) (nat (ip div 256 mod 256)) (nat (ip div 65536 mod 256))
      (nat (ip div 16777216 mod 256)) = ip"
    using assms(1,2) by (intro ip_of_bytes) simp_all
  have nz: "\<not> (nat (ip mod 256) = 0 \<and> nat (ip div 256 mod 256) = 0 \<and> nat (ip div 65536 mod 256) = 0 \<and>
      nat (ip div 16777216 mod 256) = 0)"
  proof
    assume "nat (ip mod 256) = 0 \<and> nat (ip div 256 mod 256) = 0 \<and> nat (ip div 65536 mod 256) = 0 \<and>
      nat (ip div 16777216 mod 256) = 0"
    then have "ip_of 0 0 0 0 = ip" using ip by metis
    with assms(1) show False by (simp add: ip_of_def)
  qed
  have p: "of_nat (unat port div 256 * 256 + unat port mod 256) = port" by (simp add: mult.commute)
  obtain c1 out1 where r: "(if eDataConnection c \<noteq> NONE then ResetDataConnection True c else (c, [])) = (c1, out1)"
    by fastforce
  then have c1: "eDataConnection c1 = NONE" "ulClientIP c1 = ulClientIP c"
    by (auto simp: ResetDataConnection_def split: if_splits)
  have bounds: "nat (ip mod 256) \<le> 255" "nat (ip div 256 mod 256) \<le> 255" "nat (ip div 65536 mod 256) \<le> 255"
    "nat (ip div 16777216 mod 256) \<le> 255" "unat port div 256 \<le> 255" "unat port mod 256 \<le> 255"
    "\<not> (unat port div 256 = 0 \<and> unat port mod 256 = 0)"
    using port by auto
  have "cmd_PORT e (Some (pasv_numbers ip port)) c db =
      (if \<not> bEnableFXP (config e) \<or> ip = ulClientIP c1 \<or> ulClientIP c1 = ip_of 127 0 0 1
       then Ret (Continue, c1\<lparr>eDataConnection := PORT, ulDataIp := ip, usDataPort := port\<rparr>,
         out1 @ say e ''200 PORT command successful.'', db)
       else Ret (Continue, c1, out1 @ say e ''501 PORT address does not match originator.'', db))"
    unfolding cmd_PORT_def Option.bind.bind_lunit s list.case option.case Let_def r prod.case ip p
    using assms(4) bounds nz by (simp only: simp_thms if_True if_False)
  with c1 show ?thesis by simp
qed

theorem PORT_reads_PASV_witness:
  "\<exists>c' out. cmd_PORT demo_env (Some (pasv_numbers (ip_of 10 0 0 2) 1005)) (demo_client 63) demo =
       Ret (Continue, c', out, demo) \<and> ulDataIp c' = ip_of 10 0 0 2 \<and> usDataPort c' = 1005"
proof -
  have "0 < ip_of 10 0 0 2" "ip_of 10 0 0 2 < 2 ^ 32" "(1005 :: 16 word) \<noteq> 0" by (simp_all add: ip_of_def)
  from PORT_reads_PASV[OF this demo_client_fields(2), of demo_env 63 demo]
  show ?thesis
    by (auto simp: demo_client_def demo_guest_def LogIn_def ResetTimeout_def new_client_def)
qed

section \<open>Every command is answered\<close>

text \<open>An answer: a reply, a transfer thread (which replies), or the end of the session.\<close>

definition answers :: "'db step \<Rightarrow> bool" where
  "answers m \<longleftrightarrow> (\<forall>fl c out db. m = Ret (fl, c, out, db) \<longrightarrow>
     fl = Break \<or> wires out \<noteq> [] \<or> (\<exists>k. Spawn k \<in> set out))"

lemma wires_say2: "wires (say2 e t) \<noteq> []"
  by (simp add: say2_def wires_SendReply2)

lemma answers_intros:
  "fl = Break \<or> wires out \<noteq> [] \<or> (\<exists>k. Spawn k \<in> set out) \<Longrightarrow> answers (Ret (fl, c, out, db))"
  "answers (answer e t c db)" "answers (Crash f)"
  "(\<And>x. m = Ret x \<Longrightarrow> answers (f' x)) \<Longrightarrow> answers (and_then m f')"
  "(P \<Longrightarrow> answers a) \<Longrightarrow> (\<not> P \<Longrightarrow> answers b) \<Longrightarrow> answers (if P then a else b)"
  "(z = None \<Longrightarrow> answers n) \<Longrightarrow> (\<And>y. z = Some y \<Longrightarrow> answers (g y)) \<Longrightarrow>
     answers (case z of None \<Rightarrow> n | Some y \<Rightarrow> g y)"
  "(\<And>a b. q = (a, b) \<Longrightarrow> answers (g' a b)) \<Longrightarrow> answers (case q of (a, b) \<Rightarrow> g' a b)"
  "(l = [] \<Longrightarrow> answers n) \<Longrightarrow> (\<And>v vs. l = v # vs \<Longrightarrow> answers (h v vs)) \<Longrightarrow>
     answers (case l of [] \<Rightarrow> n | v # vs \<Rightarrow> h v vs)"
  by (cases m; auto simp: answers_def answer_def split: option.splits prod.splits list.splits)+

lemma wires_LogIn: "LogIn e c = (c', out) \<Longrightarrow> wires out \<noteq> []"
  by (auto simp: LogIn_def)

lemma wires_Open: "OpenDataConnection e c = Ret (False, c', out) \<Longrightarrow> wires out \<noteq> []"
  by (auto simp: OpenDataConnection_def Let_def and_then_eq_Ret split: if_splits prod.splits)

lemma answers_session:
  "answers (cmd_QUIT e c db)" "answers (cmd_USER e arg c db)" "answers (cmd_CLNT e arg c db)"
  "answers (cmd_STRU e arg c db)" "answers (cmd_OPTS e arg c db)" "answers (cmd_MODE e arg c db)"
  "answers (cmd_TYPE e arg c db)" "answers (cmd_FEAT e c db)" "answers (cmd_PWD e c db)"
  "answers (cmd_REST e arg c db)" "answers (cmd_CDUP e c db)" "answers (cmd_ABOR e c db)"
  unfolding cmd_QUIT_def cmd_USER_def cmd_CLNT_def cmd_STRU_def cmd_OPTS_def cmd_MODE_def cmd_TYPE_def
    cmd_FEAT_def cmd_PWD_def cmd_REST_def cmd_CDUP_def cmd_ABOR_def invalid_args_def syntax_error_def Let_def
  by (intro answers_intros; auto simp: wires_say2 dest: wires_LogIn)+

lemma answers_PASS: "answers (cmd_PASS e arg c db)"
  unfolding cmd_PASS_def Let_def
  by (intro answers_intros; auto simp: wires_say2 check_password_def LogIn_def split: option.splits if_splits)

lemma answers_tree:
  "answers (cmd_CWD e arg c db)" "answers (cmd_MDTM e arg c db)" "answers (cmd_SIZE e arg c db)"
  "answers (cmd_DELE e arg c db)" "answers (cmd_RNFR e arg c db)" "answers (cmd_RNTO e arg c db)"
  "answers (cmd_MKD e arg c db)" "answers (cmd_RMD e arg c db)" "answers (cmd_PRET e arg c db)"
  "answers (cmd_PORT e arg c db)"
  unfolding cmd_CWD_def cmd_MDTM_def cmd_SIZE_def cmd_DELE_def cmd_RNFR_def cmd_RNTO_def cmd_MKD_def cmd_RMD_def
    cmd_PRET_def cmd_PORT_def invalid_args_def syntax_error_def Let_def
  by (intro answers_intros; simp add: wires_say2)+

lemma answers_start: "thread_ok e \<Longrightarrow> answers (start_transfer e k ev s p out c db)"
  unfolding start_transfer_def Let_def by (intro answers_intros; auto)

lemma answers_LIST: "thread_ok e \<Longrightarrow> answers (cmd_LIST e nCmd arg c db)"
  unfolding cmd_LIST_def Let_def by (intro answers_intros; auto dest: wires_Open split: if_splits)

lemma answers_RETR: "thread_ok e \<Longrightarrow> answers (cmd_RETR e arg c db)"
  unfolding cmd_RETR_def pasv_failed_def syntax_error_def by (intro answers_intros answers_start; simp)

lemma answers_STOR:
  assumes "thread_ok e" and "nCmd \<noteq> CMD_STOU" and "client_path c arg \<noteq> None"
  shows "answers (cmd_STOR e nCmd arg c db)"
proof -
  have "store_path e nCmd arg c db = Ret (map_option fst (client_path c arg), [], db)"
    using assms(2) by (simp add: store_path_def)
  then show ?thesis
    using assms unfolding cmd_STOR_def pasv_failed_def syntax_error_def
    by (intro answers_intros answers_start; auto)
qed

lemma answers_shell:
  assumes "thread_ok e" and "nCmd \<noteq> CMD_PASV" and "nCmd \<noteq> CMD_STOU"
    and "nCmd = CMD_STOR \<or> nCmd = CMD_APPE \<Longrightarrow> client_path c arg \<noteq> None"
  shows "answers (shell_step e nCmd arg c db)"
proof (cases "nCmd = CMD_STOR \<or> nCmd = CMD_APPE")
  case True
  with answers_STOR[OF assms(1,3) assms(4)[OF True]] answers_intros(2) show ?thesis
    by (auto simp: shell_step_def)
next
  case False
  with assms(2,3) show ?thesis
    unfolding shell_step_def
    by (intro answers_intros(5) answers_intros(2) answers_session answers_PASS answers_tree answers_LIST[OF assms(1)]
        answers_RETR[OF assms(1)]; simp)
qed



end
