(* ===== verification/Thrift.thy ===== *)
theory Thrift
  imports SlaveService
begin

text \<open>
  The structures that the meta server and the slaves exchange (gen-cpp/slave_services_types.cpp), over
  the protocol of the Thrift library, which is a parameter: the record \<open>proto\<close> holds its operations on
  one direction of a connection, and the locale \<open>thrift_protocol\<close> says what the generated code relies on.
\<close>

section \<open>The protocol\<close>

datatype ttype = T_STOP | T_I16 | T_I32 | T_I64 | T_STRING | T_STRUCT | T_OTHER nat

datatype mtype = T_CALL | T_REPLY | T_EXCEPTION | T_ONEWAY

text \<open>The calls that write to the protocol; \<open>AppException\<close> stands for \<open>TApplicationException::write\<close>.\<close>

datatype wcall =
    MessageBegin string mtype int
  | MessageEnd
  | StructBegin string
  | StructEnd
  | FieldBegin string ttype int
  | FieldEnd
  | FieldStop
  | I16 "16 word"
  | I32 "32 word"
  | I64 "64 word"
  | Str string
  | AppException string

text \<open>
  The operations of the library, on a state \<open>'p\<close>; \<open>None\<close> is an exception (\<open>TException\<close>). \<open>put_call\<close> does a call
  that writes, \<open>flush_out\<close> is \<open>writeEnd\<close> and \<open>flush\<close> of the transport, \<open>read_end\<close> its \<open>readEnd\<close>.
\<close>

record 'p proto =
  put_call :: "wcall \<Rightarrow> 'p \<Rightarrow> 'p option"
  flush_out :: "'p \<Rightarrow> 'p option"
  read_end :: "'p \<Rightarrow> 'p option"
  readMessageBegin :: "'p \<Rightarrow> ((string \<times> mtype \<times> int) \<times> 'p) option"
  readMessageEnd :: "'p \<Rightarrow> 'p option"
  readStructBegin :: "'p \<Rightarrow> 'p option"
  readStructEnd :: "'p \<Rightarrow> 'p option"
  readFieldBegin :: "'p \<Rightarrow> ((ttype \<times> int) \<times> 'p) option"
  readFieldEnd :: "'p \<Rightarrow> 'p option"
  readI16 :: "'p \<Rightarrow> (16 word \<times> 'p) option"
  readI32 :: "'p \<Rightarrow> (32 word \<times> 'p) option"
  readI64 :: "'p \<Rightarrow> (64 word \<times> 'p) option"
  readString :: "'p \<Rightarrow> (string \<times> 'p) option"
  skip_value :: "ttype \<Rightarrow> 'p \<Rightarrow> 'p option"

primrec emit :: "'p proto \<Rightarrow> wcall list \<Rightarrow> 'p \<Rightarrow> 'p option" where
  "emit P [] p = Some p"
| "emit P (c # cs) p = Option.bind (put_call P c p) (emit P cs)"

text \<open>Reading: \<open>Ret None\<close> is an exception, \<open>Hang\<close> a read that never returns.\<close>

definition attempt :: "'a option outcome \<Rightarrow> ('a \<Rightarrow> 'b option outcome) \<Rightarrow> 'b option outcome" where
  "attempt m f = and_then m (\<lambda>r. case r of None \<Rightarrow> Ret None | Some x \<Rightarrow> f x)"

lemma attempt_simps [simp]:
  "attempt (Ret None) f = Ret None" "attempt (Ret (Some x)) f = f x" "attempt Hang f = Hang"
  "attempt (Crash e) f = Crash e"
  by (simp_all add: attempt_def)

section \<open>Reading a structure\<close>

text \<open>
  A structure with its \<open>__isset\<close>, which is the set of the ids of the fields that were read. \<open>read_loop\<close> is the
  loop of every \<open>read\<close>, \<open>h\<close> is its \<open>switch\<close>.
\<close>

type_synonym 'a isset = "'a \<times> int set"

type_synonym ('a, 'p) struct_reader = "'a \<Rightarrow> 'p \<Rightarrow> ('a \<times> 'p) option outcome"

partial_function (option) read_loop ::
  "'p proto \<Rightarrow> (ttype \<Rightarrow> int \<Rightarrow> ('x, 'p) struct_reader) \<Rightarrow> 'x \<Rightarrow> 'p \<Rightarrow> ('x \<times> 'p) option outcome option" where
  "read_loop P h x p = (case readFieldBegin P p of
      None \<Rightarrow> Some (Ret None)
    | Some f \<Rightarrow>
        if fst (fst f) = T_STOP then Some (Ret (map_option (Pair x) (readStructEnd P (snd f))))
        else (case h (fst (fst f)) (snd (fst f)) x (snd f) of
            Crash e \<Rightarrow> Some (Crash e)
          | Hang \<Rightarrow> None
          | Ret r \<Rightarrow> (case r of
                None \<Rightarrow> Some (Ret None)
              | Some y \<Rightarrow> (case readFieldEnd P (snd y) of
                    None \<Rightarrow> Some (Ret None)
                  | Some p' \<Rightarrow> read_loop P h (fst y) p'))))"

definition read_struct :: "'p proto \<Rightarrow> (ttype \<Rightarrow> int \<Rightarrow> ('x, 'p) struct_reader) \<Rightarrow> ('x, 'p) struct_reader" where
  "read_struct P h x p = attempt (Ret (readStructBegin P p)) (\<lambda>p1.
     case read_loop P h x p1 of None \<Rightarrow> Hang | Some r \<Rightarrow> r)"

text \<open>The branches of the switch: skip the value, read a number or a text, read a structure in place.\<close>

definition skip_field :: "'p proto \<Rightarrow> ttype \<Rightarrow> ('a isset, 'p) struct_reader" where
  "skip_field P ft x p = Ret (map_option (Pair x) (skip_value P ft p))"

definition scalar :: "'p proto \<Rightarrow> ttype \<Rightarrow> ('p \<Rightarrow> ('v \<times> 'p) option) \<Rightarrow> ('v \<Rightarrow> 'a \<Rightarrow> 'a) \<Rightarrow> ttype \<Rightarrow> int \<Rightarrow>
    ('a isset, 'p) struct_reader" where
  "scalar P want rd upd ft fid x p =
     (if ft = want then Ret (map_option (\<lambda>(v, p'). ((upd v (fst x), insert fid (snd x)), p')) (rd p))
      else skip_field P ft x p)"

definition nested :: "'p proto \<Rightarrow> ('v isset, 'p) struct_reader \<Rightarrow> ('a \<Rightarrow> 'v) \<Rightarrow> ('v \<Rightarrow> 'a \<Rightarrow> 'a) \<Rightarrow> ttype \<Rightarrow> int \<Rightarrow>
    ('a isset, 'p) struct_reader" where
  "nested P rd get upd ft fid x p =
     (if ft = T_STRUCT
      then attempt (rd (get (fst x), {}) p) (\<lambda>(v, p'). Ret (Some ((upd (fst v) (fst x), insert fid (snd x)), p')))
      else skip_field P ft x p)"

section \<open>The structures\<close>

definition i16 :: "int \<Rightarrow> wcall" where "i16 v = I16 (word_of_int v)"
definition i32 :: "int \<Rightarrow> wcall" where "i32 v = I32 (word_of_int v)"
definition i64 :: "int \<Rightarrow> wcall" where "i64 v = I64 (word_of_int v)"

definition new_PasvParams :: PasvParams where
  "new_PasvParams = \<lparr>p_server_ip = 0, p_server_port = 0, p_fid = 0, p_restart_at = 0,
     p_transfer_buffer_size = 0, p_trans_id = 0\<rparr>"

definition new_ActiveParams :: ActiveParams where
  "new_ActiveParams = PasvParams.extend new_PasvParams (ActiveParams.fields 0 0)"

definition new_StorRetVal :: StorRetVal where
  "new_StorRetVal = \<lparr>rv_msg = [], rv_size = 0\<rparr>"

definition ActiveParams_field :: "'p proto \<Rightarrow> ttype \<Rightarrow> int \<Rightarrow> (ActiveParams isset, 'p) struct_reader" where
  "ActiveParams_field P ft fid =
     (if fid = 1 then scalar P T_I64 (readI64 P) (\<lambda>v a. a\<lparr>p_client_ip := sint v\<rparr>) ft fid
      else if fid = 2 then scalar P T_I32 (readI32 P) (\<lambda>v a. a\<lparr>p_client_port := sint v\<rparr>) ft fid
      else if fid = 3 then scalar P T_I64 (readI64 P) (\<lambda>v a. a\<lparr>p_fid := sint v\<rparr>) ft fid
      else if fid = 4 then scalar P T_I64 (readI64 P) (\<lambda>v a. a\<lparr>p_restart_at := sint v\<rparr>) ft fid
      else if fid = 5 then scalar P T_I32 (readI32 P) (\<lambda>v a. a\<lparr>p_transfer_buffer_size := sint v\<rparr>) ft fid
      else if fid = 6 then scalar P T_I64 (readI64 P) (\<lambda>v a. a\<lparr>p_server_ip := sint v\<rparr>) ft fid
      else if fid = 7 then scalar P T_I32 (readI32 P) (\<lambda>v a. a\<lparr>p_server_port := sint v\<rparr>) ft fid
      else if fid = 8 then scalar P T_I64 (readI64 P) (\<lambda>v a. a\<lparr>p_trans_id := sint v\<rparr>) ft fid
      else skip_field P ft)"

definition ActiveParams_read :: "'p proto \<Rightarrow> (ActiveParams isset, 'p) struct_reader" where
  "ActiveParams_read P = read_struct P (ActiveParams_field P)"

definition ActiveParams_write :: "ActiveParams \<Rightarrow> wcall list" where
  "ActiveParams_write a = [StructBegin ''ActiveParams'',
     FieldBegin ''client_ip'' T_I64 1, i64 (p_client_ip a), FieldEnd,
     FieldBegin ''client_port'' T_I32 2, i32 (p_client_port a), FieldEnd,
     FieldBegin ''fid'' T_I64 3, i64 (p_fid a), FieldEnd,
     FieldBegin ''restart_at'' T_I64 4, i64 (p_restart_at a), FieldEnd,
     FieldBegin ''transfer_buffer_size'' T_I32 5, i32 (p_transfer_buffer_size a), FieldEnd,
     FieldBegin ''server_ip'' T_I64 6, i64 (p_server_ip a), FieldEnd,
     FieldBegin ''server_port'' T_I32 7, i32 (p_server_port a), FieldEnd,
     FieldBegin ''trans_id'' T_I64 8, i64 (p_trans_id a), FieldEnd,
     FieldStop, StructEnd]"

definition PasvParams_field :: "'p proto \<Rightarrow> ttype \<Rightarrow> int \<Rightarrow> (PasvParams isset, 'p) struct_reader" where
  "PasvParams_field P ft fid =
     (if fid = 1 then scalar P T_I64 (readI64 P) (\<lambda>v a. a\<lparr>p_server_ip := sint v\<rparr>) ft fid
      else if fid = 2 then scalar P T_I32 (readI32 P) (\<lambda>v a. a\<lparr>p_server_port := sint v\<rparr>) ft fid
      else if fid = 3 then scalar P T_I64 (readI64 P) (\<lambda>v a. a\<lparr>p_fid := sint v\<rparr>) ft fid
      else if fid = 4 then scalar P T_I64 (readI64 P) (\<lambda>v a. a\<lparr>p_restart_at := sint v\<rparr>) ft fid
      else if fid = 5 then scalar P T_I32 (readI32 P) (\<lambda>v a. a\<lparr>p_transfer_buffer_size := sint v\<rparr>) ft fid
      else if fid = 6 then scalar P T_I64 (readI64 P) (\<lambda>v a. a\<lparr>p_trans_id := sint v\<rparr>) ft fid
      else skip_field P ft)"

definition PasvParams_read :: "'p proto \<Rightarrow> (PasvParams isset, 'p) struct_reader" where
  "PasvParams_read P = read_struct P (PasvParams_field P)"

definition PasvParams_write :: "PasvParams \<Rightarrow> wcall list" where
  "PasvParams_write a = [StructBegin ''PasvParams'',
     FieldBegin ''server_ip'' T_I64 1, i64 (p_server_ip a), FieldEnd,
     FieldBegin ''server_port'' T_I32 2, i32 (p_server_port a), FieldEnd,
     FieldBegin ''fid'' T_I64 3, i64 (p_fid a), FieldEnd,
     FieldBegin ''restart_at'' T_I64 4, i64 (p_restart_at a), FieldEnd,
     FieldBegin ''transfer_buffer_size'' T_I32 5, i32 (p_transfer_buffer_size a), FieldEnd,
     FieldBegin ''trans_id'' T_I64 6, i64 (p_trans_id a), FieldEnd,
     FieldStop, StructEnd]"

definition StorRetVal_field :: "'p proto \<Rightarrow> ttype \<Rightarrow> int \<Rightarrow> (StorRetVal isset, 'p) struct_reader" where
  "StorRetVal_field P ft fid =
     (if fid = 1 then scalar P T_STRING (readString P) (\<lambda>v a. a\<lparr>rv_msg := v\<rparr>) ft fid
      else if fid = 2 then scalar P T_I64 (readI64 P) (\<lambda>v a. a\<lparr>rv_size := sint v\<rparr>) ft fid
      else skip_field P ft)"

definition StorRetVal_read :: "'p proto \<Rightarrow> (StorRetVal isset, 'p) struct_reader" where
  "StorRetVal_read P = read_struct P (StorRetVal_field P)"

definition StorRetVal_write :: "StorRetVal \<Rightarrow> wcall list" where
  "StorRetVal_write a = [StructBegin ''StorRetVal'',
     FieldBegin ''msg'' T_STRING 1, Str (rv_msg a), FieldEnd,
     FieldBegin ''size'' T_I64 2, i64 (rv_size a), FieldEnd,
     FieldStop, StructEnd]"

end
