(* ===== verification/ThriftService.thy ===== *)
theory ThriftService
  imports Thrift
begin

text \<open>
  The calls of the service \<open>slave_services\<close> (gen-cpp/slave_services.cpp): the structures of their arguments
  and results, the client's half of a call (\<open>send_\<close> and \<open>recv_\<close>) and the processor's (\<open>process_\<close> and
  \<open>dispatchCall\<close>). Every call has an argument \<open>p\<close>; the structures \<open>pargs\<close> and \<open>presult\<close> hold pointers to
  what \<open>args\<close> and \<open>result\<close> hold. No event handler is installed.
\<close>

section \<open>Arguments\<close>

record InitPasvDataConnection_args =
  ip_p :: PasvParams
  ip_startPort :: int
  ip_portLen :: int

definition new_InitPasvDataConnection_args :: InitPasvDataConnection_args where
  "new_InitPasvDataConnection_args = \<lparr>ip_p = new_PasvParams, ip_startPort = 0, ip_portLen = 0\<rparr>"

definition InitPasvDataConnection_args_field :: "'p proto \<Rightarrow> ttype \<Rightarrow> int \<Rightarrow> (InitPasvDataConnection_args isset, 'p) struct_reader" where
  "InitPasvDataConnection_args_field P ft fid =
     (if fid = 1 then nested P (PasvParams_read P) ip_p (\<lambda>v a. a\<lparr>ip_p := v\<rparr>) ft fid
      else if fid = 2 then scalar P T_I32 (readI32 P) (\<lambda>v a. a\<lparr>ip_startPort := sint v\<rparr>) ft fid
      else if fid = 3 then scalar P T_I16 (readI16 P) (\<lambda>v a. a\<lparr>ip_portLen := sint v\<rparr>) ft fid
      else skip_field P ft)"

definition InitPasvDataConnection_args_read :: "'p proto \<Rightarrow> (InitPasvDataConnection_args isset, 'p) struct_reader" where
  "InitPasvDataConnection_args_read P = read_struct P (InitPasvDataConnection_args_field P)"

definition InitPasvDataConnection_args_write :: "InitPasvDataConnection_args \<Rightarrow> wcall list" where
  "InitPasvDataConnection_args_write a = StructBegin ''slave_services_InitPasvDataConnection_args'' #
     FieldBegin ''p'' T_STRUCT 1 # PasvParams_write (ip_p a) @ [FieldEnd,
     FieldBegin ''startPort'' T_I32 2, i32 (ip_startPort a), FieldEnd,
     FieldBegin ''portLen'' T_I16 3, i16 (ip_portLen a), FieldEnd,
     FieldStop, StructEnd]"

definition InitPasvDataConnection_pargs_write :: "InitPasvDataConnection_args \<Rightarrow> wcall list" where
  "InitPasvDataConnection_pargs_write a = StructBegin ''slave_services_InitPasvDataConnection_pargs'' #
     FieldBegin ''p'' T_STRUCT 1 # PasvParams_write (ip_p a) @ [FieldEnd,
     FieldBegin ''startPort'' T_I32 2, i32 (ip_startPort a), FieldEnd,
     FieldBegin ''portLen'' T_I16 3, i16 (ip_portLen a), FieldEnd,
     FieldStop, StructEnd]"

record OpenPasvDataConnection_args =
  op_p :: PasvParams

definition new_OpenPasvDataConnection_args :: OpenPasvDataConnection_args where
  "new_OpenPasvDataConnection_args = \<lparr>op_p = new_PasvParams\<rparr>"

definition OpenPasvDataConnection_args_field :: "'p proto \<Rightarrow> ttype \<Rightarrow> int \<Rightarrow> (OpenPasvDataConnection_args isset, 'p) struct_reader" where
  "OpenPasvDataConnection_args_field P ft fid =
     (if fid = 1 then nested P (PasvParams_read P) op_p (\<lambda>v a. a\<lparr>op_p := v\<rparr>) ft fid
      else skip_field P ft)"

definition OpenPasvDataConnection_args_read :: "'p proto \<Rightarrow> (OpenPasvDataConnection_args isset, 'p) struct_reader" where
  "OpenPasvDataConnection_args_read P = read_struct P (OpenPasvDataConnection_args_field P)"

definition OpenPasvDataConnection_args_write :: "OpenPasvDataConnection_args \<Rightarrow> wcall list" where
  "OpenPasvDataConnection_args_write a = StructBegin ''slave_services_OpenPasvDataConnection_args'' #
     FieldBegin ''p'' T_STRUCT 1 # PasvParams_write (op_p a) @ [FieldEnd,
     FieldStop, StructEnd]"

definition OpenPasvDataConnection_pargs_write :: "OpenPasvDataConnection_args \<Rightarrow> wcall list" where
  "OpenPasvDataConnection_pargs_write a = StructBegin ''slave_services_OpenPasvDataConnection_pargs'' #
     FieldBegin ''p'' T_STRUCT 1 # PasvParams_write (op_p a) @ [FieldEnd,
     FieldStop, StructEnd]"

record ActiveStoreTransfer_args =
  as_p :: ActiveParams
  as_iflags :: int

definition new_ActiveStoreTransfer_args :: ActiveStoreTransfer_args where
  "new_ActiveStoreTransfer_args = \<lparr>as_p = new_ActiveParams, as_iflags = 0\<rparr>"

definition ActiveStoreTransfer_args_field :: "'p proto \<Rightarrow> ttype \<Rightarrow> int \<Rightarrow> (ActiveStoreTransfer_args isset, 'p) struct_reader" where
  "ActiveStoreTransfer_args_field P ft fid =
     (if fid = 1 then nested P (ActiveParams_read P) as_p (\<lambda>v a. a\<lparr>as_p := v\<rparr>) ft fid
      else if fid = 2 then scalar P T_I32 (readI32 P) (\<lambda>v a. a\<lparr>as_iflags := sint v\<rparr>) ft fid
      else skip_field P ft)"

definition ActiveStoreTransfer_args_read :: "'p proto \<Rightarrow> (ActiveStoreTransfer_args isset, 'p) struct_reader" where
  "ActiveStoreTransfer_args_read P = read_struct P (ActiveStoreTransfer_args_field P)"

definition ActiveStoreTransfer_args_write :: "ActiveStoreTransfer_args \<Rightarrow> wcall list" where
  "ActiveStoreTransfer_args_write a = StructBegin ''slave_services_ActiveStoreTransfer_args'' #
     FieldBegin ''p'' T_STRUCT 1 # ActiveParams_write (as_p a) @ [FieldEnd,
     FieldBegin ''iflags'' T_I32 2, i32 (as_iflags a), FieldEnd,
     FieldStop, StructEnd]"

definition ActiveStoreTransfer_pargs_write :: "ActiveStoreTransfer_args \<Rightarrow> wcall list" where
  "ActiveStoreTransfer_pargs_write a = StructBegin ''slave_services_ActiveStoreTransfer_pargs'' #
     FieldBegin ''p'' T_STRUCT 1 # ActiveParams_write (as_p a) @ [FieldEnd,
     FieldBegin ''iflags'' T_I32 2, i32 (as_iflags a), FieldEnd,
     FieldStop, StructEnd]"

record PasvStoreTransfer_args =
  ps_p :: PasvParams
  ps_iflags :: int

definition new_PasvStoreTransfer_args :: PasvStoreTransfer_args where
  "new_PasvStoreTransfer_args = \<lparr>ps_p = new_PasvParams, ps_iflags = 0\<rparr>"

definition PasvStoreTransfer_args_field :: "'p proto \<Rightarrow> ttype \<Rightarrow> int \<Rightarrow> (PasvStoreTransfer_args isset, 'p) struct_reader" where
  "PasvStoreTransfer_args_field P ft fid =
     (if fid = 1 then nested P (PasvParams_read P) ps_p (\<lambda>v a. a\<lparr>ps_p := v\<rparr>) ft fid
      else if fid = 2 then scalar P T_I32 (readI32 P) (\<lambda>v a. a\<lparr>ps_iflags := sint v\<rparr>) ft fid
      else skip_field P ft)"

definition PasvStoreTransfer_args_read :: "'p proto \<Rightarrow> (PasvStoreTransfer_args isset, 'p) struct_reader" where
  "PasvStoreTransfer_args_read P = read_struct P (PasvStoreTransfer_args_field P)"

definition PasvStoreTransfer_args_write :: "PasvStoreTransfer_args \<Rightarrow> wcall list" where
  "PasvStoreTransfer_args_write a = StructBegin ''slave_services_PasvStoreTransfer_args'' #
     FieldBegin ''p'' T_STRUCT 1 # PasvParams_write (ps_p a) @ [FieldEnd,
     FieldBegin ''iflags'' T_I32 2, i32 (ps_iflags a), FieldEnd,
     FieldStop, StructEnd]"

definition PasvStoreTransfer_pargs_write :: "PasvStoreTransfer_args \<Rightarrow> wcall list" where
  "PasvStoreTransfer_pargs_write a = StructBegin ''slave_services_PasvStoreTransfer_pargs'' #
     FieldBegin ''p'' T_STRUCT 1 # PasvParams_write (ps_p a) @ [FieldEnd,
     FieldBegin ''iflags'' T_I32 2, i32 (ps_iflags a), FieldEnd,
     FieldStop, StructEnd]"

record ActiveRetrieveTransfer_args =
  ar_p :: ActiveParams

definition new_ActiveRetrieveTransfer_args :: ActiveRetrieveTransfer_args where
  "new_ActiveRetrieveTransfer_args = \<lparr>ar_p = new_ActiveParams\<rparr>"

definition ActiveRetrieveTransfer_args_field :: "'p proto \<Rightarrow> ttype \<Rightarrow> int \<Rightarrow> (ActiveRetrieveTransfer_args isset, 'p) struct_reader" where
  "ActiveRetrieveTransfer_args_field P ft fid =
     (if fid = 1 then nested P (ActiveParams_read P) ar_p (\<lambda>v a. a\<lparr>ar_p := v\<rparr>) ft fid
      else skip_field P ft)"

definition ActiveRetrieveTransfer_args_read :: "'p proto \<Rightarrow> (ActiveRetrieveTransfer_args isset, 'p) struct_reader" where
  "ActiveRetrieveTransfer_args_read P = read_struct P (ActiveRetrieveTransfer_args_field P)"

definition ActiveRetrieveTransfer_args_write :: "ActiveRetrieveTransfer_args \<Rightarrow> wcall list" where
  "ActiveRetrieveTransfer_args_write a = StructBegin ''slave_services_ActiveRetrieveTransfer_args'' #
     FieldBegin ''p'' T_STRUCT 1 # ActiveParams_write (ar_p a) @ [FieldEnd,
     FieldStop, StructEnd]"

definition ActiveRetrieveTransfer_pargs_write :: "ActiveRetrieveTransfer_args \<Rightarrow> wcall list" where
  "ActiveRetrieveTransfer_pargs_write a = StructBegin ''slave_services_ActiveRetrieveTransfer_pargs'' #
     FieldBegin ''p'' T_STRUCT 1 # ActiveParams_write (ar_p a) @ [FieldEnd,
     FieldStop, StructEnd]"

record PasvRetrieveTransfer_args =
  pr_p :: PasvParams

definition new_PasvRetrieveTransfer_args :: PasvRetrieveTransfer_args where
  "new_PasvRetrieveTransfer_args = \<lparr>pr_p = new_PasvParams\<rparr>"

definition PasvRetrieveTransfer_args_field :: "'p proto \<Rightarrow> ttype \<Rightarrow> int \<Rightarrow> (PasvRetrieveTransfer_args isset, 'p) struct_reader" where
  "PasvRetrieveTransfer_args_field P ft fid =
     (if fid = 1 then nested P (PasvParams_read P) pr_p (\<lambda>v a. a\<lparr>pr_p := v\<rparr>) ft fid
      else skip_field P ft)"

definition PasvRetrieveTransfer_args_read :: "'p proto \<Rightarrow> (PasvRetrieveTransfer_args isset, 'p) struct_reader" where
  "PasvRetrieveTransfer_args_read P = read_struct P (PasvRetrieveTransfer_args_field P)"

definition PasvRetrieveTransfer_args_write :: "PasvRetrieveTransfer_args \<Rightarrow> wcall list" where
  "PasvRetrieveTransfer_args_write a = StructBegin ''slave_services_PasvRetrieveTransfer_args'' #
     FieldBegin ''p'' T_STRUCT 1 # PasvParams_write (pr_p a) @ [FieldEnd,
     FieldStop, StructEnd]"

definition PasvRetrieveTransfer_pargs_write :: "PasvRetrieveTransfer_args \<Rightarrow> wcall list" where
  "PasvRetrieveTransfer_pargs_write a = StructBegin ''slave_services_PasvRetrieveTransfer_pargs'' #
     FieldBegin ''p'' T_STRUCT 1 # PasvParams_write (pr_p a) @ [FieldEnd,
     FieldStop, StructEnd]"

section \<open>Results\<close>

text \<open>
  A result is the field \<open>success\<close> with the id 0, a text or a \<open>StorRetVal\<close>; \<open>write\<close> leaves it out when it is
  not set. The value of a structure that is read is the one that \<open>success\<close> had before.
\<close>

definition string_result_field :: "'p proto \<Rightarrow> ttype \<Rightarrow> int \<Rightarrow> (string isset, 'p) struct_reader" where
  "string_result_field P ft fid =
     (if fid = 0 then scalar P T_STRING (readString P) (\<lambda>v a. v) ft fid else skip_field P ft)"

definition stor_result_field :: "'p proto \<Rightarrow> ttype \<Rightarrow> int \<Rightarrow> (StorRetVal isset, 'p) struct_reader" where
  "stor_result_field P ft fid =
     (if fid = 0 then nested P (StorRetVal_read P) id (\<lambda>v a. v) ft fid else skip_field P ft)"

definition string_result :: "string \<Rightarrow> string isset \<Rightarrow> wcall list" where
  "string_result name x = StructBegin name #
     (if 0 \<in> snd x then [FieldBegin ''success'' T_STRING 0, Str (fst x), FieldEnd] else []) @ [FieldStop, StructEnd]"

definition stor_result :: "string \<Rightarrow> StorRetVal isset \<Rightarrow> wcall list" where
  "stor_result name x = StructBegin name #
     (if 0 \<in> snd x then FieldBegin ''success'' T_STRUCT 0 # StorRetVal_write (fst x) @ [FieldEnd] else []) @
     [FieldStop, StructEnd]"

definition InitPasvDataConnection_result_read :: "'p proto \<Rightarrow> (string isset, 'p) struct_reader" where
  "InitPasvDataConnection_result_read P = read_struct P (string_result_field P)"

definition InitPasvDataConnection_result_write :: "string isset \<Rightarrow> wcall list" where
  "InitPasvDataConnection_result_write = string_result ''slave_services_InitPasvDataConnection_result''"

definition InitPasvDataConnection_presult_read :: "'p proto \<Rightarrow> (string isset, 'p) struct_reader" where
  "InitPasvDataConnection_presult_read P = read_struct P (string_result_field P)"

definition OpenPasvDataConnection_result_read :: "'p proto \<Rightarrow> (string isset, 'p) struct_reader" where
  "OpenPasvDataConnection_result_read P = read_struct P (string_result_field P)"

definition OpenPasvDataConnection_result_write :: "string isset \<Rightarrow> wcall list" where
  "OpenPasvDataConnection_result_write = string_result ''slave_services_OpenPasvDataConnection_result''"

definition OpenPasvDataConnection_presult_read :: "'p proto \<Rightarrow> (string isset, 'p) struct_reader" where
  "OpenPasvDataConnection_presult_read P = read_struct P (string_result_field P)"

definition ActiveStoreTransfer_result_read :: "'p proto \<Rightarrow> (StorRetVal isset, 'p) struct_reader" where
  "ActiveStoreTransfer_result_read P = read_struct P (stor_result_field P)"

definition ActiveStoreTransfer_result_write :: "StorRetVal isset \<Rightarrow> wcall list" where
  "ActiveStoreTransfer_result_write = stor_result ''slave_services_ActiveStoreTransfer_result''"

definition ActiveStoreTransfer_presult_read :: "'p proto \<Rightarrow> (StorRetVal isset, 'p) struct_reader" where
  "ActiveStoreTransfer_presult_read P = read_struct P (stor_result_field P)"

definition PasvStoreTransfer_result_read :: "'p proto \<Rightarrow> (StorRetVal isset, 'p) struct_reader" where
  "PasvStoreTransfer_result_read P = read_struct P (stor_result_field P)"

definition PasvStoreTransfer_result_write :: "StorRetVal isset \<Rightarrow> wcall list" where
  "PasvStoreTransfer_result_write = stor_result ''slave_services_PasvStoreTransfer_result''"

definition PasvStoreTransfer_presult_read :: "'p proto \<Rightarrow> (StorRetVal isset, 'p) struct_reader" where
  "PasvStoreTransfer_presult_read P = read_struct P (stor_result_field P)"

definition ActiveRetrieveTransfer_result_read :: "'p proto \<Rightarrow> (string isset, 'p) struct_reader" where
  "ActiveRetrieveTransfer_result_read P = read_struct P (string_result_field P)"

definition ActiveRetrieveTransfer_result_write :: "string isset \<Rightarrow> wcall list" where
  "ActiveRetrieveTransfer_result_write = string_result ''slave_services_ActiveRetrieveTransfer_result''"

definition ActiveRetrieveTransfer_presult_read :: "'p proto \<Rightarrow> (string isset, 'p) struct_reader" where
  "ActiveRetrieveTransfer_presult_read P = read_struct P (string_result_field P)"

definition PasvRetrieveTransfer_result_read :: "'p proto \<Rightarrow> (string isset, 'p) struct_reader" where
  "PasvRetrieveTransfer_result_read P = read_struct P (string_result_field P)"

definition PasvRetrieveTransfer_result_write :: "string isset \<Rightarrow> wcall list" where
  "PasvRetrieveTransfer_result_write = string_result ''slave_services_PasvRetrieveTransfer_result''"

definition PasvRetrieveTransfer_presult_read :: "'p proto \<Rightarrow> (string isset, 'p) struct_reader" where
  "PasvRetrieveTransfer_presult_read P = read_struct P (string_result_field P)"

section \<open>The client\<close>

definition send_message :: "'p proto \<Rightarrow> wcall list \<Rightarrow> 'p \<Rightarrow> 'p option" where
  "send_message P cs p = Option.bind (emit P cs p) (flush_out P)"

definition end_message :: "'p proto \<Rightarrow> 'p \<Rightarrow> 'p option" where
  "end_message P p = Option.bind (readMessageEnd P p) (read_end P)"

definition skip_message :: "'p proto \<Rightarrow> 'p \<Rightarrow> 'p option" where
  "skip_message P p = Option.bind (skip_value P T_STRUCT p) (end_message P)"

text \<open>
  The body of every \<open>recv_\<close>. After a message that is no reply, or the reply to another call, it skips a
  structure and reads on: there is no return after the skip. An exception in the message is read and thrown.
\<close>

definition recv_result :: "'p proto \<Rightarrow> string \<Rightarrow> ('r isset, 'p) struct_reader \<Rightarrow> 'r \<Rightarrow> 'p \<Rightarrow> ('r \<times> 'p) option outcome" where
  "recv_result P name rd ret p = attempt (Ret (readMessageBegin P p)) (\<lambda>((fname, mt, rseqid), p1).
     if mt = T_EXCEPTION then Ret None
     else attempt (Ret (if mt \<noteq> T_REPLY then skip_message P p1 else Some p1)) (\<lambda>p2.
       attempt (Ret (if fname \<noteq> name then skip_message P p2 else Some p2)) (\<lambda>p3.
         attempt (rd (ret, {}) p3) (\<lambda>((v, isset), p4).
           attempt (Ret (end_message P p4)) (\<lambda>p5. Ret (if 0 \<in> isset then Some (v, p5) else None))))))"

definition send_InitPasvDataConnection :: "'p proto \<Rightarrow> InitPasvDataConnection_args \<Rightarrow> 'p \<Rightarrow> 'p option" where
  "send_InitPasvDataConnection P a = send_message P
     (MessageBegin ''InitPasvDataConnection'' T_CALL 0 # InitPasvDataConnection_pargs_write a @ [MessageEnd])"

definition recv_InitPasvDataConnection :: "'p proto \<Rightarrow> string \<Rightarrow> 'p \<Rightarrow> (string \<times> 'p) option outcome" where
  "recv_InitPasvDataConnection P = recv_result P ''InitPasvDataConnection'' (InitPasvDataConnection_presult_read P)"

definition send_OpenPasvDataConnection :: "'p proto \<Rightarrow> OpenPasvDataConnection_args \<Rightarrow> 'p \<Rightarrow> 'p option" where
  "send_OpenPasvDataConnection P a = send_message P
     (MessageBegin ''OpenPasvDataConnection'' T_CALL 0 # OpenPasvDataConnection_pargs_write a @ [MessageEnd])"

definition recv_OpenPasvDataConnection :: "'p proto \<Rightarrow> string \<Rightarrow> 'p \<Rightarrow> (string \<times> 'p) option outcome" where
  "recv_OpenPasvDataConnection P = recv_result P ''OpenPasvDataConnection'' (OpenPasvDataConnection_presult_read P)"

definition send_ActiveStoreTransfer :: "'p proto \<Rightarrow> ActiveStoreTransfer_args \<Rightarrow> 'p \<Rightarrow> 'p option" where
  "send_ActiveStoreTransfer P a = send_message P
     (MessageBegin ''ActiveStoreTransfer'' T_CALL 0 # ActiveStoreTransfer_pargs_write a @ [MessageEnd])"

definition recv_ActiveStoreTransfer :: "'p proto \<Rightarrow> StorRetVal \<Rightarrow> 'p \<Rightarrow> (StorRetVal \<times> 'p) option outcome" where
  "recv_ActiveStoreTransfer P = recv_result P ''ActiveStoreTransfer'' (ActiveStoreTransfer_presult_read P)"

definition send_PasvStoreTransfer :: "'p proto \<Rightarrow> PasvStoreTransfer_args \<Rightarrow> 'p \<Rightarrow> 'p option" where
  "send_PasvStoreTransfer P a = send_message P
     (MessageBegin ''PasvStoreTransfer'' T_CALL 0 # PasvStoreTransfer_pargs_write a @ [MessageEnd])"

definition recv_PasvStoreTransfer :: "'p proto \<Rightarrow> StorRetVal \<Rightarrow> 'p \<Rightarrow> (StorRetVal \<times> 'p) option outcome" where
  "recv_PasvStoreTransfer P = recv_result P ''PasvStoreTransfer'' (PasvStoreTransfer_presult_read P)"

definition send_ActiveRetrieveTransfer :: "'p proto \<Rightarrow> ActiveRetrieveTransfer_args \<Rightarrow> 'p \<Rightarrow> 'p option" where
  "send_ActiveRetrieveTransfer P a = send_message P
     (MessageBegin ''ActiveRetrieveTransfer'' T_CALL 0 # ActiveRetrieveTransfer_pargs_write a @ [MessageEnd])"

definition recv_ActiveRetrieveTransfer :: "'p proto \<Rightarrow> string \<Rightarrow> 'p \<Rightarrow> (string \<times> 'p) option outcome" where
  "recv_ActiveRetrieveTransfer P = recv_result P ''ActiveRetrieveTransfer'' (ActiveRetrieveTransfer_presult_read P)"

definition send_PasvRetrieveTransfer :: "'p proto \<Rightarrow> PasvRetrieveTransfer_args \<Rightarrow> 'p \<Rightarrow> 'p option" where
  "send_PasvRetrieveTransfer P a = send_message P
     (MessageBegin ''PasvRetrieveTransfer'' T_CALL 0 # PasvRetrieveTransfer_pargs_write a @ [MessageEnd])"

definition recv_PasvRetrieveTransfer :: "'p proto \<Rightarrow> string \<Rightarrow> 'p \<Rightarrow> (string \<times> 'p) option outcome" where
  "recv_PasvRetrieveTransfer P = recv_result P ''PasvRetrieveTransfer'' (PasvRetrieveTransfer_presult_read P)"

section \<open>The processor\<close>

text \<open>
  The interface that a handler implements, on a state \<open>'s\<close>: a result, or \<open>Inl\<close> the text of a
  \<open>std::exception\<close> that it throws.
\<close>

record 's iface =
  if_InitPasvDataConnection :: "PasvParams \<Rightarrow> int \<Rightarrow> int \<Rightarrow> 's \<Rightarrow> ((string + string) \<times> 's) outcome"
  if_OpenPasvDataConnection :: "PasvParams \<Rightarrow> 's \<Rightarrow> ((string + string) \<times> 's) outcome"
  if_ActiveStoreTransfer :: "ActiveParams \<Rightarrow> int \<Rightarrow> 's \<Rightarrow> ((string + StorRetVal) \<times> 's) outcome"
  if_PasvStoreTransfer :: "PasvParams \<Rightarrow> int \<Rightarrow> 's \<Rightarrow> ((string + StorRetVal) \<times> 's) outcome"
  if_ActiveRetrieveTransfer :: "ActiveParams \<Rightarrow> 's \<Rightarrow> ((string + string) \<times> 's) outcome"
  if_PasvRetrieveTransfer :: "PasvParams \<Rightarrow> 's \<Rightarrow> ((string + string) \<times> 's) outcome"

text \<open>
  The body of every \<open>process_\<close>, on the protocols \<open>ip\<close> and \<open>op\<close>: the arguments are read, the handler is
  called, and its result is sent, or its exception. \<open>None\<close> is an exception of the library, which leaves
  the processor; what the handler did stays done.
\<close>

definition process :: "'p proto \<Rightarrow> string \<Rightarrow> ('a isset, 'p) struct_reader \<Rightarrow> 'a \<Rightarrow> ('a \<Rightarrow> 's \<Rightarrow> ((string + 'r) \<times> 's) outcome) \<Rightarrow>
    ('r isset \<Rightarrow> wcall list) \<Rightarrow> int \<Rightarrow> 'p \<Rightarrow> 'p \<Rightarrow> 's \<Rightarrow> (('p \<times> 'p) option \<times> 's) outcome" where
  "process P name rd init handler wr seqid ip op st =
     and_then (attempt (rd (init, {}) ip) (\<lambda>((a, isset), ip1). Ret (map_option (Pair a) (end_message P ip1))))
       (\<lambda>r. case r of
           None \<Rightarrow> Ret (None, st)
         | Some (a, ip') \<Rightarrow> and_then (handler a st) (\<lambda>(res, st'). Ret (map_option (Pair ip') (send_message P
             (case res of
                Inl what \<Rightarrow> [MessageBegin name T_EXCEPTION seqid, AppException what, MessageEnd]
              | Inr v \<Rightarrow> MessageBegin name T_REPLY seqid # wr (v, {0}) @ [MessageEnd]) op), st')))"

definition process_InitPasvDataConnection :: "'p proto \<Rightarrow> 's iface \<Rightarrow> int \<Rightarrow> 'p \<Rightarrow> 'p \<Rightarrow> 's \<Rightarrow> (('p \<times> 'p) option \<times> 's) outcome" where
  "process_InitPasvDataConnection P I = process P ''InitPasvDataConnection'' (InitPasvDataConnection_args_read P) new_InitPasvDataConnection_args
     (\<lambda>a. if_InitPasvDataConnection I (ip_p a) (ip_startPort a) (ip_portLen a)) InitPasvDataConnection_result_write"

definition process_OpenPasvDataConnection :: "'p proto \<Rightarrow> 's iface \<Rightarrow> int \<Rightarrow> 'p \<Rightarrow> 'p \<Rightarrow> 's \<Rightarrow> (('p \<times> 'p) option \<times> 's) outcome" where
  "process_OpenPasvDataConnection P I = process P ''OpenPasvDataConnection'' (OpenPasvDataConnection_args_read P) new_OpenPasvDataConnection_args
     (\<lambda>a. if_OpenPasvDataConnection I (op_p a)) OpenPasvDataConnection_result_write"

definition process_ActiveStoreTransfer :: "'p proto \<Rightarrow> 's iface \<Rightarrow> int \<Rightarrow> 'p \<Rightarrow> 'p \<Rightarrow> 's \<Rightarrow> (('p \<times> 'p) option \<times> 's) outcome" where
  "process_ActiveStoreTransfer P I = process P ''ActiveStoreTransfer'' (ActiveStoreTransfer_args_read P) new_ActiveStoreTransfer_args
     (\<lambda>a. if_ActiveStoreTransfer I (as_p a) (as_iflags a)) ActiveStoreTransfer_result_write"

definition process_PasvStoreTransfer :: "'p proto \<Rightarrow> 's iface \<Rightarrow> int \<Rightarrow> 'p \<Rightarrow> 'p \<Rightarrow> 's \<Rightarrow> (('p \<times> 'p) option \<times> 's) outcome" where
  "process_PasvStoreTransfer P I = process P ''PasvStoreTransfer'' (PasvStoreTransfer_args_read P) new_PasvStoreTransfer_args
     (\<lambda>a. if_PasvStoreTransfer I (ps_p a) (ps_iflags a)) PasvStoreTransfer_result_write"

definition process_ActiveRetrieveTransfer :: "'p proto \<Rightarrow> 's iface \<Rightarrow> int \<Rightarrow> 'p \<Rightarrow> 'p \<Rightarrow> 's \<Rightarrow> (('p \<times> 'p) option \<times> 's) outcome" where
  "process_ActiveRetrieveTransfer P I = process P ''ActiveRetrieveTransfer'' (ActiveRetrieveTransfer_args_read P) new_ActiveRetrieveTransfer_args
     (\<lambda>a. if_ActiveRetrieveTransfer I (ar_p a)) ActiveRetrieveTransfer_result_write"

definition process_PasvRetrieveTransfer :: "'p proto \<Rightarrow> 's iface \<Rightarrow> int \<Rightarrow> 'p \<Rightarrow> 'p \<Rightarrow> 's \<Rightarrow> (('p \<times> 'p) option \<times> 's) outcome" where
  "process_PasvRetrieveTransfer P I = process P ''PasvRetrieveTransfer'' (PasvRetrieveTransfer_args_read P) new_PasvRetrieveTransfer_args
     (\<lambda>a. if_PasvRetrieveTransfer I (pr_p a)) PasvRetrieveTransfer_result_write"

text \<open>\<open>processMap_\<close> is filled by the constructor of the processor.\<close>

definition processMap :: "'p proto \<Rightarrow> 's iface \<Rightarrow>
    string \<rightharpoonup> (int \<Rightarrow> 'p \<Rightarrow> 'p \<Rightarrow> 's \<Rightarrow> (('p \<times> 'p) option \<times> 's) outcome)" where
  "processMap P I = [
     ''InitPasvDataConnection'' \<mapsto> process_InitPasvDataConnection P I,
     ''OpenPasvDataConnection'' \<mapsto> process_OpenPasvDataConnection P I,
     ''ActiveStoreTransfer'' \<mapsto> process_ActiveStoreTransfer P I,
     ''PasvStoreTransfer'' \<mapsto> process_PasvStoreTransfer P I,
     ''ActiveRetrieveTransfer'' \<mapsto> process_ActiveRetrieveTransfer P I,
     ''PasvRetrieveTransfer'' \<mapsto> process_PasvRetrieveTransfer P I]"

definition dispatchCall :: "'p proto \<Rightarrow> 's iface \<Rightarrow> string \<Rightarrow> int \<Rightarrow> 'p \<Rightarrow> 'p \<Rightarrow> 's \<Rightarrow> (('p \<times> 'p) option \<times> 's) outcome" where
  "dispatchCall P I fname seqid ip op st = (case processMap P I fname of
      None \<Rightarrow> Ret (Option.bind (skip_message P ip) (\<lambda>ip'. map_option (Pair ip') (send_message P
          [MessageBegin fname T_EXCEPTION seqid, AppException (''Invalid method name: '' @ [CHR 0x27] @ fname @ [CHR 0x27]), MessageEnd]
          op)), st)
    | Some f \<Rightarrow> f seqid ip op st)"

end
