(* ===== verification/ThriftLaws.thy ===== *)
theory ThriftLaws
  imports ThriftService
begin

text \<open>
  What the generated code relies on of the Thrift library (the locale \<open>thrift_protocol\<close>): what is written
  and flushed at one end is read at the other, call by call, and \<open>skip\<close> takes one value. Inside the
  locale: reading a structure is a fold over its fields. The laws hold of an in-memory connection.
\<close>

section \<open>Values\<close>

text \<open>The values of the types that the service uses; a structure has a name and fields with names and ids.\<close>

datatype tvalue =
    VI16 "16 word"
  | VI32 "32 word"
  | VI64 "64 word"
  | VStr string
  | VStruct string "(string \<times> int \<times> tvalue) list"

type_synonym tfields = "(string \<times> int \<times> tvalue) list"

fun type_of :: "tvalue \<Rightarrow> ttype" where
  "type_of (VI16 w) = T_I16"
| "type_of (VI32 w) = T_I32"
| "type_of (VI64 w) = T_I64"
| "type_of (VStr s) = T_STRING"
| "type_of (VStruct n fs) = T_STRUCT"

lemma type_of_not_stop [simp]: "type_of v \<noteq> T_STOP"
  by (cases v) auto

fun enc :: "tvalue \<Rightarrow> wcall list" and enc_fields :: "tfields \<Rightarrow> wcall list" where
  "enc (VI16 w) = [I16 w]"
| "enc (VI32 w) = [I32 w]"
| "enc (VI64 w) = [I64 w]"
| "enc (VStr s) = [Str s]"
| "enc (VStruct n fs) = StructBegin n # enc_fields fs @ [FieldStop, StructEnd]"
| "enc_fields [] = []"
| "enc_fields ((n, i, v) # fs) = FieldBegin n (type_of v) i # enc v @ FieldEnd # enc_fields fs"

section \<open>The laws\<close>

locale thrift_protocol =
  fixes P :: "'p proto"
    and live :: "'p \<Rightarrow> bool"
    and pending :: "'p \<Rightarrow> wcall list"
    and unsent :: "'p \<Rightarrow> wcall list"
  assumes put: "live p \<Longrightarrow>
      \<exists>p'. put_call P c p = Some p' \<and> live p' \<and> pending p' = pending p \<and> unsent p' = unsent p @ [c]"
    and flush: "live p \<Longrightarrow>
      \<exists>p'. flush_out P p = Some p' \<and> live p' \<and> pending p' = pending p @ unsent p \<and> unsent p' = []"
    and ended: "live p \<Longrightarrow>
      \<exists>p'. read_end P p = Some p' \<and> live p' \<and> pending p' = pending p \<and> unsent p' = unsent p"
    and message: "live p \<Longrightarrow> pending p = MessageBegin n m i # cs \<Longrightarrow>
      \<exists>p'. readMessageBegin P p = Some ((n, m, i), p') \<and> live p' \<and> pending p' = cs \<and> unsent p' = unsent p"
    and message_end: "live p \<Longrightarrow> pending p = MessageEnd # cs \<Longrightarrow>
      \<exists>p'. readMessageEnd P p = Some p' \<and> live p' \<and> pending p' = cs \<and> unsent p' = unsent p"
    and struct_begin: "live p \<Longrightarrow> pending p = StructBegin n # cs \<Longrightarrow>
      \<exists>p'. readStructBegin P p = Some p' \<and> live p' \<and> pending p' = cs \<and> unsent p' = unsent p"
    and struct_end: "live p \<Longrightarrow> pending p = StructEnd # cs \<Longrightarrow>
      \<exists>p'. readStructEnd P p = Some p' \<and> live p' \<and> pending p' = cs \<and> unsent p' = unsent p"
    and field_begin: "live p \<Longrightarrow> pending p = FieldBegin n t i # cs \<Longrightarrow>
      \<exists>p'. readFieldBegin P p = Some ((t, i), p') \<and> live p' \<and> pending p' = cs \<and> unsent p' = unsent p"
    and field_stop: "live p \<Longrightarrow> pending p = FieldStop # cs \<Longrightarrow>
      \<exists>i p'. readFieldBegin P p = Some ((T_STOP, i), p') \<and> live p' \<and> pending p' = cs \<and> unsent p' = unsent p"
    and field_end: "live p \<Longrightarrow> pending p = FieldEnd # cs \<Longrightarrow>
      \<exists>p'. readFieldEnd P p = Some p' \<and> live p' \<and> pending p' = cs \<and> unsent p' = unsent p"
    and value_16: "live p \<Longrightarrow> pending p = I16 a # cs \<Longrightarrow>
      \<exists>p'. readI16 P p = Some (a, p') \<and> live p' \<and> pending p' = cs \<and> unsent p' = unsent p"
    and value_32: "live p \<Longrightarrow> pending p = I32 b # cs \<Longrightarrow>
      \<exists>p'. readI32 P p = Some (b, p') \<and> live p' \<and> pending p' = cs \<and> unsent p' = unsent p"
    and value_64: "live p \<Longrightarrow> pending p = I64 d # cs \<Longrightarrow>
      \<exists>p'. readI64 P p = Some (d, p') \<and> live p' \<and> pending p' = cs \<and> unsent p' = unsent p"
    and value_string: "live p \<Longrightarrow> pending p = Str s # cs \<Longrightarrow>
      \<exists>p'. readString P p = Some (s, p') \<and> live p' \<and> pending p' = cs \<and> unsent p' = unsent p"
    and skips: "live p \<Longrightarrow> pending p = enc v @ cs \<Longrightarrow>
      \<exists>p'. skip_value P (type_of v) p = Some p' \<and> live p' \<and> pending p' = cs \<and> unsent p' = unsent p"
begin

text \<open>A live connection with the calls \<open>cs\<close> to be read and \<open>us\<close> written but not sent.\<close>

definition at :: "'p \<Rightarrow> wcall list \<Rightarrow> wcall list \<Rightarrow> bool" where
  "at p cs us \<longleftrightarrow> live p \<and> pending p = cs \<and> unsent p = us"

lemma emit_all: "at p cs us \<Longrightarrow> \<exists>p'. emit P ws p = Some p' \<and> at p' cs (us @ ws)"
proof (induction ws arbitrary: p us)
  case (Cons w ws)
  obtain p1 where "put_call P w p = Some p1" "at p1 cs (us @ [w])"
    using put[of p w] Cons.prems by (auto simp: at_def)
  with Cons.IH[of p1 "us @ [w]"] show ?case by simp
qed simp

lemma sent: "at p cs [] \<Longrightarrow> \<exists>p'. send_message P ws p = Some p' \<and> at p' (cs @ ws) []"
proof -
  assume "at p cs []"
  then obtain p1 where 1: "emit P ws p = Some p1" "at p1 cs ws" using emit_all[of p cs "[]" ws] by auto
  then obtain p2 where "flush_out P p1 = Some p2" "at p2 (cs @ ws) []"
    using flush[of p1] by (auto simp: at_def)
  with 1 show ?thesis by (simp add: send_message_def)
qed

lemma message_ends: "at p (MessageEnd # cs) us \<Longrightarrow> \<exists>p'. end_message P p = Some p' \<and> at p' cs us"
  using message_end[of p cs] ended by (fastforce simp: at_def end_message_def)

lemma skipped: "at p (enc v @ cs) us \<Longrightarrow> \<exists>p'. skip_value P (type_of v) p = Some p' \<and> at p' cs us"
  using skips[of p v cs] by (auto simp: at_def)

text \<open>A branch of the switch that reads the value of a field and does \<open>upd\<close> with it.\<close>

definition reads :: "(ttype \<Rightarrow> int \<Rightarrow> ('x, 'p) struct_reader) \<Rightarrow> (int \<Rightarrow> tvalue \<Rightarrow> 'x \<Rightarrow> 'x) \<Rightarrow> bool" where
  "reads h upd \<longleftrightarrow> (\<forall>i v x p cs us. at p (enc v @ cs) us \<longrightarrow>
     (\<exists>p'. h (type_of v) i x p = Ret (Some (upd i v x, p')) \<and> at p' cs us))"

lemma fields_read:
  assumes "reads h upd" and "at p (enc_fields fs @ FieldStop # StructEnd # cs) us"
  shows "\<exists>p'. read_loop P h x p = Some (Ret (Some (foldl (\<lambda>x (n, i, v). upd i v x) x fs, p'))) \<and> at p' cs us"
  using assms(2)
proof (induction fs arbitrary: x p)
  case Nil
  then obtain i p1 where "readFieldBegin P p = Some ((T_STOP, i), p1)" "at p1 (StructEnd # cs) us"
    using field_stop[of p "StructEnd # cs"] by (auto simp: at_def)
  moreover from this obtain p2 where "readStructEnd P p1 = Some p2" "at p2 cs us"
    using struct_end[of p1 cs] by (auto simp: at_def)
  ultimately show ?case by (subst read_loop.simps) simp
next
  case (Cons f fs)
  obtain n i v where f: "f = (n, i, v)" by (cases f) auto
  let ?rest = "enc_fields fs @ FieldStop # StructEnd # cs"
  obtain p1 where 1: "readFieldBegin P p = Some ((type_of v, i), p1)" "at p1 (enc v @ FieldEnd # ?rest) us"
    using field_begin[of p n "type_of v" i "enc v @ FieldEnd # ?rest"] Cons.prems by (auto simp: at_def f)
  then obtain p2 where 2: "h (type_of v) i x p1 = Ret (Some (upd i v x, p2))" "at p2 (FieldEnd # ?rest) us"
    using assms(1) unfolding reads_def by blast
  then obtain p3 where 3: "readFieldEnd P p2 = Some p3" "at p3 ?rest us"
    using field_end[of p2 ?rest] by (auto simp: at_def)
  from Cons.IH[OF this(2), of "upd i v x"] 1 2 3 show ?case by (subst read_loop.simps) (simp add: f)
qed

lemma struct_read:
  assumes "reads h upd" and "at p (enc (VStruct n fs) @ cs) us"
  shows "\<exists>p'. read_struct P h x p = Ret (Some (foldl (\<lambda>x (n, i, v). upd i v x) x fs, p')) \<and> at p' cs us"
proof -
  obtain p1 where 1: "readStructBegin P p = Some p1" "at p1 (enc_fields fs @ FieldStop # StructEnd # cs) us"
    using struct_begin[of p n "enc_fields fs @ FieldStop # StructEnd # cs"] assms(2) by (auto simp: at_def)
  from fields_read[OF assms(1) 1(2), of x] 1(1) show ?thesis by (auto simp: read_struct_def)
qed

end

section \<open>The laws hold of an in-memory connection\<close>

record wire =
  w_pending :: "wcall list"
  w_unsent :: "wcall list"

definition empty_wire :: wire where
  "empty_wire = \<lparr>w_pending = [], w_unsent = []\<rparr>"

text \<open>The calls after one value; \<open>d\<close> counts the structures that are open.\<close>

fun skip_calls :: "nat \<Rightarrow> wcall list \<Rightarrow> wcall list option" where
  "skip_calls d [] = None"
| "skip_calls d (StructBegin n # cs) = skip_calls (Suc d) cs"
| "skip_calls d (StructEnd # cs) = (if d \<le> 1 then Some cs else skip_calls (d - 1) cs)"
| "skip_calls d (c # cs) = (if d = 0 then Some cs else skip_calls d cs)"

lemma skip_enc:
  "skip_calls d (enc v @ cs) = (if d = 0 then Some cs else skip_calls d cs)"
  "skip_calls (Suc d) (enc_fields fs @ cs) = skip_calls (Suc d) cs"
  by (induction v and fs arbitrary: d cs and d cs rule: enc_enc_fields.induct) auto

definition take_call :: "(wcall \<Rightarrow> 'v option) \<Rightarrow> wire \<Rightarrow> ('v \<times> wire) option" where
  "take_call f w = (case w_pending w of [] \<Rightarrow> None
     | c # cs \<Rightarrow> map_option (\<lambda>v. (v, w\<lparr>w_pending := cs\<rparr>)) (f c))"

definition drop_call :: "wcall \<Rightarrow> wire \<Rightarrow> wire option" where
  "drop_call c w = map_option snd (take_call (\<lambda>x. if x = c then Some () else None) w)"

definition wire_proto :: "wire proto" where
  "wire_proto = \<lparr>
     put_call = (\<lambda>c w. Some (w\<lparr>w_unsent := w_unsent w @ [c]\<rparr>)),
     flush_out = (\<lambda>w. Some (w\<lparr>w_pending := w_pending w @ w_unsent w, w_unsent := []\<rparr>)),
     read_end = Some,
     readMessageBegin = take_call (\<lambda>c. case c of MessageBegin n t i \<Rightarrow> Some (n, t, i) | _ \<Rightarrow> None),
     readMessageEnd = drop_call MessageEnd,
     readStructBegin = (\<lambda>w. map_option snd (take_call (\<lambda>c. case c of StructBegin n \<Rightarrow> Some n | _ \<Rightarrow> None) w)),
     readStructEnd = drop_call StructEnd,
     readFieldBegin = take_call (\<lambda>c. case c of FieldBegin n t i \<Rightarrow> Some (t, i) | FieldStop \<Rightarrow> Some (T_STOP, 0) | _ \<Rightarrow> None),
     readFieldEnd = drop_call FieldEnd,
     readI16 = take_call (\<lambda>c. case c of I16 v \<Rightarrow> Some v | _ \<Rightarrow> None),
     readI32 = take_call (\<lambda>c. case c of I32 v \<Rightarrow> Some v | _ \<Rightarrow> None),
     readI64 = take_call (\<lambda>c. case c of I64 v \<Rightarrow> Some v | _ \<Rightarrow> None),
     readString = take_call (\<lambda>c. case c of Str s \<Rightarrow> Some s | _ \<Rightarrow> None),
     skip_value = (\<lambda>t w. map_option (\<lambda>cs. w\<lparr>w_pending := cs\<rparr>) (skip_calls 0 (w_pending w)))\<rparr>"

interpretation wire: thrift_protocol wire_proto "\<lambda>_. True" w_pending w_unsent
  by unfold_locales (simp_all add: wire_proto_def take_call_def drop_call_def skip_enc)

end
