(* ===== verification/ThriftStructs.thy ===== *)
theory ThriftStructs
  imports ThriftLaws
begin

text \<open>
  What is read back: the branches of a \<open>switch\<close> as updates, the structures as values, and the round
  trips of the numbers that fit their types.
\<close>

section \<open>Numbers\<close>

definition fits :: "nat \<Rightarrow> int \<Rightarrow> bool" where
  "fits n v \<longleftrightarrow> - (2 ^ (n - 1)) \<le> v \<and> v < 2 ^ (n - 1)"

lemma sint_fits:
  "fits 16 v \<Longrightarrow> sint (word_of_int v :: 16 word) = v"
  "fits 32 v \<Longrightarrow> sint (word_of_int v :: 32 word) = v"
  "fits 64 v \<Longrightarrow> sint (word_of_int v :: 64 word) = v"
  by (simp_all add: fits_def sint_sbintrunc' signed_take_bit_int_eq_self)

definition pasv_fits :: "('a) PasvParams_scheme \<Rightarrow> bool" where
  "pasv_fits p \<longleftrightarrow> fits 64 (p_server_ip p) \<and> fits 32 (p_server_port p) \<and> fits 64 (p_fid p) \<and>
     fits 64 (p_restart_at p) \<and> fits 32 (p_transfer_buffer_size p) \<and> fits 64 (p_trans_id p)"

definition active_fits :: "ActiveParams \<Rightarrow> bool" where
  "active_fits p \<longleftrightarrow> pasv_fits p \<and> fits 64 (p_client_ip p) \<and> fits 32 (p_client_port p)"

definition ret_fits :: "StorRetVal \<Rightarrow> bool" where
  "ret_fits r \<longleftrightarrow> fits 64 (rv_size r)"

section \<open>Structures as values\<close>

definition pasv_value :: "PasvParams \<Rightarrow> tvalue" where
  "pasv_value a = VStruct ''PasvParams'' [
     (''server_ip'', 1, VI64 (word_of_int (p_server_ip a))), (''server_port'', 2, VI32 (word_of_int (p_server_port a))),
     (''fid'', 3, VI64 (word_of_int (p_fid a))), (''restart_at'', 4, VI64 (word_of_int (p_restart_at a))),
     (''transfer_buffer_size'', 5, VI32 (word_of_int (p_transfer_buffer_size a))),
     (''trans_id'', 6, VI64 (word_of_int (p_trans_id a)))]"

definition active_value :: "ActiveParams \<Rightarrow> tvalue" where
  "active_value a = VStruct ''ActiveParams'' [
     (''client_ip'', 1, VI64 (word_of_int (p_client_ip a))), (''client_port'', 2, VI32 (word_of_int (p_client_port a))),
     (''fid'', 3, VI64 (word_of_int (p_fid a))), (''restart_at'', 4, VI64 (word_of_int (p_restart_at a))),
     (''transfer_buffer_size'', 5, VI32 (word_of_int (p_transfer_buffer_size a))),
     (''server_ip'', 6, VI64 (word_of_int (p_server_ip a))), (''server_port'', 7, VI32 (word_of_int (p_server_port a))),
     (''trans_id'', 8, VI64 (word_of_int (p_trans_id a)))]"

definition ret_value :: "StorRetVal \<Rightarrow> tvalue" where
  "ret_value a = VStruct ''StorRetVal'' [(''msg'', 1, VStr (rv_msg a)), (''size'', 2, VI64 (word_of_int (rv_size a)))]"

lemma writes_values:
  "PasvParams_write a = enc (pasv_value a)" "ActiveParams_write b = enc (active_value b)"
  "StorRetVal_write r = enc (ret_value r)"
  by (simp_all add: PasvParams_write_def pasv_value_def ActiveParams_write_def active_value_def
      StorRetVal_write_def ret_value_def i64_def i32_def)

section \<open>The last value of a field\<close>

text \<open>The values of the fields with the id \<open>i\<close> and the right type: the last one counts, without any it is \<open>d\<close>.\<close>

fun as_i16 :: "tvalue \<Rightarrow> int option" where
  "as_i16 (VI16 w) = Some (sint w)" | "as_i16 _ = None"

fun as_i32 :: "tvalue \<Rightarrow> int option" where
  "as_i32 (VI32 w) = Some (sint w)" | "as_i32 _ = None"

fun as_i64 :: "tvalue \<Rightarrow> int option" where
  "as_i64 (VI64 w) = Some (sint w)" | "as_i64 _ = None"

fun as_string :: "tvalue \<Rightarrow> string option" where
  "as_string (VStr s) = Some s" | "as_string _ = None"

fun last_field :: "(tvalue \<Rightarrow> 'v option) \<Rightarrow> int \<Rightarrow> 'v \<Rightarrow> tfields \<Rightarrow> 'v" where
  "last_field as i d [] = d"
| "last_field as i d ((n, j, v) # fs) =
     last_field as i (if j = i then (case as v of Some x \<Rightarrow> x | None \<Rightarrow> d) else d) fs"

text \<open>The update that a branch makes.\<close>

definition on_field :: "(tvalue \<Rightarrow> 'v option) \<Rightarrow> ('v \<Rightarrow> 'a \<Rightarrow> 'a) \<Rightarrow> int \<Rightarrow> tvalue \<Rightarrow> 'a isset \<Rightarrow> 'a isset" where
  "on_field as upd i v x = (case as v of None \<Rightarrow> x | Some y \<Rightarrow> (upd y (fst x), insert i (snd x)))"

definition pasv_upd :: "int \<Rightarrow> tvalue \<Rightarrow> PasvParams isset \<Rightarrow> PasvParams isset" where
  "pasv_upd i =
     (if i = 1 then on_field as_i64 (\<lambda>v a. a\<lparr>p_server_ip := v\<rparr>) i
      else if i = 2 then on_field as_i32 (\<lambda>v a. a\<lparr>p_server_port := v\<rparr>) i
      else if i = 3 then on_field as_i64 (\<lambda>v a. a\<lparr>p_fid := v\<rparr>) i
      else if i = 4 then on_field as_i64 (\<lambda>v a. a\<lparr>p_restart_at := v\<rparr>) i
      else if i = 5 then on_field as_i32 (\<lambda>v a. a\<lparr>p_transfer_buffer_size := v\<rparr>) i
      else if i = 6 then on_field as_i64 (\<lambda>v a. a\<lparr>p_trans_id := v\<rparr>) i
      else (\<lambda>v x. x))"

definition active_upd :: "int \<Rightarrow> tvalue \<Rightarrow> ActiveParams isset \<Rightarrow> ActiveParams isset" where
  "active_upd i =
     (if i = 1 then on_field as_i64 (\<lambda>v a. a\<lparr>p_client_ip := v\<rparr>) i
      else if i = 2 then on_field as_i32 (\<lambda>v a. a\<lparr>p_client_port := v\<rparr>) i
      else if i = 3 then on_field as_i64 (\<lambda>v a. a\<lparr>p_fid := v\<rparr>) i
      else if i = 4 then on_field as_i64 (\<lambda>v a. a\<lparr>p_restart_at := v\<rparr>) i
      else if i = 5 then on_field as_i32 (\<lambda>v a. a\<lparr>p_transfer_buffer_size := v\<rparr>) i
      else if i = 6 then on_field as_i64 (\<lambda>v a. a\<lparr>p_server_ip := v\<rparr>) i
      else if i = 7 then on_field as_i32 (\<lambda>v a. a\<lparr>p_server_port := v\<rparr>) i
      else if i = 8 then on_field as_i64 (\<lambda>v a. a\<lparr>p_trans_id := v\<rparr>) i
      else (\<lambda>v x. x))"

definition ret_upd :: "int \<Rightarrow> tvalue \<Rightarrow> StorRetVal isset \<Rightarrow> StorRetVal isset" where
  "ret_upd i =
     (if i = 1 then on_field as_string (\<lambda>v a. a\<lparr>rv_msg := v\<rparr>) i
      else if i = 2 then on_field as_i64 (\<lambda>v a. a\<lparr>rv_size := v\<rparr>) i
      else (\<lambda>v x. x))"

abbreviation fold_fields :: "(int \<Rightarrow> tvalue \<Rightarrow> 'x \<Rightarrow> 'x) \<Rightarrow> 'x \<Rightarrow> tfields \<Rightarrow> 'x" where
  "fold_fields upd x fs \<equiv> foldl (\<lambda>x (n, i, v). upd i v x) x fs"

lemma fold_pasv:
  "fst (fold_fields pasv_upd x fs) = (fst x)\<lparr>
     p_server_ip := last_field as_i64 1 (p_server_ip (fst x)) fs,
     p_server_port := last_field as_i32 2 (p_server_port (fst x)) fs,
     p_fid := last_field as_i64 3 (p_fid (fst x)) fs,
     p_restart_at := last_field as_i64 4 (p_restart_at (fst x)) fs,
     p_transfer_buffer_size := last_field as_i32 5 (p_transfer_buffer_size (fst x)) fs,
     p_trans_id := last_field as_i64 6 (p_trans_id (fst x)) fs\<rparr>"
  by (induction fs arbitrary: x) (auto simp: pasv_upd_def on_field_def split: option.split)

lemma fold_active:
  "fst (fold_fields active_upd x fs) = (fst x)\<lparr>
     p_client_ip := last_field as_i64 1 (p_client_ip (fst x)) fs,
     p_client_port := last_field as_i32 2 (p_client_port (fst x)) fs,
     p_fid := last_field as_i64 3 (p_fid (fst x)) fs,
     p_restart_at := last_field as_i64 4 (p_restart_at (fst x)) fs,
     p_transfer_buffer_size := last_field as_i32 5 (p_transfer_buffer_size (fst x)) fs,
     p_server_ip := last_field as_i64 6 (p_server_ip (fst x)) fs,
     p_server_port := last_field as_i32 7 (p_server_port (fst x)) fs,
     p_trans_id := last_field as_i64 8 (p_trans_id (fst x)) fs\<rparr>"
  by (induction fs arbitrary: x) (auto simp: active_upd_def on_field_def split: option.split)

lemma fold_ret:
  "fst (fold_fields ret_upd x fs) = (fst x)\<lparr>rv_msg := last_field as_string 1 (rv_msg (fst x)) fs,
     rv_size := last_field as_i64 2 (rv_size (fst x)) fs\<rparr>"
  by (induction fs arbitrary: x) (auto simp: ret_upd_def on_field_def split: option.split)

text \<open>The fields of a value that fits give the value back.\<close>

lemma fold_value:
  "pasv_fits p \<Longrightarrow> \<exists>n fs. pasv_value p = VStruct n fs \<and> (\<forall>x. fst (fold_fields pasv_upd x fs) = p)"
  "active_fits q \<Longrightarrow> \<exists>n fs. active_value q = VStruct n fs \<and> (\<forall>y. fst (fold_fields active_upd y fs) = q)"
  "ret_fits r \<Longrightarrow> \<exists>n fs. ret_value r = VStruct n fs \<and> (\<forall>z. fst (fold_fields ret_upd z fs) = r)"
  by (simp_all add: pasv_value_def active_value_def ret_value_def fold_pasv fold_active fold_ret
      pasv_fits_def active_fits_def ret_fits_def sint_fits)

section \<open>The branches of a switch\<close>

context thrift_protocol
begin

text \<open>The shape of a branch for the field \<open>i\<close>.\<close>

definition reads_as :: "(ttype \<Rightarrow> int \<Rightarrow> ('x, 'p) struct_reader) \<Rightarrow> int \<Rightarrow> (tvalue \<Rightarrow> 'x \<Rightarrow> 'x) \<Rightarrow> bool" where
  "reads_as h i u \<longleftrightarrow> (\<forall>v x p cs us. at p (enc v @ cs) us \<longrightarrow>
     (\<exists>p'. h (type_of v) i x p = Ret (Some (u v x, p')) \<and> at p' cs us))"

lemma readsI: "(\<And>i. reads_as h i (upd i)) \<Longrightarrow> reads h upd"
  by (simp add: reads_def reads_as_def)

lemma reads_as_switch:
  "(i = k \<Longrightarrow> reads_as f i u) \<Longrightarrow> (i \<noteq> k \<Longrightarrow> reads_as g i w) \<Longrightarrow>
    reads_as (\<lambda>ft fid. if fid = k then f ft fid else g ft fid) i (if i = k then u else w)"
  by (auto simp: reads_as_def)

lemma skip_reads: "reads_as (\<lambda>ft fid. skip_field P ft) i (\<lambda>v x. x)"
  unfolding reads_as_def skip_field_def using skipped by fastforce

lemma skip_in: "at p (enc v @ cs) us \<Longrightarrow> \<exists>p'. skip_field P (type_of v) x p = Ret (Some (x, p')) \<and> at p' cs us"
  using skip_reads unfolding reads_as_def by blast

lemma got:
  "at p (I16 a # cs) us \<Longrightarrow> \<exists>p'. readI16 P p = Some (a, p') \<and> at p' cs us"
  "at p (I32 b # cs) us \<Longrightarrow> \<exists>p'. readI32 P p = Some (b, p') \<and> at p' cs us"
  "at p (I64 d # cs) us \<Longrightarrow> \<exists>p'. readI64 P p = Some (d, p') \<and> at p' cs us"
  "at p (Str s # cs) us \<Longrightarrow> \<exists>p'. readString P p = Some (s, p') \<and> at p' cs us"
  using value_16[of p a cs] value_32[of p b cs] value_64[of p d cs] value_string[of p s cs]
  by (auto simp: at_def)

text \<open>Reading a number or a text, when the value has the type \<open>want\<close>.\<close>

lemma scalar_as:
  assumes "\<And>v p cs us. at p (enc v @ cs) us \<Longrightarrow> type_of v = want \<Longrightarrow>
      \<exists>w p'. rd p = Some (w, p') \<and> at p' cs us \<and> as v = Some (conv w)"
    and "\<And>v. type_of v \<noteq> want \<Longrightarrow> as v = None"
  shows "reads_as (scalar P want rd (\<lambda>w. f (conv w))) i (on_field as f i)"
  unfolding reads_as_def
proof (intro allI impI, goal_cases)
  case (1 v x p cs us)
  then show ?case
    using assms(1)[OF 1] assms(2) skip_in[OF 1, of x]
    by (cases "type_of v = want") (auto simp: scalar_def on_field_def)
qed

lemma scalar_16: "reads_as (scalar P T_I16 (readI16 P) (\<lambda>v. f (sint v))) i (on_field as_i16 f i)"
proof (rule scalar_as, goal_cases)
  case (1 v p cs us) then show ?case using got(1) by (cases v) fastforce+
next
  case (2 v) then show ?case by (cases v) auto
qed

lemma scalar_32: "reads_as (scalar P T_I32 (readI32 P) (\<lambda>v. f (sint v))) i (on_field as_i32 f i)"
proof (rule scalar_as, goal_cases)
  case (1 v p cs us) then show ?case using got(2) by (cases v) fastforce+
next
  case (2 v) then show ?case by (cases v) auto
qed

lemma scalar_64: "reads_as (scalar P T_I64 (readI64 P) (\<lambda>v. f (sint v))) i (on_field as_i64 f i)"
proof (rule scalar_as, goal_cases)
  case (1 v p cs us) then show ?case using got(3) by (cases v) fastforce+
next
  case (2 v) then show ?case by (cases v) auto
qed

lemma scalar_string: "reads_as (scalar P T_STRING (readString P) f) i (on_field as_string f i)"
proof (rule scalar_as[where conv = "\<lambda>v. v", simplified], goal_cases)
  case (1 v p cs us) then show ?case using got(4) by (cases v) fastforce+
next
  case (2 v) then show ?case by (cases v) auto
qed

lemmas branches = reads_as_switch scalar_16 scalar_32 scalar_64 scalar_string skip_reads

section \<open>Reading the structures\<close>

lemma pasv_reads: "reads (PasvParams_field P) pasv_upd"
  unfolding PasvParams_field_def[abs_def] pasv_upd_def[abs_def] by (intro readsI branches)

lemma active_reads: "reads (ActiveParams_field P) active_upd"
  unfolding ActiveParams_field_def[abs_def] active_upd_def[abs_def] by (intro readsI branches)

lemma ret_reads: "reads (StorRetVal_field P) ret_upd"
  unfolding StorRetVal_field_def[abs_def] ret_upd_def[abs_def] by (intro readsI branches)

lemmas pasv_struct = struct_read[OF pasv_reads, folded PasvParams_read_def]
lemmas active_struct = struct_read[OF active_reads, folded ActiveParams_read_def]
lemmas ret_struct = struct_read[OF ret_reads, folded StorRetVal_read_def]

text \<open>What fits its types comes back.\<close>

lemma pasv_back:
  assumes "at p (PasvParams_write a @ cs) us" and "pasv_fits a"
  shows "\<exists>S p'. PasvParams_read P x p = Ret (Some ((a, S), p')) \<and> at p' cs us"
proof -
  obtain n fs where "pasv_value a = VStruct n fs" "fst (fold_fields pasv_upd x fs) = a" using fold_value(1)[OF assms(2)] by blast
  with pasv_struct[of p n fs cs us x] assms(1) show ?thesis by (metis writes_values(1) prod.collapse)
qed

lemma active_back:
  assumes "at p (ActiveParams_write a @ cs) us" and "active_fits a"
  shows "\<exists>S p'. ActiveParams_read P x p = Ret (Some ((a, S), p')) \<and> at p' cs us"
proof -
  obtain n fs where "active_value a = VStruct n fs" "fst (fold_fields active_upd x fs) = a" using fold_value(2)[OF assms(2)] by blast
  with active_struct[of p n fs cs us x] assms(1) show ?thesis by (metis writes_values(2) prod.collapse)
qed

lemma ret_back:
  assumes "at p (StorRetVal_write a @ cs) us" and "ret_fits a"
  shows "\<exists>S p'. StorRetVal_read P x p = Ret (Some ((a, S), p')) \<and> at p' cs us"
proof -
  obtain n fs where "ret_value a = VStruct n fs" "fst (fold_fields ret_upd x fs) = a" using fold_value(3)[OF assms(2)] by blast
  with ret_struct[of p n fs cs us x] assms(1) show ?thesis by (metis writes_values(3) prod.collapse)
qed

end

section \<open>The properties\<close>

text \<open>A structure is read whatever fields it has: in any order, repeated, unknown, or with a type other than
  the expected one. Every member gets the last value of its field that has its type and keeps the value it
  had when there is none; all other fields are skipped, and reading ends behind the structure.\<close>

theorem structures_read:
  assumes "thrift_protocol P live pending unsent" and "live p" and "pending p = enc (VStruct n fs) @ cs"
  shows "(\<exists>S p'. PasvParams_read P (a, {}) p = Ret (Some ((a\<lparr>
        p_server_ip := last_field as_i64 1 (p_server_ip a) fs,
        p_server_port := last_field as_i32 2 (p_server_port a) fs,
        p_fid := last_field as_i64 3 (p_fid a) fs,
        p_restart_at := last_field as_i64 4 (p_restart_at a) fs,
        p_transfer_buffer_size := last_field as_i32 5 (p_transfer_buffer_size a) fs,
        p_trans_id := last_field as_i64 6 (p_trans_id a) fs\<rparr>, S), p')) \<and> live p' \<and> pending p' = cs) \<and>
    (\<exists>S p'. ActiveParams_read P (b, {}) p = Ret (Some ((b\<lparr>
        p_client_ip := last_field as_i64 1 (p_client_ip b) fs,
        p_client_port := last_field as_i32 2 (p_client_port b) fs,
        p_fid := last_field as_i64 3 (p_fid b) fs,
        p_restart_at := last_field as_i64 4 (p_restart_at b) fs,
        p_transfer_buffer_size := last_field as_i32 5 (p_transfer_buffer_size b) fs,
        p_server_ip := last_field as_i64 6 (p_server_ip b) fs,
        p_server_port := last_field as_i32 7 (p_server_port b) fs,
        p_trans_id := last_field as_i64 8 (p_trans_id b) fs\<rparr>, S), p')) \<and> live p' \<and> pending p' = cs) \<and>
    (\<exists>S p'. StorRetVal_read P (r, {}) p = Ret (Some ((r\<lparr>rv_msg := last_field as_string 1 (rv_msg r) fs,
        rv_size := last_field as_i64 2 (rv_size r) fs\<rparr>, S), p')) \<and> live p' \<and> pending p' = cs)"
proof -
  have at: "thrift_protocol.at live pending unsent p (enc (VStruct n fs) @ cs) (unsent p)"
    using assms(2,3) by (simp add: thrift_protocol.at_def[OF assms(1)])
  note split = thrift_protocol.at_def[OF assms(1)]
  show ?thesis
    using thrift_protocol.pasv_struct[OF assms(1) at, of "(a, {})"] fold_pasv[of "(a, {})" fs]
      thrift_protocol.active_struct[OF assms(1) at, of "(b, {})"] fold_active[of "(b, {})" fs]
      thrift_protocol.ret_struct[OF assms(1) at, of "(r, {})"] fold_ret[of "(r, {})" fs]
    unfolding split by (metis fst_conv prod.collapse)
qed

text \<open>A structure with the size twice, an unknown field in which a structure is nested, and the message as a number.\<close>

theorem structures_read_witness:
  "\<exists>S w'. StorRetVal_read wire_proto (new_StorRetVal, {}) \<lparr>w_pending = enc (VStruct ''S''
      [(''size'', 2, VI64 7), (''new'', 9, VStruct ''T'' [(''x'', 1, VStr ''y'')]), (''size'', 2, VI64 8), (''msg'', 1, VI32 5)]),
      w_unsent = []\<rparr> = Ret (Some ((\<lparr>rv_msg = [], rv_size = 8\<rparr>, S), w')) \<and> w_pending w' = []"
proof -
  let ?fs = "[(''size'', 2, VI64 7), (''new'', 9, VStruct ''T'' [(''x'', 1, VStr ''y'')]), (''size'', 2, VI64 8),
     (''msg'', 1, VI32 5)]"
  let ?w = "\<lparr>w_pending = enc (VStruct ''S'' ?fs), w_unsent = []\<rparr>"
  have w: "w_pending ?w = enc (VStruct ''S'' ?fs) @ []" by simp
  note read = structures_read[where p = ?w and fs = ?fs and n = "''S''" and cs = "[]" and r = new_StorRetVal,
      OF wire.thrift_protocol_axioms TrueI w]
  have "last_field as_string 1 [] ?fs = []" "last_field as_i64 2 0 ?fs = 8" by simp_all
  with read show ?thesis by (simp add: new_StorRetVal_def del: enc.simps last_field.simps)
qed

text \<open>The structures survive the wire: what one end writes and flushes the other end reads back, all members
  the same, when the numbers fit their types on the wire (64 bits, and 32 bits for ports and buffer sizes);
  nothing is left unread.\<close>

theorem structures_round_trip:
  assumes "thrift_protocol P live pending unsent" and "live p" and "pending p = []" and "unsent p = []"
  shows "(pasv_fits a \<longrightarrow> (\<exists>S p1 p2. send_message P (PasvParams_write a) p = Some p1 \<and>
        PasvParams_read P (a', {}) p1 = Ret (Some ((a, S), p2)) \<and> pending p2 = [])) \<and>
    (active_fits b \<longrightarrow> (\<exists>S p1 p2. send_message P (ActiveParams_write b) p = Some p1 \<and>
        ActiveParams_read P (b', {}) p1 = Ret (Some ((b, S), p2)) \<and> pending p2 = [])) \<and>
    (ret_fits r \<longrightarrow> (\<exists>S p1 p2. send_message P (StorRetVal_write r) p = Some p1 \<and>
        StorRetVal_read P (r', {}) p1 = Ret (Some ((r, S), p2)) \<and> pending p2 = []))"
proof -
  note T = assms(1)
  have at: "thrift_protocol.at live pending unsent p [] []"
    using assms(2-4) by (simp add: thrift_protocol.at_def[OF T])
  note sent = thrift_protocol.sent[OF T at, simplified]
  note split = thrift_protocol.at_def[OF T]
  show ?thesis
    using thrift_protocol.pasv_back[OF T, of _ a "[]" "[]" "(a', {})"]
      thrift_protocol.active_back[OF T, of _ b "[]" "[]" "(b', {})"]
      thrift_protocol.ret_back[OF T, of _ r "[]" "[]" "(r', {})"]
      sent[of "PasvParams_write a"] sent[of "ActiveParams_write b"] sent[of "StorRetVal_write r"]
    unfolding split append_Nil2 by metis
qed

theorem structures_round_trip_witness:
  "\<exists>S w1 w2. send_message wire_proto (StorRetVal_write \<lparr>rv_msg = ''226'', rv_size = 3000000000\<rparr>) empty_wire = Some w1 \<and>
     StorRetVal_read wire_proto (new_StorRetVal, {}) w1 = Ret (Some ((\<lparr>rv_msg = ''226'', rv_size = 3000000000\<rparr>, S), w2)) \<and>
     w_pending w2 = []"
proof -
  have "ret_fits \<lparr>rv_msg = ''226'', rv_size = 3000000000\<rparr>" by (simp add: ret_fits_def fits_def)
  with structures_round_trip[OF wire.thrift_protocol_axioms, of empty_wire _ _ _ _
      "\<lparr>rv_msg = ''226'', rv_size = 3000000000\<rparr>" new_StorRetVal]
  show ?thesis by (simp add: empty_wire_def)
qed

end
