(* ===== verification/TransferProps.thy ===== *)
theory TransferProps
  imports Transfers SlaveProps ShellClaims VfsProps ThriftStructs
begin

text \<open>
  The meta server and its slaves together: what the meta server relies on is the locale \<open>slave_nodes\<close>
  (active transfers of a working slave), interpreted on the handler of \<open>SlaveService\<close>; over it an
  upload followed by a download goes through the database and the slaves and back.
\<close>

section \<open>The contract of the slaves\<close>

text \<open>
  \<open>held net s f\<close> is the contents of file \<open>f\<close> on slave \<open>s\<close>; \<open>incoming\<close> is what the client sends on the next
  data connection and \<open>delivered\<close> what it got on the last one. The laws are for parameters and sizes that
  fit the types they have in a call.
\<close>

definition stored_contents :: "int \<Rightarrow> string option \<Rightarrow> string \<Rightarrow> string" where
  "stored_contents restart old new =
     (if restart > 0 then case old of None \<Rightarrow> new | Some c \<Rightarrow> c @ new else new)"

locale slave_nodes =
  fixes rpc :: "'net rpc"
    and held :: "'net \<Rightarrow> slave_info \<Rightarrow> int \<Rightarrow> string option"
    and working :: "'net \<Rightarrow> bool"
    and incoming :: "'net \<Rightarrow> string"
    and delivered :: "'net \<Rightarrow> string"
  assumes store: "working net \<Longrightarrow> active_fits p \<Longrightarrow> 0 < to_unsigned (p_transfer_buffer_size p) \<Longrightarrow> 0 \<le> p_restart_at p \<Longrightarrow>
      int (length (stored_contents (p_restart_at p) (held net s (p_fid p)) (incoming net))) < 2 ^ 63 \<Longrightarrow>
      \<exists>rv net'. rpc_active_store rpc s p (store_flags (p_restart_at p)) net = (Some rv, net') \<and>
        rv_msg rv = ''226 Transfer complete.'' \<and> working net' \<and>
        rv_size rv = int (length (stored_contents (p_restart_at p) (held net s (p_fid p)) (incoming net))) \<and>
        held net' s (p_fid p) = Some (stored_contents (p_restart_at p) (held net s (p_fid p)) (incoming net))"
    and retrieve: "working net \<Longrightarrow> active_fits p \<Longrightarrow> 0 < to_unsigned (p_transfer_buffer_size p) \<Longrightarrow> 0 \<le> p_restart_at p \<Longrightarrow>
      held net s (p_fid p) = Some c \<Longrightarrow>
      \<exists>net'. rpc_active_retrieve rpc s p net = (Some ''226 Transfer complete.'', net') \<and> working net' \<and>
        delivered net' = drop (nat (p_restart_at p)) c"

section \<open>The handler keeps the contract\<close>

text \<open>The slaves as a family of handler states, with one operating system for all of them.\<close>

record slave_net =
  nodes :: "slave_info \<Rightarrow> slave_state"
  node_os :: slave_os
  last_out :: "sock_effect list"

definition handler_rpc :: "slave_net rpc" where
  "handler_rpc = \<lparr>
     rpc_active_store = (\<lambda>s p fl net. case ActiveStoreTransfer (node_os net) p fl (nodes net s) of
        (rv, out, st) \<Rightarrow> (Some rv, net\<lparr>nodes := (nodes net)(s := st), last_out := out\<rparr>)),
     rpc_pasv_store = (\<lambda>s p fl net. case PasvStoreTransfer (node_os net) p fl (nodes net s) of
        (rv, out, st) \<Rightarrow> (Some rv, net\<lparr>nodes := (nodes net)(s := st), last_out := out\<rparr>)),
     rpc_active_retrieve = (\<lambda>s p net. case ActiveRetrieveTransfer (node_os net) p (nodes net s) of
        (msg, out, st) \<Rightarrow> (Some msg, net\<lparr>nodes := (nodes net)(s := st), last_out := out\<rparr>)),
     rpc_pasv_retrieve = (\<lambda>s p net. case PasvRetrieveTransfer (node_os net) p (nodes net s) of
        (msg, out, st) \<Rightarrow> (Some msg, net\<lparr>nodes := (nodes net)(s := st), last_out := out\<rparr>))\<rparr>"

definition handler_held :: "slave_net \<Rightarrow> slave_info \<Rightarrow> int \<Rightarrow> string option" where
  "handler_held net s fid = files (nodes net s) (file_path (node_os net) fid)"

definition handler_working :: "slave_net \<Rightarrow> bool" where
  "handler_working net \<longleftrightarrow> can_connect (node_os net) \<and> (\<forall>bs. 0 < to_unsigned bs \<longrightarrow> reliable (node_os net) bs)"

definition handler_incoming :: "slave_net \<Rightarrow> string" where
  "handler_incoming net = received (os_recv (node_os net))"

definition handler_delivered :: "slave_net \<Rightarrow> string" where
  "handler_delivered net = sent (last_out net)"

lemma store_flags_bits:
  "has_flag (store_flags r) O_CREAT" "has_flag (store_flags r) O_TRUNC \<longleftrightarrow> r \<le> 0"
  "has_flag (store_flags r) O_APPEND \<longleftrightarrow> 0 < r"
  by (auto simp: has_flag_def store_flags_def O_WRONLY_def O_CREAT_def O_TRUNC_def O_APPEND_def)

interpretation handler: slave_nodes handler_rpc handler_held handler_working handler_incoming handler_delivered
proof (unfold_locales, goal_cases)
  case (1 net p s)
  let ?os = "node_os net"
  obtain v out st' where a: "ActiveStoreTransfer ?os p (store_flags (p_restart_at p)) (nodes net s) = (v, out, st')"
    by (metis prod_cases3)
  have w: "reliable ?os (p_transfer_buffer_size p)" "can_connect ?os" using 1 by (simp_all add: handler_working_def)
  have fl: "has_flag (store_flags (p_restart_at p)) O_APPEND \<or> p_restart_at p = 0"
    "has_flag (store_flags (p_restart_at p)) O_TRUNC \<or> has_flag (store_flags (p_restart_at p)) O_APPEND"
    using 1(4) by (auto simp: store_flags_bits)
  from reliable_active_store[OF w 1(4) fl store_flags_bits(1) a] a 1(1) show ?case
    by (auto simp: handler_rpc_def handler_held_def handler_working_def handler_incoming_def stored_contents_def
        store_flags_bits split: option.splits)
next
  case (2 net p s c)
  let ?os = "node_os net"
  obtain msg out st' where a: "ActiveRetrieveTransfer ?os p (nodes net s) = (msg, out, st')" by (metis prod_cases3)
  have w: "reliable ?os (p_transfer_buffer_size p)" "can_connect ?os" using 2 by (simp_all add: handler_working_def)
  have "files (nodes net s) (file_path ?os (p_fid p)) = Some c" using 2(5) by (simp add: handler_held_def)
  from reliable_active_retrieve[OF w 2(4) this a] a 2(1) show ?case
    by (simp add: handler_rpc_def handler_working_def handler_delivered_def)
qed

section \<open>One thread\<close>

lemma finish_Ret: "\<exists>c'. finish e c out db net =
    Ret (c', out @ (if bIsCtrlCanalOpen c then [] else [OnClientEvent DELETE_CLIENT None]), db, net)"
  by (auto simp: finish_def end_transfer_def ResetDataConnection_def)

text \<open>After a thread the client object is idle, or deleted when the control connection is gone.\<close>

definition at_rest :: "client \<Rightarrow> client option \<Rightarrow> bool" where
  "at_rest c c' \<longleftrightarrow> (case c' of None \<Rightarrow> \<not> bIsCtrlCanalOpen c
     | Some x \<Rightarrow> bIsCtrlCanalOpen c \<and> eStatus x = WAITING \<and> eDataConnection x = NONE \<and> CurrentTransfer x = zero_transfer)"

lemma finish_at_rest: "\<exists>c' out'. finish e c out db net = Ret (c', out', db, net) \<and> wires out' = wires out \<and> at_rest c c'"
  by (auto simp: finish_def end_transfer_def ResetDataConnection_def ResetTimeout_def at_rest_def)

definition tids :: "rview \<Rightarrow> int" where
  "tids v = counters v ''transaction_counter''"

context redis_server
begin

lemma transaction_id:
  assumes "idle db"
  obtains db' where "get_new_transaction_id R db = Ret (tids (view db) + 1, db')" "idle db'"
    "hashes (view db') = hashes (view db)" "fids (view db') = fids (view db)"
    "tree_ok (view db') = tree_ok (view db)" "tids (view db') = tids (view db) + 1"
proof -
  obtain db' where d: "query R (INCR ''transaction_counter'') db =
      Ret (ReplyInteger (counters (view db) ''transaction_counter'' + 1), db')" "idle db'"
    "view db' = (view db)\<lparr>counters := (counters (view db))
       (''transaction_counter'' := counters (view db) ''transaction_counter'' + 1)\<rparr>"
    by (rule query_incr[OF assms])
  then have "hashes (view db') = hashes (view db)" "fids (view db') = fids (view db)" "tids (view db') = tids (view db) + 1"
    by (simp_all add: fids_def tids_def)
  moreover from this(1,2) have "tree_ok (view db') = tree_ok (view db)"
    by (simp add: tree_ok_def fresh_def)
  ultimately show thesis using that d by (simp add: get_new_transaction_id_def outcome_simps tids_def)
qed

lemma unknown_user:
  assumes "idle db" and "hashes (view db) (''username:'' @ login) = Map.empty"
  obtains db' where "SearchUserFromLogin R True n login db = Ret (None, [], db')" "idle db'"
proof -
  obtain r db1 where d: "redis_cmd R (SELECT n) db = (r, db1)" by (metis surj_pair)
  have i: "idle db1" "view db1 = view db" using sel[of db n] assms(1) d by (auto simp: usable_def)
  obtain ps where "query R (HGETALL (''username:'' @ login)) db1 = Ret (ReplyArray (flatten ps), db1)"
    "ps = [] \<longleftrightarrow> hashes (view db1) (''username:'' @ login) = Map.empty"
    by (rule read_hash[OF i(1)])
  then show thesis using that[of db1] i assms(2) idle_err[OF i(1)] d
    by (simp add: SearchUserFromLogin_def outcome_simps)
qed

end

text \<open>Transfers without a data connection and logins during a transfer.\<close>

lemma random_port_Ret: "usLen r \<noteq> 0 \<Longrightarrow> \<exists>p. random_port r n = Ret p"
  by (simp add: random_port_def)

lemma GetRandomSlave_Ret:
  assumes "Slaves s \<noteq> []"
  obtains v where "GetRandomSlave s n = Ret v" "v \<in> set (Slaves s)"
proof -
  have "n mod length (Slaves s) mod 2 ^ 16 < length (Slaves s)"
    using assms mod_less_divisor[of "length (Slaves s)" n]
    by (meson le_less_trans length_greater_0_conv mod_less_eq_dividend)
  then show thesis using that[of "Slaves s ! (n mod length (Slaves s) mod 2 ^ 16)"] assms
    by (simp add: GetRandomSlave_def)
qed

text \<open>An active transfer that the server can run: slaves and ports are configured.\<close>

definition can_transfer :: "'db env \<Rightarrow> client \<Rightarrow> bool" where
  "can_transfer e c \<longleftrightarrow> eDataConnection c = PORT \<and> Slaves (config e) \<noteq> [] \<and>
     (\<forall>s\<in>set (Slaves (config e)). \<exists>p<2 ^ 16. si_port s = Some p) \<and> usLen (DataPortRange (config e)) \<noteq> 0 \<and>
     0 < to_unsigned (to_int (int (uiTransferBufferSize (config e)))) \<and> 0 \<le> RestartAt (CurrentTransfer c) \<and>
     fits 64 (RestartAt (CurrentTransfer c)) \<and> fits 64 (ulClientIP c) \<and> (\<forall>h. fits 64 (inet_addr e h))"

lemma fits_values: "fits 32 (uint (w :: 16 word))" "fits 32 (to_int i)" "0 \<le> f \<Longrightarrow> f < 2 ^ 63 \<Longrightarrow> fits 64 f"
  using uint_bounded[of w] order_trans[OF _ uint_ge_0[of w], of "- 2147483648"] sint_less[of "word_of_int i :: 32 word"] sint_greater_eq[of "word_of_int i :: 32 word"]
  by (auto simp: fits_def to_int_def)

lemma active_params_Ret:
  assumes "can_transfer e c" and "0 \<le> fid" "fid < 2 ^ 63" "0 \<le> t" "t < 2 ^ 63"
  obtains p where "active_params e c s fid t n = Ret p" "p_fid p = fid" "p_restart_at p = RestartAt (CurrentTransfer c)"
    "p_transfer_buffer_size p = to_int (int (uiTransferBufferSize (config e)))" "active_fits p"
proof -
  note can = assms(1)[unfolded can_transfer_def]
  obtain port where port: "random_port (DataPortRange (config e)) n = Ret port" using random_port_Ret can by blast
  show thesis
    using can assms(2-) by (intro that) (auto simp: active_params_def port outcome_simps active_fits_def pasv_fits_def fits_values)
qed

definition completed :: "effect list \<Rightarrow> bool" where
  "completed out \<longleftrightarrow> wires out = [''150 Opening data channel.'' @ CRLF, ''226 Transfer complete.'' @ CRLF]"

lemma wires_end: "wires (if b then [] else [OnClientEvent x y]) = []"
  by simp

lemma finish_completed:
  assumes "wires out = [''150 Opening data channel.'' @ CRLF, ''226 Transfer complete.'' @ CRLF]"
  obtains c' out' where "finish e c out db net = Ret (c', out', db, net)" "completed out'"
  using finish_Ret[of e c out db net] assms by (auto simp: completed_def wires_end)

lemma uploaded:
  assumes "redis_server (redis e) view live" and "slave_nodes rpc held working incoming delivered"
    and "usable view live db" and "tree_ok (view db)" and "fids (view db) + 1 < 2 ^ 31"
    and "\<forall>s\<in>set ts. plain s" and "plain t" and "walk (hashes (view db)) 0 ts = Found p" and "0 \<le> p"
    and "off_path (hashes (view db)) ts p" and "can_transfer e c" and "pUser c = Some u"
    and "szPath (CurrentTransfer c) = canonical (ts @ [t])" and "working net"
    and "0 \<le> tids (view db)" and "tids (view db) + 2 < 2 ^ 63"
    and "\<forall>s. held net s (fids (view db) + 1) = None" and "int (length (incoming net)) < 2 ^ 63"
  obtains c1 out1 db1 net1 s where "run_StoreThread e rpc c c db net = Ret (c1, out1, db1, net1)" "completed out1"
    "usable view live db1" "tree_ok (view db1)" "working net1"
    "tids (view db1) = tids (view db) + 1" "lookup_fid (redis e) (canonical (ts @ [t])) db1 = Ret (fids (view db) + 1, db1)"
    "lookup_slave_info (redis e) (canonical (ts @ [t])) db1 = Ret (s, db1)"
    "held net1 s (fids (view db) + 1) = Some (stored_contents (RestartAt (CurrentTransfer c))
       (held net s (fids (view db) + 1)) (incoming net))"
proof -
  let ?R = "redis e" and ?f = "fids (view db) + 1" and ?path = "canonical (ts @ [t])"
  note can = assms(11)[unfolded can_transfer_def]
  obtain da where da: "get_new_fid ?R db = Ret (?f, da)" "usable view live da"
    "view da = (view db)\<lparr>counters := (counters (view db))(''fid_counter'' := ?f)\<rparr>"
    by (rule redis_server.new_fid[OF assms(1,3)])
  have ta: "tids (view da) = tids (view db)" by (simp add: da(3) tids_def)
  let ?tid = "tids (view da) + 1"
  obtain dc where dc: "get_new_transaction_id ?R da = Ret (?tid, dc)" "usable view live dc"
    "hashes (view dc) = hashes (view da)" "fids (view dc) = fids (view da)" "tree_ok (view dc) = tree_ok (view da)"
    "tids (view dc) = ?tid"
    by (rule redis_server.transaction_id[OF assms(1) da(2)])
  have h: "hashes (view dc) = hashes (view db)" "fids (view dc) = ?f" using dc(3,4) da(3) by (simp_all add: fids_def)
  have tree: "tree_ok (view dc)" using tree_ok_count[OF assms(4,5)] dc(5) da(3) by simp
  have f0: "0 \<le> ?f" using assms(4) by (simp add: tree_ok_def)
  obtain s where s: "GetRandomSlave (config e) (rand e 0) = Ret s" "s \<in> set (Slaves (config e))"
    using GetRandomSlave_Ret can by blast
  obtain port where port: "si_port s = Some port" "port < 2 ^ 16" using can s(2) by blast
  obtain q where q: "active_params e c s ?f ?tid (rand e 1) = Ret q" "p_fid q = ?f"
    "p_restart_at q = RestartAt (CurrentTransfer c)"
    "p_transfer_buffer_size q = to_int (int (uiTransferBufferSize (config e)))" "active_fits q"
    by (rule active_params_Ret[OF assms(11), of ?f ?tid s "rand e 1"]) (use f0 assms(5,15,16) ta in auto)
  have len: "int (length (stored_contents (p_restart_at q) (held net s (p_fid q)) (incoming net))) < 2 ^ 63"
    using assms(17,18) by (simp add: q(2) stored_contents_def)
  obtain rv net1 where rv: "rpc_active_store rpc s q (store_flags (RestartAt (CurrentTransfer c))) net = (Some rv, net1)"
    "rv_msg rv = ''226 Transfer complete.''" "0 \<le> rv_size rv" "working net1"
    "held net1 s ?f = Some (stored_contents (RestartAt (CurrentTransfer c)) (held net s ?f) (incoming net))"
    using slave_nodes.store[OF assms(2,14) q(5) _ _ len] can q(2,3,4) by force
  obtain db1 where db1: "save_new_file ?R (now e) ?path 511 (rv_size rv) (uid u) (gid u) ?f s dc = Ret (0, db1)"
    "usable view live db1" "tree_ok (view db1)" "lookup_fid ?R ?path db1 = Ret (?f, db1)"
    "lookup_slave_info ?R ?path db1 = Ret (s, db1)" "counters (view db1) = counters (view dc)"
    using saved_file[OF assms(1) dc(2) tree assms(6,7) _ assms(9) _ f0 _ port, unfolded h, OF assms(8,10)] by blast
  have rec: "record_file e c s ?f rv dc = Ret db1"
    using rv(3) db1(1) by (simp add: record_file_def assms(12,13) outcome_simps)
  obtain c1 out1 where fin: "finish e c (say e ''150 Opening data channel.'' @ say e ''226 Transfer complete.'') db1 net1 =
      Ret (c1, out1, db1, net1)" "completed out1"
    by (rule finish_completed[of "say e ''150 Opening data channel.'' @ say e ''226 Transfer complete.''"]) simp_all
  have "run_StoreThread e rpc c c db net = Ret (c1, out1, db1, net1)"
    using can fin(1) by (simp add: run_StoreThread_def stored_def outcome_simps da(1) s(1) dc(1) q(1)[simplified] rv(1,2) rec)
  moreover have "tids (view db1) = tids (view db) + 1" using dc(6) by (simp add: tids_def db1(6) ta[unfolded tids_def])
  ultimately show thesis by (rule that[OF _ fin(2) db1(2,3) rv(4) _ db1(4,5) rv(5)])
qed

lemma downloaded:
  assumes "redis_server (redis e) view live" and "slave_nodes rpc held working incoming delivered"
    and "usable view live db" and "can_transfer e c" and "szPath (CurrentTransfer c) = path"
    and "lookup_fid (redis e) path db = Ret (f, db)" and "0 \<le> f" and "lookup_slave_info (redis e) path db = Ret (s, db)"
    and "held net s f = Some d" and "working net" and "f < 2 ^ 63" and "0 \<le> tids (view db)" and "tids (view db) + 1 < 2 ^ 63"
  obtains c1 out1 db1 net1 where "run_RetrieveThread e rpc c c db net = Ret (c1, out1, db1, net1)" "completed out1"
    "delivered net1 = drop (nat (RestartAt (CurrentTransfer c))) d"
proof -
  note can = assms(4)[unfolded can_transfer_def]
  let ?tid = "tids (view db) + 1"
  obtain dc where dc: "get_new_transaction_id (redis e) db = Ret (?tid, dc)"
    by (rule redis_server.transaction_id[OF assms(1,3)])
  obtain q where q: "active_params e c s f ?tid (rand e 0) = Ret q" "p_fid q = f"
    "p_restart_at q = RestartAt (CurrentTransfer c)"
    "p_transfer_buffer_size q = to_int (int (uiTransferBufferSize (config e)))" "active_fits q"
    by (rule active_params_Ret[OF assms(4,7,11), of ?tid s "rand e 0"]) (use assms(12,13) in auto)
  obtain net1 where n: "rpc_active_retrieve rpc s q net = (Some ''226 Transfer complete.'', net1)"
    "delivered net1 = drop (nat (RestartAt (CurrentTransfer c))) d"
    using slave_nodes.retrieve[OF assms(2,10) q(5), of s d] can q(2,3,4) assms(9) by force
  obtain c1 out1 where fin: "finish e c (say e ''150 Opening data channel.'' @ say e ''226 Transfer complete.'') dc net1 =
      Ret (c1, out1, dc, net1)" "completed out1"
    by (rule finish_completed[of "say e ''150 Opening data channel.'' @ say e ''226 Transfer complete.''"]) simp_all
  have "run_RetrieveThread e rpc c c db net = Ret (c1, out1, dc, net1)"
    using can fin(1) assms(7) by (simp add: run_RetrieveThread_def assms(5,6,8) outcome_simps dc q(1) n(1) retrieved_def)
  then show thesis by (rule that[OF _ fin(2) n(2)])
qed

section \<open>The properties\<close>

text \<open>C4: An upload can be downloaded again: with working slaves, the thread of an active \<open>STOR\<close> into an
  existing directory ends with 226, keeps the file tree, and then the thread of a \<open>RETR\<close> of the same path
  from any position \<open>r\<close> ends with 226 and delivers exactly the bytes the client had sent, from \<open>r\<close> on.
  This is so wherever the upload was asked to start: every upload gets a new file id, so a resumed upload
  and \<open>APPE\<close> leave a file that holds the new bytes only.\<close>

theorem upload_then_download:
  assumes "redis_server (redis e) view live" and "slave_nodes rpc held working incoming delivered"
    and "usable view live db" and "tree_ok (view db)" and "fids (view db) + 1 < 2 ^ 31"
    and "\<forall>s\<in>set ts. plain s" and "plain t" and "walk (hashes (view db)) 0 ts = Found p" and "0 \<le> p"
    and "off_path (hashes (view db)) ts p" and "can_transfer e c" and "pUser c = Some u"
    and "szPath (CurrentTransfer c) = canonical (ts @ [t])" and "working net"
    and "0 \<le> tids (view db)" and "tids (view db) + 2 < 2 ^ 63"
    and "\<forall>s. held net s (fids (view db) + 1) = None" and "int (length (incoming net)) < 2 ^ 63"
    and "can_transfer e' c'" and "redis e' = redis e" and "szPath (CurrentTransfer c') = canonical (ts @ [t])"
  shows "\<exists>c1 out1 db1 net1 c2 out2 db2 net2.
    run_StoreThread e rpc c c db net = Ret (c1, out1, db1, net1) \<and> completed out1 \<and> tree_ok (view db1) \<and>
    run_RetrieveThread e' rpc c' c' db1 net1 = Ret (c2, out2, db2, net2) \<and> completed out2 \<and>
    delivered net2 = drop (nat (RestartAt (CurrentTransfer c'))) (incoming net)"
proof -
  obtain c1 out1 db1 net1 s where u: "run_StoreThread e rpc c c db net = Ret (c1, out1, db1, net1)" "completed out1"
    "usable view live db1" "tree_ok (view db1)" "working net1"
    "tids (view db1) = tids (view db) + 1" "lookup_fid (redis e) (canonical (ts @ [t])) db1 = Ret (fids (view db) + 1, db1)"
    "lookup_slave_info (redis e) (canonical (ts @ [t])) db1 = Ret (s, db1)"
    "held net1 s (fids (view db) + 1) = Some (stored_contents (RestartAt (CurrentTransfer c))
       (held net s (fids (view db) + 1)) (incoming net))"
    by (rule uploaded[OF assms(1-18)])
  have new: "held net1 s (fids (view db) + 1) = Some (incoming net)"
    using u(9) assms(17) by (simp add: stored_contents_def)
  have "redis_server (redis e') view live" and "0 \<le> fids (view db) + 1"
    using assms(1,4,20) by (auto simp: tree_ok_def)
  moreover have "fids (view db) + 1 < 2 ^ 63" "0 \<le> tids (view db1)" "tids (view db1) + 1 < 2 ^ 63"
    using assms(5,15,16) u(6) by simp_all
  ultimately show ?thesis using
    downloaded[OF _ assms(2) u(3) assms(19,21) u(7)[folded assms(20)] _ u(8)[folded assms(20)] new u(5)] u(1,2,4) by metis
qed

definition demo_net :: slave_net where
  "demo_net = \<lparr>nodes = (\<lambda>_. \<lparr>mDataSock = Map.empty, files = Map.empty\<rparr>), node_os = demo_os, last_out = []\<rparr>"

text \<open>A client that has sent \<open>PORT\<close> and whose transfer of \<open>/d/n\<close> starts at \<open>r\<close>.\<close>

definition demo_transfer :: "int \<Rightarrow> client" where
  "demo_transfer r = (demo_client 63)\<lparr>eDataConnection := PORT, eStatus := UPLOADING,
     CurrentTransfer := zero_transfer\<lparr>szPath := ''/d/n'', RestartAt := r, TransferThread := True\<rparr>\<rparr>"

lemma demo_working: "handler_working demo_net"
  by (auto simp: handler_working_def demo_net_def can_connect_def reliable_def demo_os_def)

lemma demo_can_transfer: "0 \<le> r \<Longrightarrow> r < 2 ^ 63 \<Longrightarrow> can_transfer demo_env (demo_transfer r)"
  by (simp add: can_transfer_def demo_env_def demo_config_def demo_transfer_def to_int_small to_unsigned_def
      demo_client_def demo_guest_def LogIn_def ResetTimeout_def new_client_def fits_def ip_of_def)

lemma demo_path_dn: "canonical ([''d''] @ [''n'']) = ''/d/n''"
  by simp

theorem upload_then_download_witness:
  "\<exists>c1 out1 db1 net1 c2 out2 db2 net2.
     run_StoreThread demo_env handler_rpc (demo_transfer 3) (demo_transfer 3) demo demo_net = Ret (c1, out1, db1, net1) \<and>
     run_RetrieveThread demo_env handler_rpc (demo_transfer 1) (demo_transfer 1) db1 net1 = Ret (c2, out2, db2, net2) \<and>
     handler_delivered net2 = ''bcde''"
proof -
  have r: "redis demo_env = mem_redis" by (simp add: demo_env_def)
  have pl: "\<forall>s\<in>set [''d'']. plain s" using demo_plain by simp
  have pu: "pUser (demo_transfer 3) = Some (demo_user 63\<lparr>uiNumberOfClient := 1\<rparr>)"
    by (simp add: demo_transfer_def demo_client_fields)
  have paths: "szPath (CurrentTransfer (demo_transfer i)) = canonical ([''d''] @ [''n''])" for i
    by (simp add: demo_transfer_def)
  have inc: "handler_incoming demo_net = ''abcde''" by (simp add: handler_incoming_def demo_net_def demo_os_def)
  have ra: "RestartAt (CurrentTransfer (demo_transfer 1)) = 1" by (simp add: demo_transfer_def)
  have fresh: "\<forall>s. handler_held demo_net s (fids (mem_view demo) + 1) = None"
    by (simp add: handler_held_def demo_net_def)
  have ev: "drop (nat (RestartAt (CurrentTransfer (demo_transfer 1)))) (handler_incoming demo_net) = ''bcde''"
    by (simp add: inc ra)
  have n: "fids (mem_view demo) + 1 < 2 ^ 31" "(0::int) \<le> 1" by simp_all
  have t: "0 \<le> tids (mem_view demo)" "tids (mem_view demo) + 2 < 2 ^ 63" by (simp_all add: tids_def mem_view_def demo_def)
  have len: "int (length (handler_incoming demo_net)) < 2 ^ 63" by (simp add: inc)
  have can: "can_transfer demo_env (demo_transfer 3)" "can_transfer demo_env (demo_transfer 1)"
    by (rule demo_can_transfer; simp)+
  from upload_then_download[OF mem.redis_server_axioms[folded r] handler.slave_nodes_axioms demo_usable demo_tree
      n(1) pl demo_plain(3) demo_walks(2) n(2) demo_off_path(2) can(1) pu paths demo_working t fresh len
      can(2) refl paths, unfolded ev]
  show ?thesis by blast
qed


lemma Store_size:
  assumes "os_open os" and "os_stat os" and "has_flag fl O_CREAT"
  shows "0 \<le> rv_size (fst (Store os bs fid r fl t st))"
proof -
  obtain v out st' where s: "Store os bs fid r fl t st = (v, out, st')" by (metis prod_cases3)
  then show ?thesis
  proof (cases rule: Store_run)
    case failed
    then show ?thesis using assms by (simp add: os_open_write_def)
  next
    case (opened f len f')
    then show ?thesis using assms(2) s by simp
  qed
qed

definition demo_upload :: client where
  "demo_upload = (demo_transfer 0)\<lparr>eDataConnection := PASV, nPRET_CMD := CMD_STOR\<rparr>"


text \<open>A transfer without a data connection: when neither \<open>PORT\<close> nor \<open>PASV\<close> has been sent the thread
  of \<open>STOR\<close> still takes a file id, and it and the thread of \<open>RETR\<close> answer with an empty line; the
  client object is idle afterwards, or deleted when the control connection is gone.\<close>

theorem transfer_without_connection:
  assumes "redis_server (redis e) view live" and "usable view live db" and "eDataConnection c = NONE"
    and "lookup_fid (redis e) (szPath (CurrentTransfer c)) db = Ret (f, db2)"
  shows "(\<exists>c' out db'. run_StoreThread e rpc c c db net = Ret (c', out, db', net) \<and> wires out = [CRLF] \<and>
      fids (view db') = fids (view db) + 1 \<and> hashes (view db') = hashes (view db) \<and> at_rest c c') \<and>
    (\<exists>c' out. run_RetrieveThread e rpc c c db net = Ret (c', out, db2, net) \<and> wires out = [CRLF] \<and> at_rest c c')"
proof -
  obtain d where d: "get_new_fid (redis e) db = Ret (fids (view db) + 1, d)"
    "view d = (view db)\<lparr>counters := (counters (view db))(''fid_counter'' := fids (view db) + 1)\<rparr>"
    by (rule redis_server.new_fid[OF assms(1,2)])
  have f: "\<exists>c' out. finish e c (say e []) x net = Ret (c', out, x, net) \<and> wires out = [CRLF] \<and> at_rest c c'" for x
    using finish_at_rest[of e c "say e []" x net] by simp
  have "run_StoreThread e rpc c c db net = finish e c (say e []) d net"
    "run_RetrieveThread e rpc c c db net = finish e c (say e []) db2 net"
    using assms(3) by (simp_all add: run_StoreThread_def run_RetrieveThread_def d(1) assms(4) outcome_simps)
  moreover have "fids (view d) = fids (view db) + 1" "hashes (view d) = hashes (view db)"
    by (simp_all add: d(2) fids_def)
  ultimately show ?thesis using f by metis
qed

theorem transfer_without_connection_witness:
  "\<exists>c' out db'. run_StoreThread demo_env handler_rpc (demo_client 63\<lparr>CurrentTransfer := zero_transfer\<lparr>szPath := ''/f''\<rparr>\<rparr>)
     (demo_client 63\<lparr>CurrentTransfer := zero_transfer\<lparr>szPath := ''/f''\<rparr>\<rparr>) demo demo_net = Ret (c', out, db', demo_net) \<and>
     wires out = [CRLF] \<and> fids (mem_view db') = 6"
proof -
  let ?c = "demo_client 63\<lparr>CurrentTransfer := zero_transfer\<lparr>szPath := ''/f''\<rparr>\<rparr>"
  have r: "redis demo_env = mem_redis" by (simp add: demo_env_def)
  have c: "eDataConnection ?c = NONE" by (simp add: demo_client_fields)
  have l: "lookup_fid (redis demo_env) (szPath (CurrentTransfer ?c)) demo = Ret (2, demo)"
    using redis_server.lookup_canonical[OF mem.redis_server_axioms demo_usable tree_ok_castable[OF demo_tree], of "[''f'']"]
      demo_plain demo_walks(3) by (simp add: r mem.found_fid_def)
  from transfer_without_connection[OF mem.redis_server_axioms[folded r] demo_usable c l] show ?thesis by fastforce
qed

end
