(* ===== verification/Lifecycle.thy ===== *)
theory Lifecycle
  imports TransferProps
begin

text \<open>
  The life of a client object: the command thread (\<open>Shell\<close>) and the transfer threads share it, and
  whoever ends last has to delete it. The steps run the handlers, \<open>shell_exit\<close> and \<open>end_transfer\<close> on
  the object; the threads themselves are counted by the effects of the commands (\<open>Spawn\<close> for
  \<open>pthread_create\<close>, \<open>CancelThread\<close> for the cancelled thread of the last transfer).
\<close>

section \<open>The threads of a client\<close>

definition is_spawn :: "effect \<Rightarrow> bool" where
  "is_spawn x = (case x of Spawn k \<Rightarrow> True | _ \<Rightarrow> False)"

definition spawns :: "effect list \<Rightarrow> nat" where
  "spawns out = length (filter is_spawn out)"

definition cancels :: "effect list \<Rightarrow> nat" where
  "cancels out = length (filter (\<lambda>x. x = CancelThread) out)"

text \<open>
  The object (\<open>None\<close> once it is deleted), whether the command thread runs, and the number of transfer
  threads; \<open>fault\<close> is set when a thread uses the object after it was deleted.
\<close>

record life =
  obj :: "client option"
  shell :: bool
  threads :: nat
  fault :: bool

text \<open>
  One step of a client, for every answer of the world: a command line, the last command, the end of
  the connection, or the end of a transfer thread. With \<open>polite\<close> the client starts no transfer while one is running.
\<close>

inductive life_step :: "'db redis \<Rightarrow> bool \<Rightarrow> life \<Rightarrow> life \<Rightarrow> bool" for R polite where
  Command: "obj s = Some c \<Longrightarrow> shell s \<Longrightarrow> redis e = R \<Longrightarrow> run_line e line c db = Ret (Continue, c', out, db') \<Longrightarrow>
    polite \<longrightarrow> spawns out = 0 \<or> eStatus c = WAITING \<Longrightarrow>
    life_step R polite s (s\<lparr>obj := Some c', threads := threads s + spawns out - cancels out\<rparr>)"
| LastCommand: "obj s = Some c \<Longrightarrow> shell s \<Longrightarrow> redis e = R \<Longrightarrow> run_line e line c db = Ret (Break, c', out, db') \<Longrightarrow>
    polite \<longrightarrow> spawns out = 0 \<or> eStatus c = WAITING \<Longrightarrow>
    life_step R polite s
      (s\<lparr>obj := shell_exit c', shell := False, threads := threads s + spawns out - cancels out\<rparr>)"
| Disconnect: "obj s = Some c \<Longrightarrow> shell s \<Longrightarrow> life_step R polite s (s\<lparr>obj := shell_exit c, shell := False\<rparr>)"
| ThreadEnd: "obj s = Some c \<Longrightarrow> threads s > 0 \<Longrightarrow> redis e = R \<Longrightarrow>
    life_step R polite s (s\<lparr>obj := fst (end_transfer e c), threads := threads s - 1\<rparr>)"
| UseAfterDelete: "obj s = None \<Longrightarrow> shell s \<or> threads s > 0 \<Longrightarrow> life_step R polite s (s\<lparr>fault := True\<rparr>)"

inductive_cases life_stepE: "life_step R polite s s'"

definition new_life :: "client \<Rightarrow> life" where
  "new_life c = \<lparr>obj = Some c, shell = True, threads = 0, fault = False\<rparr>"

text \<open>The states a new client can reach.\<close>

definition reachable :: "'db redis \<Rightarrow> bool \<Rightarrow> life \<Rightarrow> bool" where
  "reachable R polite s \<longleftrightarrow> (\<exists>(e :: 'db env) server_ip client_ip.
     (life_step R polite)\<^sup>*\<^sup>* (new_life (fst (shell_start e (new_client server_ip client_ip)))) s)"

section \<open>What a command does to the threads\<close>

lemma spawns_simps [simp]:
  "spawns [] = 0" "spawns (a @ b) = spawns a + spawns b" "spawns (x # xs) = (if is_spawn x then 1 else 0) + spawns xs"
  by (simp_all add: spawns_def)

lemma cancels_simps [simp]:
  "cancels [] = 0" "cancels (a @ b) = cancels a + cancels b"
  "cancels (x # xs) = (if x = CancelThread then 1 else 0) + cancels xs"
  by (simp_all add: cancels_def)

lemma is_spawn_simps [simp]:
  "is_spawn (Spawn k)" "\<not> is_spawn CancelThread" "\<not> is_spawn (Wire t)" "\<not> is_spawn (Sleep n)"
  "\<not> is_spawn (OnServerEvent v)" "\<not> is_spawn (OnClientEvent v a)" "\<not> is_spawn (OnUserEvent v t)"
  by (simp_all add: is_spawn_def)

lemma say_counts [simp]: "spawns (say e t) = 0" "cancels (say e t) = 0" "spawns (say2 e t) = 0" "cancels (say2 e t) = 0"
  by (simp_all add: say_def say2_def SendReply_def SendReply2_def Let_def)

text \<open>The object has a transfer exactly when it knows a thread; then the counts add up.\<close>

abbreviation has_thread :: "client \<Rightarrow> bool" where
  "has_thread c \<equiv> TransferThread (CurrentTransfer c)"

definition synced :: "client \<Rightarrow> bool" where
  "synced c \<longleftrightarrow> (eStatus c \<noteq> WAITING \<longleftrightarrow> has_thread c)"

definition traffic :: "client \<Rightarrow> Status_t \<times> bool \<times> bool" where
  "traffic c = (eStatus c, has_thread c, bIsCtrlCanalOpen c)"

definition counted :: "client \<Rightarrow> client \<Rightarrow> effect list \<Rightarrow> bool" where
  "counted c c' out \<longleftrightarrow> (synced c \<and> (spawns out = 0 \<or> eStatus c = WAITING) \<longrightarrow>
     bIsCtrlCanalOpen c' = bIsCtrlCanalOpen c \<and> synced c' \<and>
     of_bool (has_thread c') + cancels out = of_bool (has_thread c) + spawns out)"

definition keeps_count :: "client \<Rightarrow> 'db step \<Rightarrow> bool" where
  "keeps_count c m \<longleftrightarrow> (\<forall>fl c' out db'. m = Ret (fl, c', out, db') \<longrightarrow> counted c c' out)"

lemma counted_same: "traffic c' = traffic c \<Longrightarrow> spawns out = 0 \<Longrightarrow> cancels out = 0 \<Longrightarrow> counted c c' out"
  by (auto simp: counted_def traffic_def synced_def)

lemma traffic_updates [simp]:
  "traffic (c\<lparr>CtrlSock := a1\<rparr>) = traffic c" "traffic (c\<lparr>bIsLogged := a2\<rparr>) = traffic c"
  "traffic (c\<lparr>ulDataIp := a3\<rparr>) = traffic c" "traffic (c\<lparr>usDataPort := a4\<rparr>) = traffic c"
  "traffic (c\<lparr>tTimeoutTime := a5\<rparr>) = traffic c" "traffic (c\<lparr>nPasswordTries := a6\<rparr>) = traffic c"
  "traffic (c\<lparr>DataSock := a7\<rparr>) = traffic c" "traffic (c\<lparr>eDataMode := a8\<rparr>) = traffic c"
  "traffic (c\<lparr>eDataType := a9\<rparr>) = traffic c" "traffic (c\<lparr>eDataConnection := b1\<rparr>) = traffic c"
  "traffic (c\<lparr>szWorkingDir := b2\<rparr>) = traffic c" "traffic (c\<lparr>szRenameFromPath := b3\<rparr>) = traffic c"
  "traffic (c\<lparr>nPRET_CMD := b4\<rparr>) = traffic c" "traffic (c\<lparr>llPRET_fid := b5\<rparr>) = traffic c"
  "traffic (c\<lparr>llPRET_trans_id := b6\<rparr>) = traffic c" "traffic (c\<lparr>SlaveInfo := b7\<rparr>) = traffic c"
  "traffic (c\<lparr>pUser := b8\<rparr>) = traffic c"
  "traffic (c\<lparr>CurrentTransfer := (CurrentTransfer c)\<lparr>RestartAt := b9\<rparr>\<rparr>) = traffic c"
  by (simp_all add: traffic_def)

lemma traffic_login [simp]: "traffic (fst (LogIn e c)) = traffic c" "traffic (LogOut c) = traffic c"
  "spawns (snd (LogIn e c)) = 0" "cancels (snd (LogIn e c)) = 0"
  by (simp_all add: LogIn_def LogOut_def ResetTimeout_def)

lemma keeps_count_intros:
  "traffic c' = traffic c \<Longrightarrow> spawns out = 0 \<Longrightarrow> cancels out = 0 \<Longrightarrow> keeps_count c (Ret (fl, c', out, db'))"
  "traffic c' = traffic c \<Longrightarrow> keeps_count c (answer e t c' db')"
  "keeps_count c (Crash f)"
  by (simp_all add: keeps_count_def answer_def counted_same)

lemma keeps_count_Ret: "counted c c' out \<Longrightarrow> keeps_count c (Ret (fl, c', out, db'))"
  by (simp add: keeps_count_def)

lemma keeps_count_and_then: "(\<And>x. m = Ret x \<Longrightarrow> keeps_count c (f x)) \<Longrightarrow> keeps_count c (and_then m f)"
  by (cases m) (auto simp: keeps_count_def)

lemmas keeps_count_rules = keeps_count_intros keeps_count_and_then

named_theorems count_steps

lemma count_simple [count_steps]:
  "keeps_count c (cmd_QUIT e c db)" "keeps_count c (cmd_CLNT e arg c db)" "keeps_count c (cmd_STRU e arg c db)"
  "keeps_count c (cmd_OPTS e arg c db)" "keeps_count c (cmd_MODE e arg c db)" "keeps_count c (cmd_TYPE e arg c db)"
  "keeps_count c (cmd_FEAT e c db)" "keeps_count c (cmd_PWD e c db)" "keeps_count c (cmd_REST e arg c db)"
  "keeps_count c (cmd_CDUP e c db)"
  by (auto simp: cmd_QUIT_def cmd_CLNT_def cmd_STRU_def cmd_OPTS_def cmd_MODE_def cmd_TYPE_def cmd_FEAT_def
      cmd_PWD_def cmd_REST_def cmd_CDUP_def invalid_args_def syntax_error_def
      intro!: keeps_count_rules split: option.splits)

lemma count_files [count_steps]:
  "keeps_count c (cmd_MDTM e arg c db)" "keeps_count c (cmd_SIZE e arg c db)" "keeps_count c (cmd_DELE e arg c db)"
  "keeps_count c (cmd_MKD e arg c db)" "keeps_count c (cmd_RMD e arg c db)" "keeps_count c (cmd_CWD e arg c db)"
  "keeps_count c (cmd_RNFR e arg c db)" "keeps_count c (cmd_RNTO e arg c db)"
  unfolding cmd_MDTM_def cmd_SIZE_def cmd_DELE_def cmd_MKD_def cmd_RMD_def cmd_CWD_def cmd_RNFR_def cmd_RNTO_def
    invalid_args_def syntax_error_def
  by (auto split: prod.splits option.splits intro!: keeps_count_rules)

lemma count_PRET [count_steps]: "keeps_count c (cmd_PRET e arg c db)"
  unfolding cmd_PRET_def Let_def invalid_args_def
  by (auto split: prod.splits option.splits intro!: keeps_count_rules)

lemma SearchUser_counts:
  "SearchUserFromLogin R ok n login db = Ret (u, out, db') \<Longrightarrow> spawns out = 0 \<and> cancels out = 0"
  by (auto simp: SearchUserFromLogin_def and_then_eq_Ret split: if_splits prod.splits)

lemma LogIn_traffic: "LogIn e x = (y, out) \<Longrightarrow> traffic y = traffic x \<and> spawns out = 0 \<and> cancels out = 0"
  using traffic_login(1,3,4)[of e x] by auto

lemma count_USER [count_steps]: "keeps_count c (cmd_USER e arg c db)"
  unfolding cmd_USER_def Let_def invalid_args_def
  by (auto split: prod.splits option.splits intro!: keeps_count_rules dest!: SearchUser_counts LogIn_traffic)

lemma count_PASS [count_steps]: "keeps_count c (cmd_PASS e arg c db)"
proof -
  have "check_password e arg x = (y, o') \<Longrightarrow> traffic y = traffic x \<and> spawns o' = 0 \<and> cancels o' = 0" for x y o'
    by (auto simp: check_password_def split: option.splits if_splits dest!: LogIn_traffic)
  then show ?thesis unfolding cmd_PASS_def Let_def
    by (auto split: prod.splits if_splits intro!: keeps_count_rules)
qed

text \<open>Resetting the data connection, and what surrounds it in the handlers.\<close>

lemma counted_more:
  "counted c c1 o1 \<Longrightarrow> traffic c2 = traffic c1 \<Longrightarrow> spawns o2 = spawns o1 \<Longrightarrow> cancels o2 = cancels o1 \<Longrightarrow>
     counted c c2 o2"
  by (simp add: counted_def traffic_def synced_def)

lemma counted_from: "counted c1 c2 out \<Longrightarrow> traffic c1 = traffic c \<Longrightarrow> counted c c2 out"
  by (auto simp: counted_def traffic_def synced_def)

lemma counted_Reset: "ResetDataConnection True c = (c', out) \<Longrightarrow> counted c c' out"
  by (auto simp: ResetDataConnection_def counted_def synced_def zero_transfer_def)

lemma keeps_count_Reset:
  assumes "ResetDataConnection True c0 = (c1, out1)" and "traffic c0 = traffic c" and "traffic c2 = traffic c1"
    and "spawns out = spawns out1" and "cancels out = cancels out1"
  shows "keeps_count c (Ret (fl, c2, out, db))"
  using counted_more[OF counted_from[OF counted_Reset[OF assms(1)] assms(2)] assms(3-5)] by (rule keeps_count_Ret)

lemma count_ABOR [count_steps]: "keeps_count c (cmd_ABOR e c db)"
  by (cases "eStatus c = WAITING")
    (auto simp: cmd_ABOR_def keeps_count_intros(1) split: prod.splits elim!: keeps_count_Reset)

lemma keeps_count_cases:
  "(P \<Longrightarrow> keeps_count c a) \<Longrightarrow> (\<not> P \<Longrightarrow> keeps_count c b) \<Longrightarrow> keeps_count c (if P then a else b)"
  "(x = None \<Longrightarrow> keeps_count c n) \<Longrightarrow> (\<And>y. x = Some y \<Longrightarrow> keeps_count c (f y)) \<Longrightarrow>
     keeps_count c (case x of None \<Rightarrow> n | Some y \<Rightarrow> f y)"
  "(\<And>a b. z = (a, b) \<Longrightarrow> keeps_count c (g a b)) \<Longrightarrow> keeps_count c (case z of (a, b) \<Rightarrow> g a b)"
  "(l = [] \<Longrightarrow> keeps_count c n) \<Longrightarrow> (\<And>v vs. l = v # vs \<Longrightarrow> keeps_count c (h v vs)) \<Longrightarrow>
     keeps_count c (case l of [] \<Rightarrow> n | v # vs \<Rightarrow> h v vs)"
  by (auto split: option.splits prod.splits list.splits)

lemma maybe_Reset:
  assumes "(if b then ResetDataConnection True c else (c, [])) = (c1, out1)"
  shows "counted c c1 out1"
  using assms counted_Reset[of c c1 out1] counted_same[of c c "[]"] by (auto split: if_splits)

lemma keeps_count_maybe_Reset:
  assumes "(if b then ResetDataConnection True c else (c, [])) = (c1, out1)" and "traffic c2 = traffic c1"
    and "spawns out = spawns out1" and "cancels out = cancels out1"
  shows "keeps_count c (Ret (fl, c2, out, db))"
  using counted_more[OF maybe_Reset[OF assms(1)] assms(2-4)] by (rule keeps_count_Ret)

lemma count_PORT [count_steps]: "keeps_count c (cmd_PORT e arg c db)"
  unfolding cmd_PORT_def Let_def syntax_error_def
  by (intro keeps_count_intros(2,3) keeps_count_and_then keeps_count_cases; (rule refl)?; erule keeps_count_maybe_Reset; simp)

lemma count_start:
  assumes "traffic c0 = traffic c" and "spawns out = 0" and "cancels out = 0" and "status \<noteq> WAITING"
  shows "keeps_count c (start_transfer e kind ev status p out c0 db)"
  using assms
  by (auto simp: start_transfer_def Let_def keeps_count_def counted_def synced_def traffic_def ResetDataConnection_def
      zero_transfer_def)

lemma count_RETR [count_steps]: "keeps_count c (cmd_RETR e arg c db)"
  unfolding cmd_RETR_def pasv_failed_def syntax_error_def
  by (auto split: prod.splits option.splits intro!: keeps_count_rules count_start simp: open_pasv_def)

lemma store_path_counts: "store_path e nCmd arg c db = Ret (q, out, db') \<Longrightarrow> spawns out = 0 \<and> cancels out = 0"
  by (auto simp: store_path_def and_then_eq_Ret Let_def split: if_splits option.splits prod.splits)

lemma count_STOR [count_steps]: "keeps_count c (cmd_STOR e nCmd arg c db)"
  unfolding cmd_STOR_def pasv_failed_def syntax_error_def
  by (auto split: prod.splits option.splits if_splits intro!: keeps_count_rules count_start
      dest!: store_path_counts simp: and_then_eq_Ret open_pasv_def)

lemma count_PASV [count_steps]: "keeps_count c (cmd_PASV e c db)"
proof -
  have l: "keeps_count c (pasv_local e c db)"
    unfolding pasv_local_def Let_def
    by (intro keeps_count_intros(2,3) keeps_count_and_then keeps_count_cases; erule keeps_count_maybe_Reset; simp)
  have p: "pick_slave e c db = Ret (s, out, db') \<Longrightarrow> spawns out = 0 \<and> cancels out = 0" for s out db'
    by (auto simp: pick_slave_def and_then_eq_Ret split: if_splits prod.splits)
  have "keeps_count c (pasv_slave e c db)"
    unfolding pasv_slave_def Let_def
    by (auto split: prod.splits option.splits intro!: keeps_count_rules dest!: p)
  with l show ?thesis unfolding cmd_PASV_def by (auto intro!: keeps_count_intros(2))
qed

lemma list_options_thread: "list_options s t = (s', t') \<Longrightarrow> TransferThread t' = TransferThread t"
proof (induction s t arbitrary: s' t' rule: list_options.induct)
  case (1 s t)
  have "TransferThread (fold set_opt cs t) = TransferThread t" for cs t
    by (induction cs arbitrary: t) auto
  with 1 show ?case by (simp add: list_options.simps[of s t] split: if_splits)
qed

lemma Open_counts:
  assumes "OpenDataConnection e c = Ret (ok, c', out)" and "\<not> has_thread c"
  shows "spawns out = 0 \<and> cancels out = 0 \<and> traffic c' = traffic c"
  using assms
  by (auto simp: OpenDataConnection_def Let_def and_then_eq_Ret ResetDataConnection_def zero_transfer_def traffic_def
      split: if_splits prod.splits)

lemma count_LIST [count_steps]: "keeps_count c (cmd_LIST e nCmd arg c db)"
proof (cases "eStatus c = WAITING \<and> synced c")
  case False
  then show ?thesis
    by (auto simp: keeps_count_def counted_def cmd_LIST_def answer_def)
next
  case True
  then have t: "\<not> has_thread c" by (auto simp: synced_def)
  have u: "traffic (c\<lparr>CurrentTransfer := x\<rparr>) = traffic c" if "\<not> TransferThread x" for x
    using that t by (simp add: traffic_def)
  have o: "spawns out = 0 \<and> cancels out = 0 \<and> traffic c' = traffic c"
    if "(if nCmd = CMD_STAT then Ret (True, c2, say e ''213-Status follows:'') else OpenDataConnection e c2) = Ret (ok, c', out)"
      "traffic c2 = traffic c" for ok c' out c2
    using that Open_counts[of e c2 ok c' out] t by (auto simp: traffic_def split: if_splits)
  have fin: "keeps_count c (let c4 = c3\<lparr>eStatus := LISTING, CurrentTransfer := (CurrentTransfer c3)
       \<lparr>tr_cmd := nCmd, SockList := sock, TransferThread := thread_ok e\<rparr>\<rparr>;
      out4 = out @ [OnClientEvent CLIENT_LIST (Some p)]
    in if thread_ok e then Ret (Continue, c4, out4 @ [Spawn ListThread], db1)
       else let (c5, out5) = ResetDataConnection True c4
         in Ret (Continue, c5, out4 @ out5 @ [OnServerEvent THREAD_ERROR], db1))"
    if "spawns out = 0 \<and> cancels out = 0 \<and> traffic c3 = traffic c" for c3 out p sock db1
    using that True t
    by (auto simp: keeps_count_def counted_def synced_def traffic_def Let_def ResetDataConnection_def zero_transfer_def)
  have ifn: "(\<not> P \<Longrightarrow> keeps_count c a) \<Longrightarrow> (P \<Longrightarrow> keeps_count c b) \<Longrightarrow> keeps_count c (if \<not> P then a else b)"
    for P a and b :: "'a step" by simp
  obtain a' t' where lt: "(case arg of None \<Rightarrow> (None, zero_transfer)
      | Some a \<Rightarrow> let (a', t') = list_options a zero_transfer in (Some a', t')) = (a', t')" by (metis surj_pair)
  then have "\<not> TransferThread t'"
    by (auto simp: zero_transfer_def split: option.splits prod.splits dest!: list_options_thread)
  then have tr: "traffic (c\<lparr>CurrentTransfer := t'\<rparr>) = traffic c"
    "traffic (c\<lparr>CurrentTransfer := t'\<lparr>tr_st := b, szPath := p\<rparr>\<rparr>) = traffic c" for b p
    using u by simp_all
  show ?thesis
    unfolding cmd_LIST_def lt[unfolded Let_def] Let_def prod.case
    apply (rule keeps_count_cases(1))
    subgoal by (intro keeps_count_intros(2) refl)
    apply (intro keeps_count_cases(2,3) ifn keeps_count_intros(2) keeps_count_and_then fin[unfolded Let_def])
    apply (simp_all only: tr)
    subgoal by (drule o) (simp_all add: tr keeps_count_intros(1))
    subgoal by (drule o) (simp_all add: tr)
    done
qed

lemma keeps_count_if: "keeps_count c a \<Longrightarrow> keeps_count c b \<Longrightarrow> keeps_count c (if P then a else b)"
  by simp

lemma keeps_count_answer [count_steps]: "keeps_count c (answer e t c db)"
  by (rule keeps_count_intros(2)) simp

lemma shell_step_count: "keeps_count c (shell_step e nCmd arg c db)"
  unfolding shell_step_def by (intro keeps_count_if count_steps)

lemma run_line_count: "run_line e line c db = Ret (fl, c', out, db') \<Longrightarrow> counted c c' out"
  using shell_step_count[of c e "fst (ParseLine line)" "snd (ParseLine line)" db]
  by (simp add: run_line_def split_beta keeps_count_def)

section \<open>The invariant\<close>

text \<open>
  As long as there is one transfer at a time: the object is alive while a thread can use it, it knows
  its transfer thread, and it knows whether the command thread is there.
\<close>

definition life_ok :: "life \<Rightarrow> bool" where
  "life_ok s \<longleftrightarrow> \<not> fault s \<and> (case obj s of
      None \<Rightarrow> \<not> shell s \<and> threads s = 0
    | Some c \<Rightarrow> synced c \<and> threads s = of_bool (has_thread c) \<and> (bIsCtrlCanalOpen c \<longleftrightarrow> shell s) \<and>
        (shell s \<or> threads s > 0))"

lemma life_ok_exit:
  assumes "synced c" and "n = of_bool (has_thread c)" and "\<not> fault s"
  shows "life_ok (s\<lparr>obj := shell_exit c, shell := False, threads := n\<rparr>)"
  using assms by (cases s) (auto simp: life_ok_def shell_exit_def synced_def Let_def)

lemma life_ok_command:
  assumes "life_ok s" and "obj s = Some c" and "shell s" and "counted c c' out"
    and "spawns out = 0 \<or> eStatus c = WAITING"
  shows "bIsCtrlCanalOpen c'" and "synced c'" and "threads s + spawns out - cancels out = of_bool (has_thread c')"
  using assms by (auto simp: life_ok_def counted_def)

lemma life_ok_step: "life_ok s \<Longrightarrow> life_step R True s s' \<Longrightarrow> life_ok s'"
proof (erule life_stepE, goal_cases)
  case (1 c e line db c' out db')
  note k = life_ok_command[OF 1(1,3,4) run_line_count[OF 1(6)] mp[OF 1(7) TrueI]]
  show ?case using k 1(1,3,4) unfolding 1(2) by (simp add: life_ok_def split: option.splits)
next
  case (2 c e line db c' out db')
  note k = life_ok_command[OF 2(1,3,4) run_line_count[OF 2(6)] mp[OF 2(7) TrueI]]
  have "\<not> fault s" using 2(1) by (simp add: life_ok_def)
  from life_ok_exit[OF k(2) k(3) this] show ?case unfolding 2(2) .
next
  case (3 c)
  have "synced c" "threads s = of_bool (has_thread c)" "\<not> fault s" using 3(1,3) by (simp_all add: life_ok_def)
  from life_ok_exit[OF this] show ?case unfolding 3(2) by simp
next
  case (4 c e)
  then show ?case
    by (auto simp: life_ok_def end_transfer_def ResetDataConnection_def ResetTimeout_def synced_def zero_transfer_def
        split: if_splits)
next
  case 5
  then show ?case by (simp add: life_ok_def)
qed

lemma life_ok_start: "life_ok (new_life (fst (shell_start e (new_client server_ip client_ip))))"
  by (simp add: life_ok_def new_life_def shell_start_def ResetTimeout_def new_client_def CClientEntry_def synced_def
      zero_transfer_def)

lemma life_ok_reachable:
  assumes "reachable R True s"
  shows "life_ok s"
proof -
  obtain e :: "'a env" and sip cip where
    "(life_step R True)\<^sup>*\<^sup>* (new_life (fst (shell_start e (new_client sip cip)))) s"
    using assms by (auto simp: reachable_def)
  then show ?thesis by (induction rule: rtranclp_induct) (auto intro: life_ok_start life_ok_step)
qed

section \<open>The properties\<close>

text \<open>C6: A client that starts no transfer while one is running: after any commands, in any order with the
  ends of its threads and of its connection, no thread uses the deleted object, there is at most one
  transfer thread, and the object is deleted exactly when the command thread and the transfer thread
  have both ended, so that it is deleted once and never leaks.\<close>

theorem one_transfer_at_a_time:
  assumes "reachable R True s"
  shows "\<not> fault s \<and> threads s \<le> 1 \<and> (obj s = None \<longleftrightarrow> \<not> shell s \<and> threads s = 0) \<and>
    (case obj s of None \<Rightarrow> True | Some c \<Rightarrow> (bIsCtrlCanalOpen c \<longleftrightarrow> shell s) \<and> (eStatus c \<noteq> WAITING \<longleftrightarrow> threads s = 1))"
  using life_ok_reachable[OF assms] by (auto simp: life_ok_def synced_def split: option.splits)

text \<open>A new client that leaves at once.\<close>

theorem one_transfer_at_a_time_witness:
  "\<exists>s. reachable mem_redis True s \<and> obj s = None \<and> \<not> shell s \<and> threads s = 0"
proof -
  let ?c = "fst (shell_start demo_env (new_client 1 2))"
  let ?s = "(new_life ?c)\<lparr>obj := shell_exit ?c, shell := False\<rparr>"
  have "life_step mem_redis True (new_life ?c) ?s" by (rule Disconnect) (simp_all add: new_life_def)
  then have r: "reachable mem_redis True ?s" unfolding reachable_def by blast
  moreover have "\<not> shell ?s" "threads ?s = 0" by (simp_all add: new_life_def)
  moreover from one_transfer_at_a_time[OF r] calculation have "obj ?s = None" by blast
  ultimately show ?thesis by blast
qed

text \<open>C36: A second transfer breaks this: a client that sends \<open>STOR\<close> while a transfer is running and then
  disconnects makes the first thread that ends delete the object, and the other one use it.\<close>

theorem second_transfer_uses_deleted_object:
  fixes e :: "'db env"
  assumes "obj s = Some c" and "shell s" and "0 < threads s" and "bIsLogged c" and "may c WRITEFILE"
    and "client_path c (Some a) = Some (p, vp)" and "eDataConnection c \<noteq> PASV" and "thread_ok e"
    and "ParseLine line = (CMD_STOR, Some a)"
  shows "\<exists>s'. (life_step (redis e) False)\<^sup>*\<^sup>* s s' \<and> fault s'"
proof -
  let ?c = "c\<lparr>eStatus := UPLOADING, CurrentTransfer := (CurrentTransfer c)\<lparr>szPath := p, TransferThread := True\<rparr>\<rparr>"
  have "run_line e line c db = Ret (Continue, ?c, [OnClientEvent CLIENT_UPLOAD (Some p), Spawn StoreThread], db)" for db
    using assms(4-9) by (simp add: run_line_def shell_step_def cmd_STOR_def store_path_def open_pasv_def
        start_transfer_def outcome_simps)
  from Command[OF assms(1,2) refl this, of False]
  have 1: "life_step (redis e) False s (s\<lparr>obj := Some ?c, threads := threads s + 1\<rparr>)" (is "life_step _ _ _ ?s1")
    by simp
  have 2: "life_step (redis e) False ?s1 (?s1\<lparr>obj := shell_exit ?c, shell := False\<rparr>)" (is "life_step _ _ _ ?s2")
    by (rule Disconnect) (simp_all add: assms)
  obtain d where d: "shell_exit ?c = Some d" "\<not> bIsCtrlCanalOpen d" by (simp add: shell_exit_def)
  have 3: "life_step (redis e) False ?s2 (?s2\<lparr>obj := fst (end_transfer e d), threads := threads ?s2 - 1\<rparr>)"
    (is "life_step _ _ _ ?s3") by (rule ThreadEnd) (simp_all add: d)
  have "obj ?s3 = None" using d(2) by (simp add: end_transfer_def ResetDataConnection_def)
  moreover have "threads ?s3 > 0" using assms(3) by simp
  ultimately have "life_step (redis e) False ?s3 (?s3\<lparr>fault := True\<rparr>)" by (intro UseAfterDelete) auto
  with 1 2 3 have "(life_step (redis e) False)\<^sup>*\<^sup>* s (?s3\<lparr>fault := True\<rparr>)"
    by (meson converse_rtranclp_into_rtranclp rtranclp.rtrancl_refl)
  then show ?thesis by (rule exI[of _ "?s3\<lparr>fault := True\<rparr>", OF conjI]) simp
qed

theorem second_transfer_uses_deleted_object_witness:
  "\<exists>s'. (life_step mem_redis False)\<^sup>*\<^sup>*
     \<lparr>obj = Some ((demo_client 63)\<lparr>eStatus := DOWNLOADING\<rparr>), shell = True, threads = 1, fault = False\<rparr> s' \<and> fault s'"
proof -
  let ?c = "(demo_client 63)\<lparr>eStatus := DOWNLOADING\<rparr>"
  let ?s = "\<lparr>obj = Some ?c, shell = True, threads = 1, fault = False\<rparr> :: life"
  have e: "redis demo_env = mem_redis" "thread_ok demo_env" by (simp_all add: demo_env_def)
  have "bIsLogged ?c" using demo_client_ok by simp
  moreover have "may ?c WRITEFILE" using demo_may[of 63 WRITEFILE] by (simp add: may_def WRITEFILE_def)
  moreover have "client_path ?c (Some ''x'') = Some (''/x'', ''/x'')" using demo_path[of 63] by (simp add: client_path_def)
  moreover have "eDataConnection ?c \<noteq> PASV" by (simp add: demo_client_fields)
  moreover have "ParseLine ''STOR x'' = (CMD_STOR, Some ''x'')" by code_simp
  ultimately show ?thesis
    using second_transfer_uses_deleted_object[of ?s ?c "''x''" "''/x''" "''/x''" demo_env "''STOR x''"] e by simp
qed

end
