(* ===== verification/Listing.thy ===== *)
theory Listing
  imports Transfers
begin

text \<open>
  Directory listings: the iteration over a directory (\<open>CEnumFileInfo\<close>), the text of an entry
  (\<open>GetFileListLine\<close>), the buffer that collects the lines (\<open>AddToListBuffer\<close>) and the thread that
  sends them (\<open>ListThread\<close>), on the data connection or, for \<open>STAT\<close>, on the control connection.
\<close>

section \<open>The entries of a directory\<close>

text \<open>One entry: its name, mode (16 bits), size and time.\<close>

record file_info =
  fi_name :: string
  fi_mode :: int
  fi_size :: int
  fi_mtime :: int

definition with_slash :: "string \<Rightarrow> string" where
  "with_slash path = (if path \<noteq> [] \<and> last path = CHR ''/'' then path else path @ ''/'')"

text \<open>
  \<open>FindNext\<close>: the next entry that \<open>readdir\<close> gives, with the result of \<open>stat\<close>, or zeros. A name that
  does not fit the path buffer ends the listing.
\<close>

definition FindNext :: "'db redis \<Rightarrow> string \<Rightarrow> vdir \<Rightarrow> 'db \<Rightarrow> (file_info option \<times> vdir \<times> 'db) outcome" where
  "FindNext R dir dp db = and_then (readdir dp) (\<lambda>(entry, dp').
     case entry of
       None \<Rightarrow> Ret (None, dp', db)
     | Some d \<Rightarrow>
         if length dir + length (d_name d) \<ge> MAX_PATH then Ret (None, dp', db)
         else and_then (vfs_stat R (with_slash dir @ d_name d) db) (\<lambda>(st, db').
           Ret (Some (case st of
               Some b \<Rightarrow> \<lparr>fi_name = d_name d, fi_mode = st_mode b mod 2 ^ 16, fi_size = st_size b, fi_mtime = st_mtime b\<rparr>
             | None \<Rightarrow> \<lparr>fi_name = d_name d, fi_mode = 0, fi_size = 0, fi_mtime = 0\<rparr>), dp', db')))"

text \<open>
  \<open>FindFirst\<close>: the path with a slash at its end is formatted into a buffer of \<open>MAX_PATH + 1\<close> bytes;
  the byte before an empty path is read.
\<close>

definition FindFirst :: "'db redis \<Rightarrow> string \<Rightarrow> 'db \<Rightarrow> (file_info option \<times> vdir \<times> 'db) outcome" where
  "FindFirst R dir db =
     (if dir = [] \<or> length (with_slash dir) > MAX_PATH then Crash OutOfBounds
      else and_then (opendir R (with_slash dir) db) (\<lambda>(vdp, db1). case vdp of
          None \<Rightarrow> Ret (None, None, db1)
        | Some m \<Rightarrow> FindNext R dir (Some m) db1))"

section \<open>The text of an entry\<close>

definition pszMonth :: "string list" where
  "pszMonth = [''Jan'', ''Feb'', ''Mar'', ''Apr'', ''May'', ''Jun'', ''Jul'', ''Aug'', ''Sep'', ''Oct'', ''Nov'', ''Dec'']"

definition mode_bit :: "int \<Rightarrow> int \<Rightarrow> char \<Rightarrow> char" where
  "mode_bit mode b x = (if mode div b mod 2 = 1 then x else CHR ''-'')"

definition GetFileListLine :: "int \<Rightarrow> file_info \<Rightarrow> bool \<Rightarrow> string" where
  "GetFileListLine time_now f F =
     (let t = gmtime (fi_mtime f);
          year_or_hour = (if time_now - fi_mtime f > 180 * 24 * 60 * 60
            then pad_left (CHR '' '') 5 (show_int (tm_year t + 1900))
            else two (tm_hour t) @ '':'' @ two (tm_min t))
      in [if S_ISDIR (fi_mode f) then CHR ''d'' else CHR ''-'', mode_bit (fi_mode f) 256 (CHR ''r''),
          mode_bit (fi_mode f) 128 (CHR ''w''), mode_bit (fi_mode f) 64 (CHR ''x'')] @ ''------'' @
         '' 1 user group '' @ pad_left (CHR '' '') 14 (show_int (fi_size f)) @ '' '' @
         pszMonth ! nat (tm_mon t) @ '' '' @ pad_left (CHR '' '') 2 (show_int (tm_mday t)) @ '' '' @
         year_or_hour @ '' '' @ fi_name f @ (if F \<and> S_ISDIR (fi_mode f) then ''/'' else []) @ CRLF)"

section \<open>The buffer\<close>

text \<open>
  \<open>AddToListBuffer\<close>, with the buffer of \<open>cap\<close> bytes and the results of the calls of \<open>send\<close> that are left
  (see \<open>os_count\<close>): whether to go on, the buffer, and what was sent. What does not fit after a full
  buffer was sent is copied to its start.
\<close>

definition AddToListBuffer :: "nat \<Rightarrow> string \<Rightarrow> string \<Rightarrow> int list \<Rightarrow> (bool \<times> string \<times> string \<times> int list) outcome" where
  "AddToListBuffer cap line buf ss =
     (let can = min (length line) (cap - length buf); b = buf @ take can line in
      if length b = cap then
        (let (k, ss') = os_count ss cap in
         if k \<le> 0 then Ret (False, b, [], ss')
         else if length line - can > cap then Crash OutOfBounds
         else Ret (True, drop can line, take (nat k) b, ss'))
      else Ret (True, b, [], ss))"

text \<open>Without a line the buffer is sent.\<close>

definition flush_list_buffer :: "string \<Rightarrow> int list \<Rightarrow> string" where
  "flush_list_buffer buf ss = take (nat (fst (os_count ss (length buf)))) buf"

section \<open>The thread\<close>

text \<open>What is sent for an entry: nothing for hidden ones, for \<open>NLST\<close> the bare name.\<close>

definition entry_text :: "'db env \<Rightarrow> DataTransfer_t \<Rightarrow> file_info \<Rightarrow> string option" where
  "entry_text e t f =
     (if char_at (fi_name f) 0 = CHR ''.'' \<and> \<not> opt_a t then None
      else if tr_cmd t = CMD_NLST then Some (fi_name f)
      else Some (GetFileListLine (now e) f (opt_F t)))"

definition add_entry :: "'db env \<Rightarrow> DataTransfer_t \<Rightarrow> file_info \<Rightarrow> string \<Rightarrow> int list \<Rightarrow>
    (bool \<times> string \<times> string \<times> int list) outcome" where
  "add_entry e t f buf ss = (case entry_text e t f of
      None \<Rightarrow> Ret (True, buf, [], ss)
    | Some line \<Rightarrow> AddToListBuffer (uiTransferBufferSize (config e)) line buf ss)"

text \<open>The loop: \<open>f\<close> is the current entry; the result is what was sent, the buffer and the sends left.\<close>

lemma FindNext_shorter:
  "FindNext R dir dp db = Ret (Some f, dp', db') \<Longrightarrow>
     (case dp' of None \<Rightarrow> 0 | Some m \<Rightarrow> Suc (length m)) < (case dp of None \<Rightarrow> 0 | Some m \<Rightarrow> Suc (length m))"
  by (auto simp: FindNext_def readdir_def and_then_eq_Ret split: option.splits list.splits if_splits prod.splits)

function list_loop :: "'db env \<Rightarrow> DataTransfer_t \<Rightarrow> file_info \<Rightarrow> vdir \<Rightarrow> string \<Rightarrow> int list \<Rightarrow> 'db \<Rightarrow>
    (string \<times> string \<times> int list \<times> 'db) outcome" where
  "list_loop e t f dp buf ss db = and_then (add_entry e t f buf ss) (\<lambda>(go, buf1, out, ss1).
     if \<not> go then Ret (out, buf1, ss1, db)
     else and_then (FindNext (redis e) (szPath t) dp db) (\<lambda>(entry, dp', db').
       case entry of
         None \<Rightarrow> Ret (out, buf1, ss1, db')
       | Some g \<Rightarrow> and_then (list_loop e t g dp' buf1 ss1 db') (\<lambda>(out2, r). Ret (out @ out2, r))))"
  by pat_completeness auto
termination
  by (relation "measure (\<lambda>(e, t, f, dp, buf, ss, db). case dp of None \<Rightarrow> 0 | Some m \<Rightarrow> Suc (length m))")
    (auto dest: FindNext_shorter)

declare list_loop.simps [simp del]

text \<open>The name shown for a single file: what follows the last slash, or a dot.\<close>

definition single_name :: "string \<Rightarrow> string" where
  "single_name path = (let r = rev (takeWhile (\<lambda>c. c \<noteq> CHR ''/'') (rev path))
     in if CHR ''/'' \<in> set path \<and> r \<noteq> [] then r else ''.'')"

text \<open>
  What \<open>ListThread\<close> sends on its socket. A directory that has gone sends nothing.
\<close>

definition list_data :: "'db env \<Rightarrow> client \<Rightarrow> int list \<Rightarrow> 'db \<Rightarrow> (string \<times> 'db) outcome" where
  "list_data e c ss db =
     (let t = CurrentTransfer c; st = (case tr_st t of
            Some b \<Rightarrow> b | None \<Rightarrow> \<lparr>st_mode = 0, st_size = 0, st_uid = 0, st_gid = 0, st_mtime = 0\<rparr>) in
      if opt_d t \<or> \<not> S_ISDIR (st_mode st) then
        (let line = GetFileListLine (now e) \<lparr>fi_name = single_name (szPath t), fi_mode = st_mode st mod 2 ^ 16,
               fi_size = st_size st, fi_mtime = st_mtime st\<rparr> (opt_F t)
         in Ret (flush_list_buffer line ss, db))
      else and_then (FindFirst (redis e) (szPath t) db) (\<lambda>(entry, dp, db1). case entry of
          None \<Rightarrow> Ret ([], db1)
        | Some f \<Rightarrow> and_then (list_loop e t f dp [] ss db1) (\<lambda>(out, buf, ss', db2).
            Ret (out @ flush_list_buffer buf ss', db2))))"

text \<open>\<open>ListThread\<close>: the result is the client object, the outputs, and what was sent on the socket.\<close>

definition run_ListThread :: "'db env \<Rightarrow> client \<Rightarrow> client \<Rightarrow> int list \<Rightarrow> 'db \<Rightarrow>
    (client option \<times> effect list \<times> string \<times> 'db) outcome" where
  "run_ListThread e c c' ss db = and_then (list_data e c ss db) (\<lambda>(sent, db1).
     let reply = (if tr_cmd (CurrentTransfer c) \<noteq> CMD_STAT then say e ''226 Transfer complete.''
                  else say e ''213 End of status'');
         (c2, out) = end_transfer e c'
     in Ret (c2, reply @ out, sent, db1))"

end
