(* ===== verification/ListingProps.thy ===== *)
theory ListingProps
  imports Listing ShellClaims VfsProps
begin

text \<open>
  The lemmas on listings: the buffer loses and reorders nothing, so what is sent is the text of the
  entries in the order of the directory, whatever the size of the buffer.
\<close>

section \<open>The buffer\<close>

text \<open>When every \<open>send\<close> takes a whole buffer and a line fits, the bytes sent and buffered are kept.\<close>

lemma AddToListBuffer_keeps:
  assumes "length buf < cap" and "length line \<le> cap" and "\<forall>k\<in>set ss. int cap \<le> k"
  obtains buf' out ss' where "AddToListBuffer cap line buf ss = Ret (True, buf', out, ss')"
    "out @ buf' = buf @ line" "length buf' < cap" "\<forall>k\<in>set ss'. int cap \<le> k"
proof (cases "length buf + min (length line) (cap - length buf) = cap")
  case True
  let ?n = "min (length line) (cap - length buf)"
  have n: "?n = cap - length buf" "?n \<le> length line" "0 < ?n" using True assms(1) by auto
  obtain k ss' where "os_count ss cap = (k, ss')" by (metis surj_pair)
  then have k: "os_count ss cap = (k, ss')" "\<forall>k\<in>set ss'. int cap \<le> k" "k = int cap"
    using assms(3) by (auto simp: os_count_def split: list.splits)
  have "AddToListBuffer cap line buf ss = Ret (True, drop ?n line, buf @ take ?n line, ss')"
    using True k assms(1,2) by (simp add: AddToListBuffer_def Let_def)
  moreover have "length (drop ?n line) < cap" using n(3) assms(2) by auto
  ultimately show thesis using that k(2) by simp
next
  case False
  then have "min (length line) (cap - length buf) = length line" "length buf + length line < cap"
    using assms(1) by auto
  then show thesis using that[of "buf @ line" "[]" ss] False assms(3) by (simp add: AddToListBuffer_def Let_def)
qed

definition text_of :: "'db env \<Rightarrow> DataTransfer_t \<Rightarrow> file_info \<Rightarrow> string" where
  "text_of e t f = (case entry_text e t f of None \<Rightarrow> [] | Some s \<Rightarrow> s)"

abbreviation list_cap :: "'db env \<Rightarrow> nat" where
  "list_cap e \<equiv> uiTransferBufferSize (config e)"

lemma add_entry_keeps:
  assumes "length buf < list_cap e" and "length (text_of e t f) \<le> list_cap e" and "\<forall>k\<in>set ss. int (list_cap e) \<le> k"
  obtains buf' out ss' where "add_entry e t f buf ss = Ret (True, buf', out, ss')"
    "out @ buf' = buf @ text_of e t f" "length buf' < list_cap e" "\<forall>k\<in>set ss'. int (list_cap e) \<le> k"
proof (cases "entry_text e t f")
  case None
  then show thesis using that[of buf "[]" ss] assms by (simp add: add_entry_def text_of_def)
next
  case (Some line)
  then have "length line \<le> list_cap e" using assms(2) by (simp add: text_of_def)
  from AddToListBuffer_keeps[OF assms(1) this assms(3)] obtain buf' out ss' where
    "AddToListBuffer (list_cap e) line buf ss = Ret (True, buf', out, ss')" "out @ buf' = buf @ line"
    "length buf' < list_cap e" "\<forall>k\<in>set ss'. int (list_cap e) \<le> k" .
  then show thesis using that Some by (simp add: add_entry_def text_of_def)
qed

lemma flush_all:
  assumes "length buf < cap" and "\<forall>k\<in>set ss. int cap \<le> k"
  shows "flush_list_buffer buf ss = buf"
  using assms by (auto simp: flush_list_buffer_def os_count_def split: list.splits)

section \<open>The loop\<close>

text \<open>The entries as \<open>FindNext\<close> gives them when \<open>stat\<close> answers \<open>st\<close> and the paths fit.\<close>

definition info :: "(string \<Rightarrow> stat_buf option) \<Rightarrow> string \<Rightarrow> file_info" where
  "info st n = (case st n of
      Some b \<Rightarrow> \<lparr>fi_name = n, fi_mode = st_mode b mod 2 ^ 16, fi_size = st_size b, fi_mtime = st_mtime b\<rparr>
    | None \<Rightarrow> \<lparr>fi_name = n, fi_mode = 0, fi_size = 0, fi_mtime = 0\<rparr>)"

definition listable :: "'db redis \<Rightarrow> string \<Rightarrow> (string \<Rightarrow> stat_buf option) \<Rightarrow> 'db \<Rightarrow> (string \<times> int) list \<Rightarrow> bool" where
  "listable R dir st db m \<longleftrightarrow> (\<forall>n\<in>fst ` set m. length n < 256 \<and> length dir + length n < MAX_PATH \<and>
     vfs_stat R (with_slash dir @ n) db = Ret (st n, db))"

lemma FindNext_Cons:
  "listable R dir st db ((n, f) # m) \<Longrightarrow> FindNext R dir (Some ((n, f) # m)) db = Ret (Some (info st n), Some m, db)"
  by (auto simp: listable_def FindNext_def readdir_def outcome_simps info_def split: option.splits)

lemma FindNext_Nil: "FindNext R dir (Some []) db = Ret (None, None, db)"
  by (simp add: FindNext_def readdir_def outcome_simps)

lemma list_loop_all:
  assumes "listable (redis e) (szPath t) st db m"
    and "\<forall>n\<in>insert (fi_name f) (fst ` set m). length (text_of e t (info st n)) \<le> list_cap e"
    and "f = info st (fi_name f)" and "length buf < list_cap e" and "\<forall>k\<in>set ss. int (list_cap e) \<le> k"
  shows "\<exists>out buf' ss'. list_loop e t f (Some m) buf ss db = Ret (out, buf', ss', db) \<and>
    out @ buf' = buf @ text_of e t f @ concat (map (\<lambda>(n, _). text_of e t (info st n)) m) \<and>
    length buf' < list_cap e \<and> (\<forall>k\<in>set ss'. int (list_cap e) \<le> k)"
  using assms
proof (induction m arbitrary: f buf ss)
  case Nil
  obtain buf' out ss' where "add_entry e t f buf ss = Ret (True, buf', out, ss')" "out @ buf' = buf @ text_of e t f"
    "length buf' < list_cap e" "\<forall>k\<in>set ss'. int (list_cap e) \<le> k"
    by (rule add_entry_keeps[of buf e t f ss]) (use Nil(2-5) in auto)
  then show ?case by (simp add: list_loop.simps[of e t f] outcome_simps FindNext_Nil)
next
  case (Cons x m)
  obtain n i where x: "x = (n, i)" by (cases x)
  obtain buf1 out1 ss1 where a: "add_entry e t f buf ss = Ret (True, buf1, out1, ss1)" "out1 @ buf1 = buf @ text_of e t f"
    "length buf1 < list_cap e" "\<forall>k\<in>set ss1. int (list_cap e) \<le> k"
    by (rule add_entry_keeps[of buf e t f ss]) (use Cons(3-6) in auto)
  have nx: "FindNext (redis e) (szPath t) (Some (x # m)) db = Ret (Some (info st n), Some m, db)"
    unfolding x by (rule FindNext_Cons) (use Cons(2) x in simp)
  have nm: "fi_name (info st n) = n" by (simp add: info_def split: option.splits)
  have "listable (redis e) (szPath t) st db m" using Cons(2) by (simp add: listable_def)
  from Cons.IH[OF this _ _ a(3,4), of "info st n"] Cons(3) nm x obtain out buf' ss' where
    l: "list_loop e t (info st n) (Some m) buf1 ss1 db = Ret (out, buf', ss', db)"
    "out @ buf' = buf1 @ text_of e t (info st n) @ concat (map (\<lambda>(n, _). text_of e t (info st n)) m)"
    "length buf' < list_cap e" "\<forall>k\<in>set ss'. int (list_cap e) \<le> k" by auto
  have "list_loop e t f (Some (x # m)) buf ss db = Ret (out1 @ out, buf', ss', db)"
    by (simp add: list_loop.simps[of e t f] outcome_simps a(1) nx l(1))
  moreover have "(out1 @ out) @ buf' = buf @ text_of e t f @ concat (map (\<lambda>(n, _). text_of e t (info st n)) (x # m))"
    using arg_cong[OF a(2), of "\<lambda>u. u @ concat (map (\<lambda>(n, _). text_of e t (info st n)) (x # m))"] l(2) x by simp
  ultimately show ?case using l(3,4) by blast
qed

section \<open>The properties\<close>

text \<open>C27: A listing sends the text of every entry of the directory exactly once and in the order of the
  names, whatever the size of the buffer (as long as every line fits into it): the bytes on the socket
  are the concatenation of the lines, hidden entries excepted. For \<open>NLST\<close> these are the names with
  nothing between them.\<close>

theorem listing_is_complete:
  assumes "tr_st (CurrentTransfer c) = Some b" and "S_ISDIR (st_mode b)" and "\<not> opt_d (CurrentTransfer c)"
    and "szPath (CurrentTransfer c) = dir" and "dir \<noteq> []" and "length (with_slash dir) \<le> MAX_PATH"
    and "opendir (redis e) (with_slash dir) db = Ret (Some m, db)" and "m \<noteq> []"
    and "listable (redis e) dir st db m"
    and "\<forall>n\<in>fst ` set m. length (text_of e (CurrentTransfer c) (info st n)) \<le> uiTransferBufferSize (config e)"
    and "0 < uiTransferBufferSize (config e)" and "\<forall>k\<in>set ss. int (uiTransferBufferSize (config e)) \<le> k"
  shows "\<exists>c2 out. run_ListThread e c c' ss db =
    Ret (c2, out, concat (map (\<lambda>(n, _). text_of e (CurrentTransfer c) (info st n)) m), db) \<and>
    wires out = [(if tr_cmd (CurrentTransfer c) \<noteq> CMD_STAT then ''226 Transfer complete.'' else ''213 End of status'') @ CRLF]"
proof -
  let ?t = "CurrentTransfer c"
  obtain n i m' where m: "m = (n, i) # m'" using assms(8) by (cases m) auto
  have f: "FindFirst (redis e) dir db = Ret (Some (info st n), Some m', db)"
    using assms(5-7,9) FindNext_Cons m by (simp add: FindFirst_def outcome_simps)
  have nm: "fi_name (info st n) = n" by (simp add: info_def split: option.splits)
  have "listable (redis e) (szPath ?t) st db m'" using assms(4,9) m by (simp add: listable_def)
  from list_loop_all[OF this, of "info st n" "[]" ss] assms(10-12) m nm obtain out buf' ss' where
    l: "list_loop e ?t (info st n) (Some m') [] ss db = Ret (out, buf', ss', db)"
    "out @ buf' = concat (map (\<lambda>(n, _). text_of e ?t (info st n)) m)"
    "length buf' < list_cap e" "\<forall>k\<in>set ss'. int (list_cap e) \<le> k" by auto
  have "list_data e c ss db = Ret (concat (map (\<lambda>(n, _). text_of e ?t (info st n)) m), db)"
    using flush_all[OF l(3,4)] l(1,2) f assms(1-4) by (simp add: list_data_def Let_def outcome_simps)
  then show ?thesis
    by (auto simp: run_ListThread_def Let_def outcome_simps end_transfer_def ResetDataConnection_def)
qed

text \<open>The root of the example, with \<open>NLST\<close>: the names \<open>d\<close> and \<open>f\<close> without a separator.\<close>

definition demo_lister :: client where
  "demo_lister = (demo_client 63)\<lparr>CurrentTransfer := zero_transfer\<lparr>tr_cmd := CMD_NLST, szPath := ''/'',
     tr_st := Some \<lparr>st_mode = 16895, st_size = 4096, st_uid = 1, st_gid = 1, st_mtime = 0\<rparr>\<rparr>\<rparr>"

definition demo_stat :: "string \<Rightarrow> stat_buf option" where
  "demo_stat n = (if n = ''d'' then Some (attributes [''st_mode'' \<mapsto> fmt_u 16895])
     else if n = ''f'' then Some (attributes [''st_mode'' \<mapsto> fmt_u 33279]) else None)"

lemma demo_opendir: "opendir mem_redis ''/'' demo = Ret (Some [(''.foo'', - 1), (''d'', 1), (''f'', 2)], demo)"
proof -
  obtain m where m: "strict_keys m"
    "map_of m = (\<lambda>n. Option.bind (hashes (mem_view demo) (dirent_key 0) n) lexical_ll)"
    "opendir mem_redis (canonical []) demo = Ret (if hashes (mem_view demo) (dirent_key 0) = Map.empty then None else Some m, demo)"
    by (rule mem.opendir_found[OF demo_usable tree_ok_castable[OF demo_tree] _ demo_walks(1)]) simp_all
  have "map_of m = map_of [(''.foo'', - 1), (''d'', 1), (''f'', 2)]"
    unfolding m(2) by (auto simp: fun_eq_iff demo_hashes lexical_ll_fmt_u)
  moreover have "strict_keys [(''.foo'', - 1 :: int), (''d'', 1), (''f'', 2)]"
    by (simp add: strict_keys_def less_char_def)
  ultimately have "m = [(''.foo'', - 1), (''d'', 1), (''f'', 2)]" using strict_keys_unique[OF m(1)] by blast
  then show ?thesis using m(3) by (simp add: demo_hashes)
qed

lemma demo_listable: "listable mem_redis ''/'' demo_stat demo [(''.foo'', - 1), (''d'', 1), (''f'', 2)]"
proof -
  note cast = tree_ok_castable[OF demo_tree]
  have "walk (hashes (mem_view demo)) 0 [''.foo''] = Found (- 1)" by (simp add: demo_hashes next_fid_def)
  then have "lookup_fid mem_redis (canonical [''.foo'']) demo = Ret (- 1, demo)"
    using mem.lookup_canonical[OF demo_usable cast, of "[''.foo'']"]
    by (simp add: mem.found_fid_def plain_def del: walk.simps)
  then have "vfs_stat mem_redis ''/.foo'' demo = Ret (None, demo)" by (simp add: vfs_stat_def outcome_simps)
  moreover have "vfs_stat mem_redis ''/d'' demo = Ret (demo_stat ''d'', demo)"
    using mem.stat_found[OF demo_usable cast _ demo_walks(2)] demo_plain by (simp add: demo_hashes demo_stat_def)
  moreover have "vfs_stat mem_redis ''/f'' demo = Ret (demo_stat ''f'', demo)"
    using mem.stat_found[OF demo_usable cast _ demo_walks(3)] demo_plain by (simp add: demo_hashes demo_stat_def)
  ultimately show ?thesis by (simp add: listable_def with_slash_def MAX_PATH_def demo_stat_def)
qed

theorem listing_is_complete_witness:
  "\<exists>c2 out. run_ListThread demo_env demo_lister demo_lister [] demo = Ret (c2, out, ''df'', demo) \<and>
     wires out = [''226 Transfer complete.'' @ CRLF]"
proof -
  let ?t = "CurrentTransfer demo_lister"
  have t: "tr_cmd ?t = CMD_NLST" "\<not> opt_a ?t" "\<not> opt_d ?t" "szPath ?t = ''/''"
    "tr_st ?t = Some \<lparr>st_mode = 16895, st_size = 4096, st_uid = 1, st_gid = 1, st_mtime = 0\<rparr>"
    by (simp_all add: demo_lister_def zero_transfer_def)
  have e: "redis demo_env = mem_redis" "uiTransferBufferSize (config demo_env) = 32768"
    by (simp_all add: demo_env_def demo_config_def)
  have n: "fi_name (info demo_stat x) = x" for x by (simp add: info_def split: option.splits)
  have tx: "text_of demo_env ?t (info demo_stat x) = (if char_at x 0 = CHR ''.'' then [] else x)" for x
    by (simp add: text_of_def entry_text_def n t)
  have o: "opendir (redis demo_env) (with_slash ''/'') demo = Ret (Some [(''.foo'', - 1), (''d'', 1), (''f'', 2)], demo)"
    by (simp add: e with_slash_def demo_opendir)
  have "listable (redis demo_env) ''/'' demo_stat demo [(''.foo'', - 1), (''d'', 1), (''f'', 2)]"
    by (simp add: e demo_listable)
  from listing_is_complete[OF t(5) _ t(3,4) _ _ o _ this]
  show ?thesis by (simp add: S_ISDIR_def with_slash_def MAX_PATH_def e tx t char_at_def)
qed

text \<open>A line of more than two buffers makes the listing write past the buffer, for every size the
  server is configured with: the minimum that the documentation of \<open>SetTransferBufferSize\<close> names is
  not checked.\<close>

theorem small_list_buffer_overflows:
  assumes "0 < cap" and "2 * cap < length line"
  shows "AddToListBuffer cap line [] [] = Crash OutOfBounds"
  using assms by (simp add: AddToListBuffer_def Let_def os_count_def)

theorem small_list_buffer_overflows_witness:
  "AddToListBuffer 2 ''drwx-'' [] [] = Crash OutOfBounds"
  using small_list_buffer_overflows[of 2 "''drwx-''"] by simp

end
