(* ===== verification/Concurrency.thy ===== *)
theory Concurrency
  imports VfsProps
begin

text \<open>
  Several clients on one database. Each client and each transfer thread has a connection of its own, and
  an operation of the virtual file system is a plan, made of lookups and of the counter, and one
  transaction, which Redis runs as a whole. Between the plan of an operation and its transaction the
  others go on; a step here is a new file id, a plan, or a transaction, of any client.
\<close>

section \<open>Plans\<close>

text \<open>The writes of an operation; \<open>None\<close> when it fails without writing.\<close>

datatype vfs_op =
    OpMkdir (op_now: int) (op_path: string) (op_uid: int) (op_gid: int)
  | OpRmdir (op_path: string)
  | OpRename (op_path: string) (op_new: string)
  | OpRemove (op_path: string)
  | is_OpSave: OpSave (op_now: int) (op_path: string) (op_size: int) (op_uid: int) (op_gid: int) (op_fid: int) (op_slave: slave_info)

definition with_parent :: "'db redis \<Rightarrow> string \<Rightarrow> (int \<Rightarrow> rcmd list) \<Rightarrow> 'db \<Rightarrow> (rcmd list option \<times> 'db) outcome" where
  "with_parent R path ws db = and_then (lookup_fid R (parentpath path) db) (\<lambda>(p, db1).
     Ret (if p < 0 then None else Some (ws p), db1))"

definition vfs_plan :: "'db redis \<Rightarrow> vfs_op \<Rightarrow> 'db \<Rightarrow> (rcmd list option \<times> 'db) outcome" where
  "vfs_plan R op db = (case op of
      OpMkdir now path uid gid \<Rightarrow> and_then (get_new_fid R db) (\<lambda>(f, db1).
        with_parent R path (\<lambda>p. mkdir_writes f p (entry_name path) uid gid now) db1)
    | OpRmdir path \<Rightarrow> and_then (lookup_fid R path db) (\<lambda>(f, db1).
        if f < 0 then Ret (None, db1)
        else and_then (query R (HLEN (dirent_key f)) db1) (\<lambda>(r, db2).
          if reply_integer r = 0
          then with_parent R path (\<lambda>p. [HDEL (dirent_key p) (entry_name path), DEL (stat_key f), DEL (diren_key f)]) db2
          else Ret (None, db2)))
    | OpRename path newpath \<Rightarrow> and_then (lookup_fid R path db) (\<lambda>(f, db1).
        if f < 0 then Ret (None, db1)
        else and_then (lookup_fid R (parentpath path) db1) (\<lambda>(p, db2).
          if p < 0 then Ret (None, db2)
          else with_parent R path (\<lambda>q. [HDEL (dirent_key p) (entry_name path),
            HSET (dirent_key q) (entry_name newpath) (fmt_u f)]) db2))
    | OpRemove path \<Rightarrow> and_then (lookup_fid R path db) (\<lambda>(f, db1).
        if f < 0 then Ret (None, db1)
        else with_parent R path (\<lambda>p. [HDEL (dirent_key p) (entry_name path), DEL (stat_key f)]) db1)
    | OpSave now path sz uid gid f slave \<Rightarrow> and_then (lookup_fid R (parentpath path) db) (\<lambda>(p, db1).
        if p < 0 then Ret (None, db1)
        else (case si_port slave of
            None \<Rightarrow> Crash Uninitialised
          | Some port \<Rightarrow> Ret (Some (save_writes f p (entry_name path) sz uid gid now (si_host slave) port), db1))))"

text \<open>The operations as the code runs them, for one client alone.\<close>

definition vfs_run :: "'db redis \<Rightarrow> vfs_op \<Rightarrow> 'db \<Rightarrow> (int \<times> 'db) outcome" where
  "vfs_run R op db = (case op of
      OpMkdir now path uid gid \<Rightarrow> vfs_mkdir R now path 511 uid gid db
    | OpRmdir path \<Rightarrow> vfs_rmdir R path db
    | OpRename path newpath \<Rightarrow> vfs_rename R path newpath db
    | OpRemove path \<Rightarrow> vfs_remove R path db
    | OpSave now path sz uid gid f slave \<Rightarrow> save_new_file R now path 511 sz uid gid f slave db)"

definition finish_op :: "'db redis \<Rightarrow> rcmd list option \<times> 'db \<Rightarrow> int \<times> 'db" where
  "finish_op R = (\<lambda>(w, db). case w of None \<Rightarrow> (- 1, db) | Some ws \<Rightarrow> commit R ws db)"

lemma finish_op_simps [simp]:
  "finish_op R (None, db) = (- 1, db)" "finish_op R (Some ws, db) = commit R ws db"
  by (simp_all add: finish_op_def)

lemma and_then_cong2: "m = m' \<Longrightarrow> (\<And>x. f x = g x) \<Longrightarrow> and_then m f = and_then m' g"
  by (cases m') auto

lemma and_then_RetE:
  assumes "and_then m f = Ret y"
  obtains x where "m = Ret x" "f x = Ret y"
  using assms by (auto simp: and_then_eq_Ret)

lemma run_is_plan_and_commit: "vfs_run R op db = and_then (vfs_plan R op db) (\<lambda>x. Ret (finish_op R x))"
proof -
  have "and_then (with_parent R path ws d) (\<lambda>x. Ret (finish_op R x)) =
      and_then (lookup_fid R (parentpath path) d) (\<lambda>(p, d1). if p < 0 then Ret (- 1, d1) else Ret (commit R (ws p) d1))"
    for path ws and d :: 'a
    unfolding with_parent_def and_then_assoc
    by (rule and_then_cong2) (auto simp: finish_op_def outcome_simps split: prod.splits)
  note w = this
  show ?thesis
  proof (cases op)
    case (OpMkdir now path uid gid)
    then show ?thesis
      by (auto simp: vfs_run_def vfs_plan_def vfs_mkdir_def and_then_assoc w split_beta intro!: and_then_cong2)
  next
    case (OpRmdir path)
    then show ?thesis
      by (auto simp: vfs_run_def vfs_plan_def vfs_rmdir_def and_then_assoc w split_beta outcome_simps
          intro!: and_then_cong2)
  next
    case (OpRename path newpath)
    then show ?thesis
      by (auto simp: vfs_run_def vfs_plan_def vfs_rename_def and_then_assoc w split_beta outcome_simps
          intro!: and_then_cong2)
  next
    case (OpRemove path)
    then show ?thesis
      by (auto simp: vfs_run_def vfs_plan_def vfs_remove_def and_then_assoc w split_beta outcome_simps
          intro!: and_then_cong2)
  next
    case (OpSave now path sz uid gid f slave)
    then show ?thesis
      by (auto simp: vfs_run_def vfs_plan_def save_new_file_def and_then_assoc split_beta outcome_simps
          intro!: and_then_cong2 split: option.splits)
  qed
qed

section \<open>Interleaved clients\<close>

text \<open>
  The database, the writes of the operations that are planned but not committed, and the file ids that
  uploads have taken before they are recorded. A step is taken while the counter of file ids is
  below its limit (see \<open>tree_ok\<close>).
\<close>

record 'db shared =
  sdb :: 'db
  planned :: "nat \<rightharpoonup> rcmd list"
  upload :: "nat \<rightharpoonup> int"

inductive vfs_step :: "'db redis \<Rightarrow> ('db \<Rightarrow> rview) \<Rightarrow> 'db shared \<Rightarrow> 'db shared \<Rightarrow> bool" for R view where
  NewFile: "upload s i = None \<Longrightarrow> fids (view (sdb s)) + 1 < 2 ^ 31 \<Longrightarrow> get_new_fid R (sdb s) = Ret (f, db') \<Longrightarrow>
    vfs_step R view s (s\<lparr>sdb := db', upload := (upload s)(i \<mapsto> f)\<rparr>)"
| Plan: "planned s i = None \<Longrightarrow> fids (view (sdb s)) + 1 < 2 ^ 31 \<Longrightarrow> is_OpSave op \<longrightarrow> upload s i = Some (op_fid op) \<Longrightarrow>
    vfs_plan R op (sdb s) = Ret (w, db') \<Longrightarrow>
    vfs_step R view s (s\<lparr>sdb := db', planned := (planned s)(i := w)\<rparr>)"
| Commit: "planned s i = Some ws \<Longrightarrow> commit R ws (sdb s) = (r, db') \<Longrightarrow>
    vfs_step R view s (s\<lparr>sdb := db', planned := (planned s)(i := None)\<rparr>)"

inductive_cases vfs_stepE: "vfs_step R view s s'"

definition start :: "'db \<Rightarrow> 'db shared" where
  "start db = \<lparr>sdb = db, planned = Map.empty, upload = Map.empty\<rparr>"

definition safe_writes :: "int \<Rightarrow> rcmd list \<Rightarrow> bool" where
  "safe_writes c ws \<longleftrightarrow> (\<forall>x\<in>set ws. is_write x \<and> safe_write c x)"

lemma safe_writes_mono: "safe_writes c ws \<Longrightarrow> c \<le> d \<Longrightarrow> safe_writes d ws"
proof -
  have "safe_write c x \<Longrightarrow> c \<le> d \<Longrightarrow> safe_write d x" for x
    by (cases x) (auto simp: safe_write.simps(1) dest: entry_ok_mono)
  then show "safe_writes c ws \<Longrightarrow> c \<le> d \<Longrightarrow> safe_writes d ws" by (auto simp: safe_writes_def)
qed

context redis_server
begin

definition shared_ok :: "'db shared \<Rightarrow> bool" where
  "shared_ok s \<longleftrightarrow> idle (sdb s) \<and> tree_ok (view (sdb s)) \<and>
     (\<forall>i ws. planned s i = Some ws \<longrightarrow> safe_writes (fids (view (sdb s))) ws) \<and>
     (\<forall>i f. upload s i = Some f \<longrightarrow> 0 \<le> f \<and> f \<le> fids (view (sdb s))) \<and> inj_on (upload s) (dom (upload s))"

text \<open>What a plan does to the database: at most the counter grows, and the writes are safe.\<close>

definition planned_ok :: "'db \<Rightarrow> rcmd list option \<times> 'db \<Rightarrow> bool" where
  "planned_ok db = (\<lambda>(w, db'). idle db' \<and> tree_ok (view db') \<and> fids (view db) \<le> fids (view db') \<and>
     (case w of None \<Rightarrow> True | Some ws \<Rightarrow> safe_writes (fids (view db')) ws))"

lemma parent_planned:
  assumes "idle db1" and "tree_ok (view db1)" and "fids (view db) \<le> fids (view db1)"
    and "with_parent R path ws db1 = Ret x"
    and "\<And>p. 0 \<le> p \<Longrightarrow> p \<le> fids (view db1) \<Longrightarrow> safe_writes (fids (view db1)) (ws p)"
  shows "planned_ok db x"
proof -
  from assms(4) obtain p db2 where p: "lookup_fid R (parentpath path) db1 = Ret (p, db2)"
    "x = (if p < 0 then None else Some (ws p), db2)" by (auto simp: with_parent_def and_then_eq_Ret)
  from lookup_any[OF assms(1,2) p(1)] assms p(2) show ?thesis by (auto simp: planned_ok_def)
qed

lemma plan_ok:
  assumes "idle db" and "tree_ok (view db)" and "fids (view db) + 1 < 2 ^ 31"
    and "is_OpSave op \<longrightarrow> 0 \<le> op_fid op \<and> op_fid op \<le> fids (view db)" and "vfs_plan R op db = Ret x"
  shows "planned_ok db x"
proof -
  have c: "0 \<le> fids (view db)" using assms(2) by (simp add: tree_ok_def)
  have e: "entry_ok (fids (view db)) (fmt_u f)" if "0 \<le> f" "f \<le> fids (view db)" for f
    using that assms(3) by (intro entry_ok_fmt_u) auto
  have refl: "planned_ok db (None, db)" using assms(1,2) by (simp add: planned_ok_def)
  note found = lookup_any[OF assms(1,2)]
  note par = parent_planned[OF assms(1,2) order_refl]
  show ?thesis
  proof (cases op)
    case (OpMkdir now path uid gid)
    obtain db1 where 1: "get_new_fid R db = Ret (fids (view db) + 1, db1)" "idle db1"
      "view db1 = (view db)\<lparr>counters := (counters (view db))(''fid_counter'' := fids (view db) + 1)\<rparr>"
      by (rule new_fid[OF assms(1)])
    have f: "fids (view db1) = fids (view db) + 1" by (simp add: 1(3) fids_def)
    have t: "tree_ok (view db1)" unfolding 1(3) by (rule tree_ok_count[OF assms(2,3)])
    have "entry_ok (fids (view db1)) (fmt_u (fids (view db1)))" "entry_ok (fids (view db1)) ''-1''"
      using assms(3) f c by (auto intro: entry_ok_fmt_u) (simp add: entry_ok_def)
    then have "safe_writes (fids (view db1)) (mkdir_writes (fids (view db1)) p (entry_name path) uid gid now)"
      if "0 \<le> p" "p \<le> fids (view db1)" for p
      using that c f by (simp add: safe_writes_def mkdir_writes_def safe_write_dirent safe_write_stat)
    with parent_planned[OF 1(2) t] assms(5) show ?thesis by (simp add: OpMkdir vfs_plan_def 1(1) f outcome_simps)
  next
    case (OpRmdir path)
    with assms(5) refl show ?thesis
      by (auto simp: vfs_plan_def and_then_eq_Ret query_hlen[OF assms(1)] safe_writes_def
          split: if_splits dest!: found intro: par)
  next
    case (OpRename path newpath)
    then have "and_then (lookup_fid R path db) (\<lambda>(f, db1). if f < 0 then Ret (None, db1)
        else and_then (lookup_fid R (parentpath path) db1) (\<lambda>(p, db2). if p < 0 then Ret (None, db2)
          else with_parent R path (\<lambda>q. [HDEL (dirent_key p) (entry_name path),
            HSET (dirent_key q) (entry_name newpath) (fmt_u f)]) db2)) = Ret x"
      using assms(5) by (simp add: vfs_plan_def)
    then obtain z where z: "lookup_fid R path db = Ret z"
      "(\<lambda>(f, db1). if f < 0 then Ret (None, db1)
        else and_then (lookup_fid R (parentpath path) db1) (\<lambda>(p, db2). if p < 0 then Ret (None, db2)
          else with_parent R path (\<lambda>q. [HDEL (dirent_key p) (entry_name path),
            HSET (dirent_key q) (entry_name newpath) (fmt_u f)]) db2)) z = Ret x"
      by (rule and_then_RetE)
    obtain f where f1: "z = (f, db)" "f \<le> fids (view db)" using found[of path "fst z" "snd z"] z(1) by (cases z) auto
    show ?thesis
    proof (cases "f < 0")
      case True
      with z(2) f1 refl show ?thesis by simp
    next
      case False
      with z(2) f1(1) have "and_then (lookup_fid R (parentpath path) db) (\<lambda>(p, db2). if p < 0 then Ret (None, db2)
          else with_parent R path (\<lambda>q. [HDEL (dirent_key p) (entry_name path),
            HSET (dirent_key q) (entry_name newpath) (fmt_u f)]) db2) = Ret x" by simp
      then obtain y where y: "lookup_fid R (parentpath path) db = Ret y"
        "(\<lambda>(p, db2). if p < 0 then Ret (None, db2)
          else with_parent R path (\<lambda>q. [HDEL (dirent_key p) (entry_name path),
            HSET (dirent_key q) (entry_name newpath) (fmt_u f)]) db2) y = Ret x"
        by (rule and_then_RetE)
      obtain p where p1: "y = (p, db)" using found[of "parentpath path" "fst y" "snd y"] y(1) by (cases y) auto
      note p = y(2)[unfolded p1, simplified]
      show ?thesis
      proof (cases "p < 0")
        case True
        with p refl show ?thesis by simp
      next
        case ge: False
        show ?thesis
        proof (rule par)
          show "with_parent R path (\<lambda>q. [HDEL (dirent_key p) (entry_name path),
            HSET (dirent_key q) (entry_name newpath) (fmt_u f)]) db = Ret x" using ge p by simp
        qed (use e[of f] f1(2) False in \<open>simp add: safe_writes_def safe_write_dirent\<close>)
      qed
    qed
  next
    case (OpRemove path)
    with assms(5) refl show ?thesis
      by (auto simp: vfs_plan_def and_then_eq_Ret safe_writes_def split: if_splits dest!: found intro: par)
  next
    case (OpSave now path sz uid gid f slave)
    with assms(4) have f: "0 \<le> f" "f \<le> fids (view db)" by simp_all
    with OpSave assms(1,2,5) refl e show ?thesis
      by (auto simp: vfs_plan_def and_then_eq_Ret safe_writes_def save_writes_def safe_write_dirent safe_write_stat
          planned_ok_def split: if_splits option.splits dest!: found)
  qed
qed

lemma shared_ok_step:
  assumes "shared_ok s" and "vfs_step R view s s'"
  shows "shared_ok s'"
  using assms(2)
proof (cases rule: vfs_step.cases)
  case (NewFile i f db')
  from assms(1) have s: "idle (sdb s)" "tree_ok (view (sdb s))" by (simp_all add: shared_ok_def)
  obtain db1 where 1: "get_new_fid R (sdb s) = Ret (fids (view (sdb s)) + 1, db1)" "idle db1"
      "view db1 = (view (sdb s))\<lparr>counters := (counters (view (sdb s)))(''fid_counter'' := fids (view (sdb s)) + 1)\<rparr>"
    by (rule new_fid[OF s(1)])
  have f: "fids (view db1) = fids (view (sdb s)) + 1" by (simp add: 1(3) fids_def)
  have t: "tree_ok (view db1)" unfolding 1(3) by (rule tree_ok_count[OF s(2) NewFile(3)])
  have "0 \<le> fids (view (sdb s))" using s(2) by (simp add: tree_ok_def)
  then show ?thesis using assms(1) NewFile 1(1,2) f t
    by (fastforce simp: shared_ok_def inj_on_def split: if_splits intro: safe_writes_mono)
next
  case (Plan i op w db')
  from assms(1) Plan have "planned_ok (sdb s) (w, db')"
    by (intro plan_ok[of "sdb s" op]) (auto simp: shared_ok_def)
  with assms(1) Plan show ?thesis
    by (fastforce simp: shared_ok_def planned_ok_def split: if_splits option.splits intro: safe_writes_mono)
next
  case (Commit i ws r db')
  from assms(1) Commit(2) have s: "idle (sdb s)" "tree_ok (view (sdb s))" "safe_writes (fids (view (sdb s))) ws"
    by (simp_all add: shared_ok_def)
  obtain db2 where "commit R ws (sdb s) = (0, db2)" "idle db2"
    "view db2 = (view (sdb s))\<lparr>hashes := apply_writes ws (hs (sdb s))\<rparr>"
    using commit_idle[OF s(1), of ws] s(3) by (auto simp: safe_writes_def)
  moreover have "tree_ok (view db2)"
    using calculation tree_ok_writes[OF s(2), of ws] s(3) by (simp add: safe_writes_def)
  ultimately show ?thesis using assms(1) Commit by (auto simp: shared_ok_def fids_def split: if_splits)
qed

lemma shared_ok_reachable:
  assumes "(vfs_step R view)\<^sup>*\<^sup>* s s'" and "shared_ok s"
  shows "shared_ok s'"
  using assms by (induction rule: rtranclp_induct) (auto intro: shared_ok_step)

lemma mkdir_plan:
  assumes "idle db" and "castable (hs db)" and "\<forall>s\<in>set ts. plain s" and "plain t"
    and "walk (hs db) 0 ts = Found p" and "0 \<le> p"
  obtains db' where "vfs_plan R (OpMkdir now (canonical (ts @ [t])) uid gid) db =
      Ret (Some (mkdir_writes (fids (view db) + 1) p t uid gid now), db')" "idle db'"
    "view db' = (view db)\<lparr>counters := (counters (view db))(''fid_counter'' := fids (view db) + 1)\<rparr>"
proof -
  obtain db1 where 1: "get_new_fid R db = Ret (fids (view db) + 1, db1)" "idle db1"
    "view db1 = (view db)\<lparr>counters := (counters (view db))(''fid_counter'' := fids (view db) + 1)\<rparr>"
    by (rule new_fid[OF assms(1)])
  have "lookup_fid R (parentpath (canonical (ts @ [t]))) db1 = found_fid db1 (Found p)"
    using lookup_parent(1)[OF 1(2) _ assms(3,4)] assms(2,5) by (simp add: 1(3))
  with 1 assms(4,6) show thesis
    by (intro that[of db1]) (simp_all add: vfs_plan_def with_parent_def found_fid_def parent_entry outcome_simps)
qed

lemma lookup_casts:
  assumes "idle db" and "tree_ok (view db)"
  shows "lookup_fid R path db \<noteq> Crash BadCast"
  by (rule lookup_fid_cases[OF assms(1) tree_ok_castable[OF assms(2)], of path])
    (auto simp: found_fid_def split: found.splits)

lemma planned_commits:
  assumes "shared_ok s" and "planned s i = Some ws"
  shows "fst (commit R ws (sdb s)) = 0"
proof -
  have "idle (sdb s)" "\<forall>x\<in>set ws. is_write x" using assms by (auto simp: shared_ok_def safe_writes_def)
  then obtain db' where "commit R ws (sdb s) = (0, db')" by (rule commit_idle)
  then show ?thesis by simp
qed

end

text \<open>A file id that no directory entry names cannot be reached.\<close>

lemma walk_last_entry:
  "walk h f us = Found g \<Longrightarrow> us \<noteq> [] \<Longrightarrow> \<exists>d n s. h (dirent_key d) n = Some s \<and> next_fid s = g"
proof (induction us arbitrary: f)
  case (Cons t us)
  then obtain s where s: "h (dirent_key f) t = Some s" "walk h (next_fid s) us = Found g"
    by (auto split: if_splits option.splits)
  show ?case
  proof (cases "us = []")
    case True
    with s show ?thesis by auto
  next
    case False
    with Cons.IH[OF s(2)] show ?thesis by blast
  qed
qed simp

lemma entry_twice:
  assumes "H = h(a := (h a)(t \<mapsto> x), b1 := P, s1 := A)" and "b1 \<noteq> a" and "s1 \<noteq> a"
  shows "H(a := (H a)(t \<mapsto> y), b2 := Q, s2 := B) = h(a := (h a)(t \<mapsto> y), b1 := P, s1 := A, b2 := Q, s2 := B)"
  using assms(2,3) by (auto simp: assms(1) fun_eq_iff)

text \<open>The tree after both transactions of two clients that make the same directory.\<close>

lemma after_two_mkdirs:
  assumes "tree_ok v" and "fids v + 2 < 2 ^ 31" and "0 \<le> p" and "p \<le> fids v"
  obtains A B where "apply_writes (mkdir_writes (fids v + 2) p t uid2 gid2 now2)
      (apply_writes (mkdir_writes (fids v + 1) p t uid1 gid1 now1) (hashes v)) =
    (hashes v)(dirent_key p := (hashes v (dirent_key p))(t \<mapsto> fmt_u (fids v + 2)),
      dirent_key (fids v + 1) := [''.placeholder'' \<mapsto> ''-1''], stat_key (fids v + 1) := A,
      dirent_key (fids v + 2) := [''.placeholder'' \<mapsto> ''-1''], stat_key (fids v + 2) := B)"
    "A ''st_mode'' = Some (fmt_u 16895)"
proof -
  let ?c = "fids v" and ?h = "hashes v"
  let ?h1 = "apply_writes (mkdir_writes (?c + 1) p t uid1 gid1 now1) ?h"
  have c: "0 \<le> ?c" "fresh v (?c + 1)" "fresh v (?c + 2)" using assms by (simp_all add: tree_ok_def)
  obtain A where h1: "?h1 = ?h(dirent_key p := (?h (dirent_key p))(t \<mapsto> fmt_u (?c + 1)),
      dirent_key (?c + 1) := [''.placeholder'' \<mapsto> ''-1''], stat_key (?c + 1) := A)"
    and A: "A ''st_mode'' = Some (fmt_u 16895)"
    using apply_mkdir[of p "?c + 1" ?h t uid1 gid1 now1] c assms(2-) by (simp add: fresh_def)
  have ne: "dirent_key (?c + 2) \<noteq> dirent_key (?c + 1)" "dirent_key (?c + 2) \<noteq> dirent_key p"
    "stat_key (?c + 2) \<noteq> stat_key (?c + 1)" "dirent_key (?c + 1) \<noteq> dirent_key p"
    using c(1) assms(2-) by (simp_all add: small_mod)
  then have "?h1 (dirent_key (?c + 2)) = Map.empty" "?h1 (stat_key (?c + 2)) = Map.empty"
    using c(3) by (subst h1, simp add: fresh_def)+
  from apply_mkdir[OF assms(3) _ assms(2) this, of t uid2 gid2 now2] assms(4)
  have "apply_writes (mkdir_writes (?c + 2) p t uid2 gid2 now2) ?h1 =
    ?h1(dirent_key p := (?h1 (dirent_key p))(t \<mapsto> fmt_u (?c + 2)),
      dirent_key (?c + 2) := [''.placeholder'' \<mapsto> ''-1''],
      stat_key (?c + 2) := [''st_size'' \<mapsto> fmt_u 4096, ''st_mode'' \<mapsto> fmt_u 16895, ''st_uid'' \<mapsto> fmt_u uid2,
        ''st_gid'' \<mapsto> fmt_u gid2, ''st_mtime'' \<mapsto> fmt_u now2])" by simp
  also note entry_twice[OF h1 ne(4)]
  finally show thesis using A by (rule that) (simp_all add: small_mod)
qed

section \<open>The properties\<close>



text \<open>C37: Two clients that make the same directory at once: when the second plans before the first has
  committed, both are told that it worked, the path is the directory of the one that commits last, and
  the directory of the other is lost: its attributes and its placeholder stay in the database, and no
  path leads to it.\<close>

theorem racing_mkdirs:
  assumes "redis_server R view live" and "usable view live db" and "tree_ok (view db)"
    and "fids (view db) + 2 < 2 ^ 31" and "\<forall>s\<in>set ts. plain s" and "plain t"
    and "walk (hashes (view db)) 0 ts = Found p" and "0 \<le> p" and "off_path (hashes (view db)) ts p"
  shows "\<exists>w1 w2 db1 db2 db3 db4.
    vfs_plan R (OpMkdir now1 (canonical (ts @ [t])) uid1 gid1) db = Ret (Some w1, db1) \<and>
    vfs_plan R (OpMkdir now2 (canonical (ts @ [t])) uid2 gid2) db1 = Ret (Some w2, db2) \<and>
    commit R w1 db2 = (0, db3) \<and> commit R w2 db3 = (0, db4) \<and>
    lookup_fid R (canonical (ts @ [t])) db4 = Ret (fids (view db) + 2, db4) \<and>
    hashes (view db4) (stat_key (fids (view db) + 1)) ''st_mode'' = Some (fmt_u 16895) \<and>
    (\<forall>us. walk (hashes (view db4)) 0 us \<noteq> Found (fids (view db) + 1))"
proof -
  let ?c = "fids (view db)" and ?h = "hashes (view db)" and ?path = "canonical (ts @ [t])"
  note srv = assms(1) and cast = tree_ok_castable[OF assms(3)]
  let ?w1 = "mkdir_writes (?c + 1) p t uid1 gid1 now1" and ?w2 = "mkdir_writes (?c + 2) p t uid2 gid2 now2"
  obtain db1 where 1: "vfs_plan R (OpMkdir now1 ?path uid1 gid1) db = Ret (Some ?w1, db1)" "usable view live db1"
    "view db1 = (view db)\<lparr>counters := (counters (view db))(''fid_counter'' := ?c + 1)\<rparr>"
    by (rule redis_server.mkdir_plan[OF srv assms(2) cast assms(5-8)])
  have c1: "fids (view db1) = ?c + 1" by (simp add: 1(3) fids_def)
  have "castable (hashes (view db1))" "walk (hashes (view db1)) 0 ts = Found p" using cast assms(7) by (simp_all add: 1(3))
  then obtain db2 where 2: "vfs_plan R (OpMkdir now2 ?path uid2 gid2) db1 = Ret (Some ?w2, db2)" "usable view live db2"
    "view db2 = (view db1)\<lparr>counters := (counters (view db1))(''fid_counter'' := ?c + 2)\<rparr>"
    using redis_server.mkdir_plan[OF srv 1(2) _ assms(5,6) _ assms(8), of now2 uid2 gid2 thesis]
    by (simp add: c1 add.assoc)
  have w: "\<forall>x\<in>set ?w1. is_write x" "\<forall>x\<in>set ?w2. is_write x" by (simp_all add: mkdir_writes_def)
  obtain db3 where 3: "commit R ?w1 db2 = (0, db3)" "usable view live db3"
    "view db3 = (view db2)\<lparr>hashes := apply_writes ?w1 (hashes (view db2))\<rparr>"
    by (rule redis_server.commit_idle[OF srv 2(2) w(1)])
  obtain db4 where 4: "commit R ?w2 db3 = (0, db4)" "usable view live db4"
    "view db4 = (view db3)\<lparr>hashes := apply_writes ?w2 (hashes (view db3))\<rparr>"
    by (rule redis_server.commit_idle[OF srv 3(2) w(2)])
  let ?h4 = "hashes (view db4)"
  have c: "0 \<le> ?c" "p \<le> ?c" "fresh (view db) (?c + 1)" "fresh (view db) (?c + 2)"
    using walk_root_in_range[OF assms(3,7)] assms(3,4) by (simp_all add: tree_ok_def)
  have "?h4 = apply_writes ?w2 (apply_writes ?w1 ?h)" by (simp add: 1(3) 2(3) 3(3) 4(3))
  with after_two_mkdirs[OF assms(3,4,8) c(2)] obtain A B where
    h4: "?h4 = ?h(dirent_key p := (?h (dirent_key p))(t \<mapsto> fmt_u (?c + 2)),
      dirent_key (?c + 1) := [''.placeholder'' \<mapsto> ''-1''], stat_key (?c + 1) := A,
      dirent_key (?c + 2) := [''.placeholder'' \<mapsto> ''-1''], stat_key (?c + 2) := B)"
    and A: "A ''st_mode'' = Some (fmt_u 16895)" by metis
  have "stat_key (?c + 1) \<noteq> stat_key (?c + 2)" using c(1) assms(4) by (simp add: small_mod)
  then have st: "?h4 (stat_key (?c + 1)) ''st_mode'' = Some (fmt_u 16895)" using A by (subst h4) simp
  have same: "d mod 2 ^ 32 = p mod 2 ^ 32 \<Longrightarrow> ?h (dirent_key d) = ?h (dirent_key p)" for d
    by (metis key_inject(1))
  have entry: "s = ''-1'' \<or> s = fmt_u (?c + 2) \<or> ?h (dirent_key d) n = Some s"
    if "?h4 (dirent_key d) n = Some s" for d n s
    using that same[of d] by (subst (asm) h4) (auto split: if_splits)
  have "castable ?h4" using entry cast by (auto simp: castable_def lexical_ll_fmt_u dest!: entry)
  moreover have "walk ?h4 0 (ts @ [t]) = Found (?c + 2)"
  proof -
    have "walk ?h4 0 ts = Found p"
    proof (rule walk_kept[OF assms(7,9)])
      fix g assume g: "g mod 2 ^ 32 \<noteq> p mod 2 ^ 32" "?h (dirent_key g) \<noteq> Map.empty"
      have "?h (dirent_key (?c + 1)) = Map.empty" "?h (dirent_key (?c + 2)) = Map.empty" using c by (simp_all add: fresh_def)
      with g(2) have "dirent_key g \<noteq> dirent_key (?c + 1)" "dirent_key g \<noteq> dirent_key (?c + 2)" by metis+
      with g(1) show "?h4 (dirent_key g) = ?h (dirent_key g)" by (subst h4) simp
    qed
    moreover have "?h4 (dirent_key p) t = Some (fmt_u (?c + 2))" using c assms(4,8) by (subst h4) (simp add: small_mod)
    moreover have "0 \<le> ?c + 2" using c(1) by simp
    ultimately show ?thesis using walk_to_entry[of ?h4 ts p t] next_fid_fmt_u[of "?c + 2"] assms(4) by simp
  qed
  moreover have "\<forall>s\<in>set (ts @ [t]). plain s" using assms(5,6) by simp
  ultimately have "lookup_fid R ?path db4 = Ret (?c + 2, db4)"
    using redis_server.lookup_canonical[OF srv 4(2)] by (simp add: redis_server.found_fid_def[OF srv])
  moreover have "walk ?h4 0 us \<noteq> Found (?c + 1)" for us
  proof
    assume w: "walk ?h4 0 us = Found (?c + 1)"
    with c(1) have "us \<noteq> []" by auto
    from walk_last_entry[OF w this] obtain d n s where s: "?h4 (dirent_key d) n = Some s" "next_fid s = ?c + 1" by blast
    have "0 \<le> ?c + 2" using c(1) by simp
    then have "next_fid (fmt_u (?c + 2)) = ?c + 2" using assms(4) by (rule next_fid_fmt_u)
    moreover have "next_fid ''-1'' = - 1" by (simp add: next_fid_def)
    moreover have "next_fid s \<le> ?c" if "?h (dirent_key d) n = Some s"
      using that assms(3) entry_ok_next[of ?c s] by (auto simp: tree_ok_def)
    ultimately show False using entry[OF s(1)] s(2) c(1) by auto
  qed
  ultimately show ?thesis using 1(1) 2(1) 3(1) 4(1) st by blast
qed

theorem racing_mkdirs_witness:
  "\<exists>db'. lookup_fid mem_redis ''/d/n'' db' = Ret (7, db') \<and>
     hashes (mem_view db') (stat_key 6) ''st_mode'' = Some (fmt_u 16895) \<and>
     (\<forall>us. walk (hashes (mem_view db')) 0 us \<noteq> Found 6)"
proof -
  have "\<forall>s\<in>set [''d'']. plain s" using demo_plain by simp
  from racing_mkdirs[OF mem.redis_server_axioms demo_usable demo_tree _ this demo_plain(3) demo_walks(2) _
      demo_off_path(2), of 7 1 1 8 2 2]
  show ?thesis by (auto simp del: walk.simps)
qed

end
