(* ===== verification/ThriftCalls.thy ===== *)
theory ThriftCalls
  imports ThriftStructs
begin

text \<open>
  A call over the wire: what the client sends is what the handler is called with, what the handler
  returns is what the client gets, for each of the six calls.
\<close>

section \<open>Arguments and results come back\<close>

definition on_struct :: "(int \<Rightarrow> tvalue \<Rightarrow> 'v isset \<Rightarrow> 'v isset) \<Rightarrow> ('a \<Rightarrow> 'v) \<Rightarrow> ('v \<Rightarrow> 'a \<Rightarrow> 'a) \<Rightarrow> int \<Rightarrow> tvalue \<Rightarrow>
    'a isset \<Rightarrow> 'a isset" where
  "on_struct u get upd i v x = (case v of
      VStruct n fs \<Rightarrow> (upd (fst (fold_fields u (get (fst x), {}) fs)) (fst x), insert i (snd x))
    | _ \<Rightarrow> x)"

definition InitPasvDataConnection_upd :: "int \<Rightarrow> tvalue \<Rightarrow> InitPasvDataConnection_args isset \<Rightarrow> InitPasvDataConnection_args isset" where
  "InitPasvDataConnection_upd i =
     (if i = 1 then on_struct pasv_upd ip_p (\<lambda>v a. a\<lparr>ip_p := v\<rparr>) i
      else if i = 2 then on_field as_i32 (\<lambda>v a. a\<lparr>ip_startPort := v\<rparr>) i
      else if i = 3 then on_field as_i16 (\<lambda>v a. a\<lparr>ip_portLen := v\<rparr>) i
      else (\<lambda>v x. x))"

definition OpenPasvDataConnection_upd :: "int \<Rightarrow> tvalue \<Rightarrow> OpenPasvDataConnection_args isset \<Rightarrow> OpenPasvDataConnection_args isset" where
  "OpenPasvDataConnection_upd i =
     (if i = 1 then on_struct pasv_upd op_p (\<lambda>v a. a\<lparr>op_p := v\<rparr>) i
      else (\<lambda>v x. x))"

definition ActiveStoreTransfer_upd :: "int \<Rightarrow> tvalue \<Rightarrow> ActiveStoreTransfer_args isset \<Rightarrow> ActiveStoreTransfer_args isset" where
  "ActiveStoreTransfer_upd i =
     (if i = 1 then on_struct active_upd as_p (\<lambda>v a. a\<lparr>as_p := v\<rparr>) i
      else if i = 2 then on_field as_i32 (\<lambda>v a. a\<lparr>as_iflags := v\<rparr>) i
      else (\<lambda>v x. x))"

definition PasvStoreTransfer_upd :: "int \<Rightarrow> tvalue \<Rightarrow> PasvStoreTransfer_args isset \<Rightarrow> PasvStoreTransfer_args isset" where
  "PasvStoreTransfer_upd i =
     (if i = 1 then on_struct pasv_upd ps_p (\<lambda>v a. a\<lparr>ps_p := v\<rparr>) i
      else if i = 2 then on_field as_i32 (\<lambda>v a. a\<lparr>ps_iflags := v\<rparr>) i
      else (\<lambda>v x. x))"

definition ActiveRetrieveTransfer_upd :: "int \<Rightarrow> tvalue \<Rightarrow> ActiveRetrieveTransfer_args isset \<Rightarrow> ActiveRetrieveTransfer_args isset" where
  "ActiveRetrieveTransfer_upd i =
     (if i = 1 then on_struct active_upd ar_p (\<lambda>v a. a\<lparr>ar_p := v\<rparr>) i
      else (\<lambda>v x. x))"

definition PasvRetrieveTransfer_upd :: "int \<Rightarrow> tvalue \<Rightarrow> PasvRetrieveTransfer_args isset \<Rightarrow> PasvRetrieveTransfer_args isset" where
  "PasvRetrieveTransfer_upd i =
     (if i = 1 then on_struct pasv_upd pr_p (\<lambda>v a. a\<lparr>pr_p := v\<rparr>) i
      else (\<lambda>v x. x))"

definition string_upd :: "int \<Rightarrow> tvalue \<Rightarrow> string isset \<Rightarrow> string isset" where
  "string_upd i = (if i = 0 then on_field as_string (\<lambda>v a. v) i else (\<lambda>v x. x))"

definition stor_upd :: "int \<Rightarrow> tvalue \<Rightarrow> StorRetVal isset \<Rightarrow> StorRetVal isset" where
  "stor_upd i = (if i = 0 then on_struct ret_upd id (\<lambda>v a. v) i else (\<lambda>v x. x))"

text \<open>The client's arguments as values of fields.\<close>

definition InitPasvDataConnection_fields :: "InitPasvDataConnection_args \<Rightarrow> tfields" where
  "InitPasvDataConnection_fields a = [(''p'', 1, pasv_value (ip_p a)), (''startPort'', 2, VI32 (word_of_int (ip_startPort a))), (''portLen'', 3, VI16 (word_of_int (ip_portLen a)))]"

definition OpenPasvDataConnection_fields :: "OpenPasvDataConnection_args \<Rightarrow> tfields" where
  "OpenPasvDataConnection_fields a = [(''p'', 1, pasv_value (op_p a))]"

definition ActiveStoreTransfer_fields :: "ActiveStoreTransfer_args \<Rightarrow> tfields" where
  "ActiveStoreTransfer_fields a = [(''p'', 1, active_value (as_p a)), (''iflags'', 2, VI32 (word_of_int (as_iflags a)))]"

definition PasvStoreTransfer_fields :: "PasvStoreTransfer_args \<Rightarrow> tfields" where
  "PasvStoreTransfer_fields a = [(''p'', 1, pasv_value (ps_p a)), (''iflags'', 2, VI32 (word_of_int (ps_iflags a)))]"

definition ActiveRetrieveTransfer_fields :: "ActiveRetrieveTransfer_args \<Rightarrow> tfields" where
  "ActiveRetrieveTransfer_fields a = [(''p'', 1, active_value (ar_p a))]"

definition PasvRetrieveTransfer_fields :: "PasvRetrieveTransfer_args \<Rightarrow> tfields" where
  "PasvRetrieveTransfer_fields a = [(''p'', 1, pasv_value (pr_p a))]"

lemma pargs_values:
  "InitPasvDataConnection_pargs_write ip = enc (VStruct ''slave_services_InitPasvDataConnection_pargs'' (InitPasvDataConnection_fields ip))"
  "OpenPasvDataConnection_pargs_write op = enc (VStruct ''slave_services_OpenPasvDataConnection_pargs'' (OpenPasvDataConnection_fields op))"
  "ActiveStoreTransfer_pargs_write as = enc (VStruct ''slave_services_ActiveStoreTransfer_pargs'' (ActiveStoreTransfer_fields as))"
  "PasvStoreTransfer_pargs_write ps = enc (VStruct ''slave_services_PasvStoreTransfer_pargs'' (PasvStoreTransfer_fields ps))"
  "ActiveRetrieveTransfer_pargs_write ar = enc (VStruct ''slave_services_ActiveRetrieveTransfer_pargs'' (ActiveRetrieveTransfer_fields ar))"
  "PasvRetrieveTransfer_pargs_write pr = enc (VStruct ''slave_services_PasvRetrieveTransfer_pargs'' (PasvRetrieveTransfer_fields pr))"
  by (simp_all add: InitPasvDataConnection_pargs_write_def InitPasvDataConnection_fields_def OpenPasvDataConnection_pargs_write_def OpenPasvDataConnection_fields_def ActiveStoreTransfer_pargs_write_def ActiveStoreTransfer_fields_def PasvStoreTransfer_pargs_write_def PasvStoreTransfer_fields_def ActiveRetrieveTransfer_pargs_write_def ActiveRetrieveTransfer_fields_def PasvRetrieveTransfer_pargs_write_def PasvRetrieveTransfer_fields_def
      writes_values i16_def i32_def) (simp_all add: pasv_value_def active_value_def)

lemma on_value:
  "pasv_fits p \<Longrightarrow> on_struct pasv_upd get upd i (pasv_value p) x = (upd p (fst x), insert i (snd x))"
  "active_fits q \<Longrightarrow> on_struct active_upd get' upd' i (active_value q) y = (upd' q (fst y), insert i (snd y))"
  "ret_fits r \<Longrightarrow> on_struct ret_upd get'' upd'' i (ret_value r) z = (upd'' r (fst z), insert i (snd z))"
  using fold_value(1)[of p] fold_value(2)[of q] fold_value(3)[of r] by (auto simp: on_struct_def)

context thrift_protocol
begin

lemma nested_as:
  assumes "\<And>p n fs cs us x. at p (enc (VStruct n fs) @ cs) us \<Longrightarrow>
      \<exists>p'. rd x p = Ret (Some (fold_fields u x fs, p')) \<and> at p' cs us"
  shows "reads_as (nested P rd get upd) i (on_struct u get upd i)"
  unfolding reads_as_def
proof (intro allI impI, goal_cases)
  case (1 v x p cs us)
  show ?case
  proof (cases v)
    case (VStruct n fs)
    from assms[OF 1[unfolded VStruct], of "(get (fst x), {})"] obtain p' where
      "rd (get (fst x), {}) p = Ret (Some (fold_fields u (get (fst x), {}) fs, p'))" "at p' cs us" by blast
    then show ?thesis by (simp add: nested_def on_struct_def VStruct)
  qed (use skip_in[OF 1, of x] in \<open>simp_all add: nested_def on_struct_def\<close>)
qed

lemmas nested_branches = branches nested_as[OF pasv_struct] nested_as[OF active_struct] nested_as[OF ret_struct]

lemma InitPasvDataConnection_reads: "reads (InitPasvDataConnection_args_field P) InitPasvDataConnection_upd"
  unfolding InitPasvDataConnection_args_field_def[abs_def] InitPasvDataConnection_upd_def[abs_def] by (intro readsI nested_branches)

lemma OpenPasvDataConnection_reads: "reads (OpenPasvDataConnection_args_field P) OpenPasvDataConnection_upd"
  unfolding OpenPasvDataConnection_args_field_def[abs_def] OpenPasvDataConnection_upd_def[abs_def] by (intro readsI nested_branches)

lemma ActiveStoreTransfer_reads: "reads (ActiveStoreTransfer_args_field P) ActiveStoreTransfer_upd"
  unfolding ActiveStoreTransfer_args_field_def[abs_def] ActiveStoreTransfer_upd_def[abs_def] by (intro readsI nested_branches)

lemma PasvStoreTransfer_reads: "reads (PasvStoreTransfer_args_field P) PasvStoreTransfer_upd"
  unfolding PasvStoreTransfer_args_field_def[abs_def] PasvStoreTransfer_upd_def[abs_def] by (intro readsI nested_branches)

lemma ActiveRetrieveTransfer_reads: "reads (ActiveRetrieveTransfer_args_field P) ActiveRetrieveTransfer_upd"
  unfolding ActiveRetrieveTransfer_args_field_def[abs_def] ActiveRetrieveTransfer_upd_def[abs_def] by (intro readsI nested_branches)

lemma PasvRetrieveTransfer_reads: "reads (PasvRetrieveTransfer_args_field P) PasvRetrieveTransfer_upd"
  unfolding PasvRetrieveTransfer_args_field_def[abs_def] PasvRetrieveTransfer_upd_def[abs_def] by (intro readsI nested_branches)

lemma results_read: "reads (string_result_field P) string_upd" "reads (stor_result_field P) stor_upd"
  unfolding string_result_field_def[abs_def] string_upd_def[abs_def] stor_result_field_def[abs_def] stor_upd_def[abs_def]
  by (intro readsI nested_branches)+

lemma string_back:
  assumes "at p (string_result n (v, {0}) @ cs) us"
  shows "\<exists>S p'. read_struct P (string_result_field P) (x, {}) p = Ret (Some ((v, S), p')) \<and> 0 \<in> S \<and> at p' cs us"
proof -
  have "string_result n (v, {0}) = enc (VStruct n [(''success'', 0, VStr v)])" by (simp add: string_result_def)
  with struct_read[OF results_read(1), of p n "[(''success'', 0, VStr v)]" cs us "(x, {})"] assms
  show ?thesis by (auto simp: string_upd_def on_field_def)
qed

lemma stor_back:
  assumes "at p (stor_result n (v, {0}) @ cs) us" and "ret_fits v"
  shows "\<exists>S p'. read_struct P (stor_result_field P) (x, {}) p = Ret (Some ((v, S), p')) \<and> 0 \<in> S \<and> at p' cs us"
proof -
  have "stor_result n (v, {0}) = enc (VStruct n [(''success'', 0, ret_value v)])"
    by (simp add: stor_result_def writes_values) (simp add: ret_value_def)
  moreover have "on_struct ret_upd id (\<lambda>v a. v) 0 (ret_value v) (x, {}) = (v, {0})"
    using assms(2) by (simp add: on_value)
  ultimately show ?thesis
    using struct_read[OF results_read(2), of p n "[(''success'', 0, ret_value v)]" cs us "(x, {})"] assms(1)
    by (simp add: stor_upd_def) blast
qed

lemma InitPasvDataConnection_args_back:
  assumes "at p (InitPasvDataConnection_pargs_write a @ cs) us" and "pasv_fits (ip_p a) \<and> fits 32 (ip_startPort a) \<and> fits 16 (ip_portLen a)"
  shows "\<exists>S p'. InitPasvDataConnection_args_read P (x, {}) p = Ret (Some ((a, S), p')) \<and> at p' cs us"
proof -
  have "fst (fold_fields InitPasvDataConnection_upd (x, {}) (InitPasvDataConnection_fields a)) = a"
    using assms(2) by (simp add: InitPasvDataConnection_fields_def InitPasvDataConnection_upd_def on_value on_field_def sint_fits)
  with struct_read[OF InitPasvDataConnection_reads, of p _ "InitPasvDataConnection_fields a" cs us "(x, {})"] assms(1)
  show ?thesis unfolding InitPasvDataConnection_args_read_def pargs_values by (metis prod.collapse)
qed

lemma OpenPasvDataConnection_args_back:
  assumes "at p (OpenPasvDataConnection_pargs_write a @ cs) us" and "pasv_fits (op_p a)"
  shows "\<exists>S p'. OpenPasvDataConnection_args_read P (x, {}) p = Ret (Some ((a, S), p')) \<and> at p' cs us"
proof -
  have "fst (fold_fields OpenPasvDataConnection_upd (x, {}) (OpenPasvDataConnection_fields a)) = a"
    using assms(2) by (simp add: OpenPasvDataConnection_fields_def OpenPasvDataConnection_upd_def on_value on_field_def sint_fits)
  with struct_read[OF OpenPasvDataConnection_reads, of p _ "OpenPasvDataConnection_fields a" cs us "(x, {})"] assms(1)
  show ?thesis unfolding OpenPasvDataConnection_args_read_def pargs_values by (metis prod.collapse)
qed

lemma ActiveStoreTransfer_args_back:
  assumes "at p (ActiveStoreTransfer_pargs_write a @ cs) us" and "active_fits (as_p a) \<and> fits 32 (as_iflags a)"
  shows "\<exists>S p'. ActiveStoreTransfer_args_read P (x, {}) p = Ret (Some ((a, S), p')) \<and> at p' cs us"
proof -
  have "fst (fold_fields ActiveStoreTransfer_upd (x, {}) (ActiveStoreTransfer_fields a)) = a"
    using assms(2) by (simp add: ActiveStoreTransfer_fields_def ActiveStoreTransfer_upd_def on_value on_field_def sint_fits)
  with struct_read[OF ActiveStoreTransfer_reads, of p _ "ActiveStoreTransfer_fields a" cs us "(x, {})"] assms(1)
  show ?thesis unfolding ActiveStoreTransfer_args_read_def pargs_values by (metis prod.collapse)
qed

lemma PasvStoreTransfer_args_back:
  assumes "at p (PasvStoreTransfer_pargs_write a @ cs) us" and "pasv_fits (ps_p a) \<and> fits 32 (ps_iflags a)"
  shows "\<exists>S p'. PasvStoreTransfer_args_read P (x, {}) p = Ret (Some ((a, S), p')) \<and> at p' cs us"
proof -
  have "fst (fold_fields PasvStoreTransfer_upd (x, {}) (PasvStoreTransfer_fields a)) = a"
    using assms(2) by (simp add: PasvStoreTransfer_fields_def PasvStoreTransfer_upd_def on_value on_field_def sint_fits)
  with struct_read[OF PasvStoreTransfer_reads, of p _ "PasvStoreTransfer_fields a" cs us "(x, {})"] assms(1)
  show ?thesis unfolding PasvStoreTransfer_args_read_def pargs_values by (metis prod.collapse)
qed

lemma ActiveRetrieveTransfer_args_back:
  assumes "at p (ActiveRetrieveTransfer_pargs_write a @ cs) us" and "active_fits (ar_p a)"
  shows "\<exists>S p'. ActiveRetrieveTransfer_args_read P (x, {}) p = Ret (Some ((a, S), p')) \<and> at p' cs us"
proof -
  have "fst (fold_fields ActiveRetrieveTransfer_upd (x, {}) (ActiveRetrieveTransfer_fields a)) = a"
    using assms(2) by (simp add: ActiveRetrieveTransfer_fields_def ActiveRetrieveTransfer_upd_def on_value on_field_def sint_fits)
  with struct_read[OF ActiveRetrieveTransfer_reads, of p _ "ActiveRetrieveTransfer_fields a" cs us "(x, {})"] assms(1)
  show ?thesis unfolding ActiveRetrieveTransfer_args_read_def pargs_values by (metis prod.collapse)
qed

lemma PasvRetrieveTransfer_args_back:
  assumes "at p (PasvRetrieveTransfer_pargs_write a @ cs) us" and "pasv_fits (pr_p a)"
  shows "\<exists>S p'. PasvRetrieveTransfer_args_read P (x, {}) p = Ret (Some ((a, S), p')) \<and> at p' cs us"
proof -
  have "fst (fold_fields PasvRetrieveTransfer_upd (x, {}) (PasvRetrieveTransfer_fields a)) = a"
    using assms(2) by (simp add: PasvRetrieveTransfer_fields_def PasvRetrieveTransfer_upd_def on_value on_field_def sint_fits)
  with struct_read[OF PasvRetrieveTransfer_reads, of p _ "PasvRetrieveTransfer_fields a" cs us "(x, {})"] assms(1)
  show ?thesis unfolding PasvRetrieveTransfer_args_read_def pargs_values by (metis prod.collapse)
qed

end

end
