(* ===== verification/ThriftRemote.thy ===== *)
theory ThriftRemote
  imports ThriftCalls SlaveProps
begin

text \<open>
  A whole call: the client's half, the connection in both directions, the processor and the handler. It
  refines the call of the handler itself.
\<close>

section \<open>A call\<close>

datatype request =
    InitPasv InitPasvDataConnection_args
  | OpenPasv OpenPasvDataConnection_args
  | ActiveStore ActiveStoreTransfer_args
  | PasvStore PasvStoreTransfer_args
  | ActiveRetrieve ActiveRetrieveTransfer_args
  | PasvRetrieve PasvRetrieveTransfer_args

datatype reply = Text string | Stored StorRetVal

fun request_fits :: "request \<Rightarrow> bool" where
  "request_fits (InitPasv a) \<longleftrightarrow> pasv_fits (ip_p a) \<and> fits 32 (ip_startPort a) \<and> fits 16 (ip_portLen a)"
| "request_fits (OpenPasv a) \<longleftrightarrow> pasv_fits (op_p a)"
| "request_fits (ActiveStore a) \<longleftrightarrow> active_fits (as_p a) \<and> fits 32 (as_iflags a)"
| "request_fits (PasvStore a) \<longleftrightarrow> pasv_fits (ps_p a) \<and> fits 32 (ps_iflags a)"
| "request_fits (ActiveRetrieve a) \<longleftrightarrow> active_fits (ar_p a)"
| "request_fits (PasvRetrieve a) \<longleftrightarrow> pasv_fits (pr_p a)"

text \<open>The client's half, as the method of the client calls it: \<open>send_\<close>, then \<open>recv_\<close>.\<close>

fun send_request :: "'p proto \<Rightarrow> request \<Rightarrow> 'p \<Rightarrow> 'p option" where
  "send_request P (InitPasv a) = send_InitPasvDataConnection P a"
| "send_request P (OpenPasv a) = send_OpenPasvDataConnection P a"
| "send_request P (ActiveStore a) = send_ActiveStoreTransfer P a"
| "send_request P (PasvStore a) = send_PasvStoreTransfer P a"
| "send_request P (ActiveRetrieve a) = send_ActiveRetrieveTransfer P a"
| "send_request P (PasvRetrieve a) = send_PasvRetrieveTransfer P a"

definition as_reply :: "('v \<Rightarrow> reply) \<Rightarrow> ('v \<times> 'p) option outcome \<Rightarrow> (reply \<times> 'p) option outcome" where
  "as_reply f m = attempt m (\<lambda>(v, p). Ret (Some (f v, p)))"

fun recv_reply :: "'p proto \<Rightarrow> request \<Rightarrow> 'p \<Rightarrow> (reply \<times> 'p) option outcome" where
  "recv_reply P (InitPasv a) p = as_reply Text (recv_InitPasvDataConnection P [] p)"
| "recv_reply P (OpenPasv a) p = as_reply Text (recv_OpenPasvDataConnection P [] p)"
| "recv_reply P (ActiveStore a) p = as_reply Stored (recv_ActiveStoreTransfer P new_StorRetVal p)"
| "recv_reply P (PasvStore a) p = as_reply Stored (recv_PasvStoreTransfer P new_StorRetVal p)"
| "recv_reply P (ActiveRetrieve a) p = as_reply Text (recv_ActiveRetrieveTransfer P [] p)"
| "recv_reply P (PasvRetrieve a) p = as_reply Text (recv_PasvRetrieveTransfer P [] p)"

text \<open>The handler itself.\<close>

definition as_result :: "('v \<Rightarrow> reply) \<Rightarrow> ((string + 'v) \<times> 's) outcome \<Rightarrow> ((string + reply) \<times> 's) outcome" where
  "as_result f m = and_then m (\<lambda>(r, st). Ret (map_sum id f r, st))"

fun call_handler :: "'s iface \<Rightarrow> request \<Rightarrow> 's \<Rightarrow> ((string + reply) \<times> 's) outcome" where
  "call_handler I (InitPasv a) st = as_result Text (if_InitPasvDataConnection I (ip_p a) (ip_startPort a) (ip_portLen a) st)"
| "call_handler I (OpenPasv a) st = as_result Text (if_OpenPasvDataConnection I (op_p a) st)"
| "call_handler I (ActiveStore a) st = as_result Stored (if_ActiveStoreTransfer I (as_p a) (as_iflags a) st)"
| "call_handler I (PasvStore a) st = as_result Stored (if_PasvStoreTransfer I (ps_p a) (ps_iflags a) st)"
| "call_handler I (ActiveRetrieve a) st = as_result Text (if_ActiveRetrieveTransfer I (ar_p a) st)"
| "call_handler I (PasvRetrieve a) st = as_result Text (if_PasvRetrieveTransfer I (pr_p a) st)"

text \<open>
  The slave's side reads the header of a message and dispatches it; \<open>None\<close> is an exception of the library.
\<close>

definition serve :: "'p proto \<Rightarrow> 's iface \<Rightarrow> 'p \<Rightarrow> 'p \<Rightarrow> 's \<Rightarrow> (('p \<times> 'p) option \<times> 's) outcome" where
  "serve P I ip op st = (case readMessageBegin P ip of
      None \<Rightarrow> Ret (None, st)
    | Some ((fname, mt, seqid), ip1) \<Rightarrow> dispatchCall P I fname seqid ip1 op st)"

definition remote :: "'p proto \<Rightarrow> 's iface \<Rightarrow> request \<Rightarrow> 'p \<Rightarrow> 'p \<Rightarrow> 's \<Rightarrow> ((reply \<times> 'p \<times> 'p) option \<times> 's) outcome" where
  "remote P I rq req rep st = (case send_request P rq req of
      None \<Rightarrow> Ret (None, st)
    | Some req1 \<Rightarrow> and_then (serve P I req1 rep st) (\<lambda>(r, st'). case r of
          None \<Rightarrow> Ret (None, st')
        | Some (req2, rep1) \<Rightarrow> and_then (recv_reply P rq rep1) (\<lambda>x.
            Ret (map_option (\<lambda>(v, rep2). (v, req2, rep2)) x, st'))))"

lemma processMap_names [simp]:
  "processMap P I ''InitPasvDataConnection'' = Some (process_InitPasvDataConnection P I)"
  "processMap P I ''OpenPasvDataConnection'' = Some (process_OpenPasvDataConnection P I)"
  "processMap P I ''ActiveStoreTransfer'' = Some (process_ActiveStoreTransfer P I)"
  "processMap P I ''PasvStoreTransfer'' = Some (process_PasvStoreTransfer P I)"
  "processMap P I ''ActiveRetrieveTransfer'' = Some (process_ActiveRetrieveTransfer P I)"
  "processMap P I ''PasvRetrieveTransfer'' = Some (process_PasvRetrieveTransfer P I)"
  by (simp_all add: processMap_def)

section \<open>One call\<close>

text \<open>What \<open>process\<close> sends for the result of the handler.\<close>

definition answer_calls :: "string \<Rightarrow> ('r isset \<Rightarrow> wcall list) \<Rightarrow> int \<Rightarrow> string + 'r \<Rightarrow> wcall list" where
  "answer_calls name wr seqid res = (case res of
      Inl what \<Rightarrow> [MessageBegin name T_EXCEPTION seqid, AppException what, MessageEnd]
    | Inr v \<Rightarrow> MessageBegin name T_REPLY seqid # wr (v, {0}) @ [MessageEnd])"

context thrift_protocol
begin

lemma begins: "at p (MessageBegin n m i # cs) us \<Longrightarrow> \<exists>p'. readMessageBegin P p = Some ((n, m, i), p') \<and> at p' cs us"
  using message[of p n m i cs] by (auto simp: at_def)

lemma process_args:
  assumes "at ip (ws @ MessageEnd # cs) us"
    and "\<And>p cs us. at p (ws @ cs) us \<Longrightarrow> \<exists>S p'. rd (init, {}) p = Ret (Some ((a, S), p')) \<and> at p' cs us"
  obtains ip' where "at ip' cs us" "process P name rd init handler wr seqid ip op st =
    and_then (handler a st) (\<lambda>(res, st'). Ret (map_option (Pair ip') (send_message P (answer_calls name wr seqid res) op), st'))"
proof -
  obtain S p1 where 1: "rd (init, {}) ip = Ret (Some ((a, S), p1))" "at p1 (MessageEnd # cs) us"
    using assms by blast
  obtain ip' where "end_message P p1 = Some ip'" "at ip' cs us" using message_ends[OF 1(2)] by blast
  with 1(1) show thesis by (intro that[of ip']) (simp_all add: process_def answer_calls_def outcome_simps)
qed

lemma recv_reply_back:
  assumes "at p (MessageBegin name T_REPLY i # wr (v, {0}) @ [MessageEnd]) us"
    and "\<And>p cs us. at p (wr (v, {0}) @ cs) us \<Longrightarrow> \<exists>S p'. rd (x, {}) p = Ret (Some ((v, S), p')) \<and> 0 \<in> S \<and> at p' cs us"
  shows "\<exists>p'. recv_result P name rd x p = Ret (Some (v, p')) \<and> at p' [] us"
proof -
  obtain p1 where 1: "readMessageBegin P p = Some ((name, T_REPLY, i), p1)" "at p1 (wr (v, {0}) @ [MessageEnd]) us"
    using begins[OF assms(1)] by blast
  obtain S p2 where 2: "rd (x, {}) p1 = Ret (Some ((v, S), p2))" "0 \<in> S" "at p2 [MessageEnd] us" using assms(2)[OF 1(2)] by blast
  obtain p3 where "end_message P p2 = Some p3" "at p3 [] us" using message_ends[OF 2(3)] by blast
  with 1 2 show ?thesis by (simp add: recv_result_def)
qed

lemma recv_exception: "at p (MessageBegin n T_EXCEPTION i # cs) us \<Longrightarrow> recv_result P name rd x p = Ret None"
  using begins[of p n T_EXCEPTION i cs us] by (auto simp: recv_result_def)

text \<open>A call of the method \<open>name\<close> with the arguments \<open>a\<close>, written as \<open>ws\<close>.\<close>

lemma one_call:
  assumes "at req [] []" and "at rep [] []"
    and "\<And>p cs us. at p (ws @ cs) us \<Longrightarrow> \<exists>S p'. rd (init, {}) p = Ret (Some ((a, S), p')) \<and> at p' cs us"
    and "\<And>v st' p cs us. handler a st = Ret (Inr v, st') \<Longrightarrow> at p (wr (v, {0}) @ cs) us \<Longrightarrow>
      \<exists>S p'. rdr (x, {}) p = Ret (Some ((v, S), p')) \<and> 0 \<in> S \<and> at p' cs us"
  obtains req1 req2 where "send_message P (MessageBegin name T_CALL 0 # ws @ [MessageEnd]) req = Some req1"
    "readMessageBegin P req1 = Some ((name, T_CALL, 0), req2)"
    "\<And>e. handler a st = Crash e \<Longrightarrow> process P name rd init handler wr 0 req2 rep st = Crash e"
    "handler a st = Hang \<Longrightarrow> process P name rd init handler wr 0 req2 rep st = Hang"
    "\<And>w st'. handler a st = Ret (Inl w, st') \<Longrightarrow> \<exists>q rep1. process P name rd init handler wr 0 req2 rep st =
        Ret (Some (q, rep1), st') \<and> recv_result P name rdr x rep1 = Ret None"
    "\<And>v st'. handler a st = Ret (Inr v, st') \<Longrightarrow> \<exists>q rep1 rep2. process P name rd init handler wr 0 req2 rep st =
        Ret (Some (q, rep1), st') \<and> recv_result P name rdr x rep1 = Ret (Some (v, rep2)) \<and> at q [] [] \<and> at rep2 [] []"
proof -
  obtain req1 where 1: "send_message P (MessageBegin name T_CALL 0 # ws @ [MessageEnd]) req = Some req1"
    "at req1 (MessageBegin name T_CALL 0 # ws @ [MessageEnd]) []" using sent[OF assms(1)] by auto
  obtain req2 where 2: "readMessageBegin P req1 = Some ((name, T_CALL, 0), req2)" "at req2 (ws @ [MessageEnd]) []"
    using begins[OF 1(2)] by blast
  obtain q where q: "at q [] []" "process P name rd init handler wr 0 req2 rep st =
    and_then (handler a st) (\<lambda>(res, st'). Ret (map_option (Pair q) (send_message P (answer_calls name wr 0 res) rep), st'))"
    using process_args[where ip = req2 and ws = ws and cs = "[]" and us = "[]" and rd = rd and init = init and a = a]
      2(2) assms(3) by metis
  have answered: "\<exists>rep1. process P name rd init handler wr 0 req2 rep st = Ret (Some (q, rep1), st') \<and>
      at rep1 (answer_calls name wr 0 res) []" if "handler a st = Ret (res, st')" for res st'
    using sent[OF assms(2), of "answer_calls name wr 0 res"] q(2) that by (auto simp: outcome_simps)
  show thesis
  proof (rule that[OF 1(1) 2(1)])
    fix w st' assume "handler a st = Ret (Inl w, st')"
    with answered obtain rep1 where "process P name rd init handler wr 0 req2 rep st = Ret (Some (q, rep1), st')"
      "at rep1 (answer_calls name wr 0 (Inl w)) []" by blast
    then show "\<exists>q rep1. process P name rd init handler wr 0 req2 rep st =
        Ret (Some (q, rep1), st') \<and> recv_result P name rdr x rep1 = Ret None"
      using recv_exception by (fastforce simp: answer_calls_def)
  next
    fix v st' assume v: "handler a st = Ret (Inr v, st')"
    with answered obtain rep1 where r: "process P name rd init handler wr 0 req2 rep st = Ret (Some (q, rep1), st')"
      "at rep1 (MessageBegin name T_REPLY 0 # wr (v, {0}) @ [MessageEnd]) []" by (force simp: answer_calls_def)
    from recv_reply_back[where wr = wr and v = v and rd = rdr and x = x, OF r(2)] assms(4)[OF v] r(1) q(1) show "\<exists>q rep1 rep2. process P name rd init handler wr 0 req2 rep st =
        Ret (Some (q, rep1), st') \<and> recv_result P name rdr x rep1 = Ret (Some (v, rep2)) \<and> at q [] [] \<and> at rep2 [] []"
      by blast
  qed (simp_all add: q(2) outcome_simps)
qed

text \<open>What the caller sees: the handler's result, or an exception when the handler throws one.\<close>

definition as_called :: "((string + reply) \<times> 's) outcome \<Rightarrow> ((reply \<times> 'p \<times> 'p) option \<times> 's) outcome \<Rightarrow> bool" where
  "as_called m r = (case m of
      Crash e \<Rightarrow> r = Crash e
    | Hang \<Rightarrow> r = Hang
    | Ret (Inl what, st') \<Rightarrow> r = Ret (None, st')
    | Ret (Inr v, st') \<Rightarrow> (\<exists>req rep. r = Ret (Some (v, req, rep), st') \<and> at req [] [] \<and> at rep [] []))"

lemma remote_one:
  assumes "at req [] []" and "at rep [] []"
    and "\<And>p cs us. at p (ws @ cs) us \<Longrightarrow> \<exists>S p'. rd (init, {}) p = Ret (Some ((a, S), p')) \<and> at p' cs us"
    and "\<And>v st' p cs us. handler a st = Ret (Inr v, st') \<Longrightarrow> at p (wr (v, {0}) @ cs) us \<Longrightarrow>
      \<exists>S p'. rdr (x, {}) p = Ret (Some ((v, S), p')) \<and> 0 \<in> S \<and> at p' cs us"
    and "send_request P rq req = send_message P (MessageBegin name T_CALL 0 # ws @ [MessageEnd]) req"
    and "processMap P I name = Some (process P name rd init handler wr)"
    and "\<And>p. recv_reply P rq p = as_reply f (recv_result P name rdr x p)"
    and "call_handler I rq st = as_result f (handler a st)"
  shows "as_called (call_handler I rq st) (remote P I rq req rep st)"
proof (rule one_call[where ws = ws and rd = rd and init = init and a = a and handler = handler and wr = wr and
      rdr = rdr and x = x and st = st and name = name, OF assms(1,2)], goal_cases)
  case (1 p cs us)
  then show ?case by (rule assms(3))
next
  case (2 v st' p cs us)
  then show ?case by (rule assms(4))
next
  case c: (3 req1 req2)
  have s: "serve P I req1 rep st = process P name rd init handler wr 0 req2 rep st"
    by (simp add: serve_def c(2) dispatchCall_def assms(6))
  show ?thesis
  proof (cases "handler a st")
    case (Ret r)
    obtain res st' where r: "r = (res, st')" by (cases r)
    show ?thesis
    proof (cases res)
      case (Inl w)
      from c(5)[OF Ret[unfolded r Inl]] obtain q rep1 where
        "process P name rd init handler wr 0 req2 rep st = Ret (Some (q, rep1), st')"
        "recv_result P name rdr x rep1 = Ret None" by blast
      then show ?thesis
        by (simp add: as_called_def remote_def s assms(5,7,8) as_result_def as_reply_def Ret r Inl c(1) outcome_simps)
    next
      case (Inr v)
      from c(6)[OF Ret[unfolded r Inr]] obtain q rep1 rep2 where
        "process P name rd init handler wr 0 req2 rep st = Ret (Some (q, rep1), st')"
        "recv_result P name rdr x rep1 = Ret (Some (v, rep2))" "at q [] []" "at rep2 [] []" by blast
      then show ?thesis
        by (simp add: as_called_def remote_def s assms(5,7,8) as_result_def as_reply_def Ret r Inr c(1) outcome_simps)
    qed
  qed (use c(1,3,4) in \<open>simp_all add: as_called_def remote_def s assms(5,8) as_result_def outcome_simps\<close>)
qed

lemma stor_fits:
  "(\<And>v st'. as_result Stored m = Ret (Inr (Stored v), st') \<Longrightarrow> ret_fits v) \<Longrightarrow> m = Ret (Inr v, st') \<Longrightarrow> ret_fits v"
  by (simp add: as_result_def outcome_simps)

lemma remote_as_called:
  assumes "at req [] []" and "at rep [] []" and "request_fits rq"
    and "\<And>v st'. call_handler I rq st = Ret (Inr (Stored v), st') \<Longrightarrow> ret_fits v"
  shows "as_called (call_handler I rq st) (remote P I rq req rep st)"
proof (cases rq)
  case (InitPasv a)
  note rq = this
  show ?thesis
  proof (rule remote_one[OF assms(1,2), where a = a and f = Text and ws = "InitPasvDataConnection_pargs_write a" and
        rd = "InitPasvDataConnection_args_read P" and init = new_InitPasvDataConnection_args and handler = "\<lambda>a. if_InitPasvDataConnection I (ip_p a) (ip_startPort a) (ip_portLen a)" and
        wr = InitPasvDataConnection_result_write and rdr = "InitPasvDataConnection_presult_read P" and x = "[]" and
        name = "''InitPasvDataConnection''"], goal_cases)
    case (1 p cs us)
    then show ?case by (rule InitPasvDataConnection_args_back) (use assms(3) rq in simp)
  next
    case (2 v st' p cs us)
    then show ?case unfolding InitPasvDataConnection_result_write_def InitPasvDataConnection_presult_read_def by (intro string_back)
  qed (simp_all only: rq send_request.simps recv_reply.simps call_handler.simps processMap_names
      send_InitPasvDataConnection_def recv_InitPasvDataConnection_def process_InitPasvDataConnection_def)
next
  case (OpenPasv a)
  note rq = this
  show ?thesis
  proof (rule remote_one[OF assms(1,2), where a = a and f = Text and ws = "OpenPasvDataConnection_pargs_write a" and
        rd = "OpenPasvDataConnection_args_read P" and init = new_OpenPasvDataConnection_args and handler = "\<lambda>a. if_OpenPasvDataConnection I (op_p a)" and
        wr = OpenPasvDataConnection_result_write and rdr = "OpenPasvDataConnection_presult_read P" and x = "[]" and
        name = "''OpenPasvDataConnection''"], goal_cases)
    case (1 p cs us)
    then show ?case by (rule OpenPasvDataConnection_args_back) (use assms(3) rq in simp)
  next
    case (2 v st' p cs us)
    then show ?case unfolding OpenPasvDataConnection_result_write_def OpenPasvDataConnection_presult_read_def by (intro string_back)
  qed (simp_all only: rq send_request.simps recv_reply.simps call_handler.simps processMap_names
      send_OpenPasvDataConnection_def recv_OpenPasvDataConnection_def process_OpenPasvDataConnection_def)
next
  case (ActiveStore a)
  note rq = this
  show ?thesis
  proof (rule remote_one[OF assms(1,2), where a = a and f = Stored and ws = "ActiveStoreTransfer_pargs_write a" and
        rd = "ActiveStoreTransfer_args_read P" and init = new_ActiveStoreTransfer_args and handler = "\<lambda>a. if_ActiveStoreTransfer I (as_p a) (as_iflags a)" and
        wr = ActiveStoreTransfer_result_write and rdr = "ActiveStoreTransfer_presult_read P" and x = "new_StorRetVal" and
        name = "''ActiveStoreTransfer''"], goal_cases)
    case (1 p cs us)
    then show ?case by (rule ActiveStoreTransfer_args_back) (use assms(3) rq in simp)
  next
    case (2 v st' p cs us)
    have "ret_fits v" by (rule stor_fits[OF assms(4)[unfolded rq call_handler.simps] 2(1)])
    with 2(2) show ?case unfolding ActiveStoreTransfer_result_write_def ActiveStoreTransfer_presult_read_def by (intro stor_back)
  qed (simp_all only: rq send_request.simps recv_reply.simps call_handler.simps processMap_names
      send_ActiveStoreTransfer_def recv_ActiveStoreTransfer_def process_ActiveStoreTransfer_def)
next
  case (PasvStore a)
  note rq = this
  show ?thesis
  proof (rule remote_one[OF assms(1,2), where a = a and f = Stored and ws = "PasvStoreTransfer_pargs_write a" and
        rd = "PasvStoreTransfer_args_read P" and init = new_PasvStoreTransfer_args and handler = "\<lambda>a. if_PasvStoreTransfer I (ps_p a) (ps_iflags a)" and
        wr = PasvStoreTransfer_result_write and rdr = "PasvStoreTransfer_presult_read P" and x = "new_StorRetVal" and
        name = "''PasvStoreTransfer''"], goal_cases)
    case (1 p cs us)
    then show ?case by (rule PasvStoreTransfer_args_back) (use assms(3) rq in simp)
  next
    case (2 v st' p cs us)
    have "ret_fits v" by (rule stor_fits[OF assms(4)[unfolded rq call_handler.simps] 2(1)])
    with 2(2) show ?case unfolding PasvStoreTransfer_result_write_def PasvStoreTransfer_presult_read_def by (intro stor_back)
  qed (simp_all only: rq send_request.simps recv_reply.simps call_handler.simps processMap_names
      send_PasvStoreTransfer_def recv_PasvStoreTransfer_def process_PasvStoreTransfer_def)
next
  case (ActiveRetrieve a)
  note rq = this
  show ?thesis
  proof (rule remote_one[OF assms(1,2), where a = a and f = Text and ws = "ActiveRetrieveTransfer_pargs_write a" and
        rd = "ActiveRetrieveTransfer_args_read P" and init = new_ActiveRetrieveTransfer_args and handler = "\<lambda>a. if_ActiveRetrieveTransfer I (ar_p a)" and
        wr = ActiveRetrieveTransfer_result_write and rdr = "ActiveRetrieveTransfer_presult_read P" and x = "[]" and
        name = "''ActiveRetrieveTransfer''"], goal_cases)
    case (1 p cs us)
    then show ?case by (rule ActiveRetrieveTransfer_args_back) (use assms(3) rq in simp)
  next
    case (2 v st' p cs us)
    then show ?case unfolding ActiveRetrieveTransfer_result_write_def ActiveRetrieveTransfer_presult_read_def by (intro string_back)
  qed (simp_all only: rq send_request.simps recv_reply.simps call_handler.simps processMap_names
      send_ActiveRetrieveTransfer_def recv_ActiveRetrieveTransfer_def process_ActiveRetrieveTransfer_def)
next
  case (PasvRetrieve a)
  note rq = this
  show ?thesis
  proof (rule remote_one[OF assms(1,2), where a = a and f = Text and ws = "PasvRetrieveTransfer_pargs_write a" and
        rd = "PasvRetrieveTransfer_args_read P" and init = new_PasvRetrieveTransfer_args and handler = "\<lambda>a. if_PasvRetrieveTransfer I (pr_p a)" and
        wr = PasvRetrieveTransfer_result_write and rdr = "PasvRetrieveTransfer_presult_read P" and x = "[]" and
        name = "''PasvRetrieveTransfer''"], goal_cases)
    case (1 p cs us)
    then show ?case by (rule PasvRetrieveTransfer_args_back) (use assms(3) rq in simp)
  next
    case (2 v st' p cs us)
    then show ?case unfolding PasvRetrieveTransfer_result_write_def PasvRetrieveTransfer_presult_read_def by (intro string_back)
  qed (simp_all only: rq send_request.simps recv_reply.simps call_handler.simps processMap_names
      send_PasvRetrieveTransfer_def recv_PasvRetrieveTransfer_def process_PasvRetrieveTransfer_def)
qed

end

section \<open>The slave behind the processor\<close>

text \<open>The handler of a slave, on its state and what it has done to its sockets; it throws no exception.\<close>

definition returns :: "'v \<times> sock_effect list \<times> slave_state \<Rightarrow> sock_effect list \<Rightarrow>
    ((string + 'v) \<times> slave_state \<times> sock_effect list) outcome" where
  "returns r out = (case r of (v, out', st) \<Rightarrow> Ret (Inr v, st, out @ out'))"

definition slave_iface :: "slave_os \<Rightarrow> (slave_state \<times> sock_effect list) iface" where
  "slave_iface os = \<lparr>
     if_InitPasvDataConnection = (\<lambda>p startPort portLen (st, out).
        and_then (InitPasvDataConnection os p startPort portLen st) (\<lambda>r. returns r out)),
     if_OpenPasvDataConnection = (\<lambda>p (st, out). returns (OpenPasvDataConnection os p st) out),
     if_ActiveStoreTransfer = (\<lambda>p iflags (st, out). returns (ActiveStoreTransfer os p iflags st) out),
     if_PasvStoreTransfer = (\<lambda>p iflags (st, out). returns (PasvStoreTransfer os p iflags st) out),
     if_ActiveRetrieveTransfer = (\<lambda>p (st, out). returns (ActiveRetrieveTransfer os p st) out),
     if_PasvRetrieveTransfer = (\<lambda>p (st, out). returns (PasvRetrieveTransfer os p st) out)\<rparr>"

section \<open>The properties\<close>

text \<open>C5: A remote call is a call: over any connection that keeps the laws, each of the six calls gives the client
  what the handler returns for the same arguments, with the same change of the handler's state; an exception
  of the handler reaches the client as an exception; and afterwards nothing is left on the connection in
  either direction, so it serves the next call. The arguments and the size in a result must fit their types.\<close>

theorem remote_call_refines:
  assumes "thrift_protocol P live pending unsent"
    and "live req" and "pending req = []" and "unsent req = []"
    and "live rep" and "pending rep = []" and "unsent rep = []" and "request_fits rq"
    and "\<forall>v st'. call_handler I rq st = Ret (Inr (Stored v), st') \<longrightarrow> ret_fits v"
  shows "case call_handler I rq st of
      Ret (Inr v, st') \<Rightarrow> (\<exists>req' rep'. remote P I rq req rep st = Ret (Some (v, req', rep'), st') \<and>
        live req' \<and> pending req' = [] \<and> unsent req' = [] \<and> live rep' \<and> pending rep' = [] \<and> unsent rep' = [])
    | Ret (Inl what, st') \<Rightarrow> remote P I rq req rep st = Ret (None, st')
    | Crash e \<Rightarrow> remote P I rq req rep st = Crash e
    | Hang \<Rightarrow> remote P I rq req rep st = Hang"
proof -
  note T = assms(1)
  have "thrift_protocol.at live pending unsent req [] []" "thrift_protocol.at live pending unsent rep [] []"
    using assms(2-7) by (simp_all add: thrift_protocol.at_def[OF T])
  from thrift_protocol.remote_as_called[OF T this assms(8), of I st] assms(9)
  show ?thesis
    by (auto simp: thrift_protocol.as_called_def[OF T] thrift_protocol.at_def[OF T] split: outcome.splits sum.splits)
qed

text \<open>The client of a passive transfer connects.\<close>

theorem remote_call_refines_witness:
  "\<exists>st req rep. remote wire_proto (slave_iface demo_os) (OpenPasv \<lparr>op_p = new_PasvParams\<rparr>) empty_wire empty_wire
      (demo_slave, []) = Ret (Some (Text ''150 Connection accepted.'', req, rep), st) \<and> w_pending req = [] \<and> w_pending rep = []"
proof -
  have fit: "request_fits (OpenPasv \<lparr>op_p = new_PasvParams\<rparr>)" by (simp add: pasv_fits_def fits_def new_PasvParams_def)
  obtain st where h: "call_handler (slave_iface demo_os) (OpenPasv \<lparr>op_p = new_PasvParams\<rparr>) (demo_slave, []) =
      Ret (Inr (Text ''150 Connection accepted.''), st)"
    by (simp add: slave_iface_def returns_def OpenPasvDataConnection_def as_result_def Let_def outcome_simps demo_os_def)
  show ?thesis
    using remote_call_refines[OF wire.thrift_protocol_axioms _ _ _ _ _ _ fit, of empty_wire empty_wire
        "slave_iface demo_os" "(demo_slave, [])"] h
    by (auto simp: empty_wire_def)
qed

text \<open>A call of a method that the slave does not have: the arguments are skipped, whatever they are, the
  reply is an exception that names the method, the handler is not called, and the client throws; the
  connection is ready for the next call.\<close>

theorem unknown_method_answered:
  assumes "thrift_protocol P live pending unsent" and "processMap P I fname = None"
    and "live ip" and "pending ip = enc (VStruct n fs) @ MessageEnd # cs" and "live op" and "pending op = []" and "unsent op = []"
  shows "\<exists>ip' op' op''. dispatchCall P I fname seqid ip op st = Ret (Some (ip', op'), st) \<and> live ip' \<and> pending ip' = cs \<and>
    readMessageBegin P op' = Some ((fname, T_EXCEPTION, seqid), op'') \<and> recv_result P name rd x op' = Ret None"
proof -
  note T = assms(1)
  have at: "thrift_protocol.at live pending unsent ip (enc (VStruct n fs) @ MessageEnd # cs) (unsent ip)"
    "thrift_protocol.at live pending unsent op [] []"
    using assms(3-7) by (simp_all add: thrift_protocol.at_def[OF T])
  let ?ws = "[MessageBegin fname T_EXCEPTION seqid,
      AppException (''Invalid method name: '' @ [CHR 0x27] @ fname @ [CHR 0x27]), MessageEnd]"
  obtain p1 where 1: "skip_value P T_STRUCT ip = Some p1"
    "thrift_protocol.at live pending unsent p1 (MessageEnd # cs) (unsent ip)"
    using thrift_protocol.skipped[OF T at(1)] by auto
  obtain ip' where 2: "end_message P p1 = Some ip'" "thrift_protocol.at live pending unsent ip' cs (unsent ip)"
    using thrift_protocol.message_ends[OF T 1(2)] by blast
  obtain op' where 3: "send_message P ?ws op = Some op'" "thrift_protocol.at live pending unsent op' ?ws []"
    using thrift_protocol.sent[OF T at(2), of ?ws] by auto
  obtain op'' where 4: "readMessageBegin P op' = Some ((fname, T_EXCEPTION, seqid), op'')"
    using thrift_protocol.begins[OF T 3(2)] by blast
  have "dispatchCall P I fname seqid ip op st = Ret (Some (ip', op'), st)"
    using 3(1) by (simp add: dispatchCall_def assms(2) skip_message_def 1(1) 2(1))
  with 2(2) 4 thrift_protocol.recv_exception[OF T 3(2)] show ?thesis
    by (auto simp: thrift_protocol.at_def[OF T])
qed

theorem unknown_method_answered_witness:
  "\<exists>ip' op' op''. dispatchCall wire_proto (slave_iface demo_os) ''Delete'' 3
      \<lparr>w_pending = enc (VStruct ''a'' [(''x'', 1, VI32 1)]) @ [MessageEnd], w_unsent = []\<rparr> empty_wire (demo_slave, []) =
      Ret (Some (ip', op'), (demo_slave, [])) \<and> w_pending ip' = [] \<and>
    readMessageBegin wire_proto op' = Some ((''Delete'', T_EXCEPTION, 3), op'')"
proof -
  have "processMap wire_proto (slave_iface demo_os) ''Delete'' = None" by (simp add: processMap_def)
  from unknown_method_answered[where P = wire_proto and ip = "\<lparr>w_pending = enc (VStruct ''a'' [(''x'', 1, VI32 1)]) @ [MessageEnd],
        w_unsent = []\<rparr>" and op = empty_wire and n = "''a''" and fs = "[(''x'', 1, VI32 1)]" and cs = "[]",
      OF wire.thrift_protocol_axioms this TrueI _ TrueI]
  show ?thesis by (force simp: empty_wire_def)
qed

text \<open>The range of data ports reaches the slave: the meta server passes the length of the range, an unsigned
  number of 16 bits, as a signed one, and the slave makes it unsigned again, so that for every range, also
  for those of more than 32767 ports, the slave searches the range that the meta server is configured with.\<close>

theorem port_range_kept:
  fixes start len :: "16 word"
  assumes "thrift_protocol P live pending unsent"
    and "live req" and "pending req = []" and "unsent req = []"
    and "live rep" and "pending rep = []" and "unsent rep = []" and "pasv_fits p"
  defines "rq \<equiv> InitPasv \<lparr>ip_p = p, ip_startPort = uint start, ip_portLen = uint len\<rparr>"
  shows "case InitPasvDataConnection os p (uint start) (uint len) st of
      Ret (r, out', st') \<Rightarrow> (\<exists>req' rep'. remote P (slave_iface os) rq req rep (st, out) =
        Ret (Some (Text r, req', rep'), (st', out @ out')))
    | Crash e \<Rightarrow> remote P (slave_iface os) rq req rep (st, out) = Crash e
    | Hang \<Rightarrow> remote P (slave_iface os) rq req rep (st, out) = Hang"
proof -
  note T = assms(1)
  let ?rq = "InitPasv \<lparr>ip_p = p, ip_startPort = uint start, ip_portLen = sint len\<rparr>"
  have "send_request P rq = send_request P ?rq" "recv_reply P rq = recv_reply P ?rq"
    by (simp_all add: rq_def fun_eq_iff send_InitPasvDataConnection_def InitPasvDataConnection_pargs_write_def i16_def)
  then have same: "remote P (slave_iface os) rq req rep (st, out) = remote P (slave_iface os) ?rq req rep (st, out)"
    unfolding remote_def by (simp only:)
  have "InitPasvDataConnection os p (uint start) (sint len) st = InitPasvDataConnection os p (uint start) (uint len) st"
    by (simp add: InitPasvDataConnection_def)
  then have h: "call_handler (slave_iface os) ?rq (st, out) =
      as_result Text (and_then (InitPasvDataConnection os p (uint start) (uint len) st) (\<lambda>r. returns r out))"
    by (simp add: slave_iface_def)
  have fit: "request_fits ?rq"
    using assms(8) uint_bounded[of start] order_trans[OF _ uint_ge_0[of start], of "- 2147483648"] sint_less[of len]
      sint_greater_eq[of len] by (simp add: fits_def)
  have "thrift_protocol.at live pending unsent req [] []" "thrift_protocol.at live pending unsent rep [] []"
    using assms(2-7) by (simp_all add: thrift_protocol.at_def[OF T])
  from thrift_protocol.remote_as_called[OF T this fit, of "slave_iface os" "(st, out)"]
  have "thrift_protocol.as_called live pending unsent (call_handler (slave_iface os) ?rq (st, out))
      (remote P (slave_iface os) rq req rep (st, out))"
    unfolding same h by (cases "InitPasvDataConnection os p (uint start) (uint len) st")
      (auto simp: as_result_def returns_def outcome_simps)
  then show ?thesis
    unfolding h by (cases "InitPasvDataConnection os p (uint start) (uint len) st")
      (auto simp: thrift_protocol.as_called_def[OF T] as_result_def returns_def outcome_simps)
qed

theorem port_range_kept_witness:
  "\<exists>req rep st. remote wire_proto (slave_iface demo_os) (InitPasv \<lparr>ip_p = new_PasvParams, ip_startPort = 1024,
      ip_portLen = 40000\<rparr>) empty_wire empty_wire (demo_slave, []) =
      Ret (Some (Text ''227 Entering Passive Mode (0,0,0,0,4,0)'', req, rep), st)"
proof -
  have "sprintf 50 (pasv_reply 0 1024) = Ret ''227 Entering Passive Mode (0,0,0,0,4,0)''" by code_simp
  moreover have "find_port (\<lambda>_. True) \<lparr>usStart = 1024, usLen = 40000\<rparr> 0 = Ret 1024"
    by (simp add: find_port_def random_port_def port_loop.simps outcome_simps)
  ultimately have "\<exists>out st. InitPasvDataConnection demo_os new_PasvParams 1024 40000 demo_slave =
      Ret (''227 Entering Passive Mode (0,0,0,0,4,0)'', out, st)"
    by (simp add: InitPasvDataConnection_def demo_os_def new_PasvParams_def Let_def outcome_simps)
  moreover have "pasv_fits new_PasvParams" by (simp add: pasv_fits_def fits_def new_PasvParams_def)
  ultimately show ?thesis
    using port_range_kept[OF wire.thrift_protocol_axioms, of empty_wire empty_wire new_PasvParams demo_os 1024 40000 demo_slave "[]"]
    by (auto simp: empty_wire_def)
qed

end
