(* ===== verification/ThriftNodes.thy ===== *)
theory ThriftNodes
  imports ThriftRemote TransferProps
begin

text \<open>
  The slaves as the transfer threads of the meta server reach them: every call opens a connection, does one
  remote call on it and closes it. Over any protocol that keeps the laws they keep the contract
  \<open>slave_nodes\<close>, as the handler itself does.
\<close>

section \<open>Calls over new connections\<close>

text \<open>
  One call to the slave \<open>s\<close>, on new connections \<open>p0\<close> in both directions. When the slave's process stops the
  client gets an exception.
\<close>

definition over_wire :: "'p proto \<Rightarrow> 'p \<Rightarrow> slave_info \<Rightarrow> request \<Rightarrow> slave_net \<Rightarrow> reply option \<times> slave_net" where
  "over_wire P p0 s rq net = (case remote P (slave_iface (node_os net)) rq p0 p0 (nodes net s, []) of
      Ret (r, st, out) \<Rightarrow> (map_option fst r, net\<lparr>nodes := (nodes net)(s := st), last_out := out\<rparr>)
    | _ \<Rightarrow> (None, net))"

fun stored_reply :: "reply \<Rightarrow> StorRetVal option" where
  "stored_reply (Stored v) = Some v"
| "stored_reply (Text t) = None"

fun text_reply :: "reply \<Rightarrow> string option" where
  "text_reply (Text t) = Some t"
| "text_reply (Stored v) = None"

definition thrift_rpc :: "'p proto \<Rightarrow> 'p \<Rightarrow> slave_net rpc" where
  "thrift_rpc P p0 = \<lparr>
     rpc_active_store = (\<lambda>s p fl net. map_prod (\<lambda>r. Option.bind r stored_reply) id
        (over_wire P p0 s (ActiveStore \<lparr>as_p = p, as_iflags = fl\<rparr>) net)),
     rpc_pasv_store = (\<lambda>s p fl net. map_prod (\<lambda>r. Option.bind r stored_reply) id
        (over_wire P p0 s (PasvStore \<lparr>ps_p = p, ps_iflags = fl\<rparr>) net)),
     rpc_active_retrieve = (\<lambda>s p net. map_prod (\<lambda>r. Option.bind r text_reply) id
        (over_wire P p0 s (ActiveRetrieve \<lparr>ar_p = p\<rparr>) net)),
     rpc_pasv_retrieve = (\<lambda>s p net. map_prod (\<lambda>r. Option.bind r text_reply) id
        (over_wire P p0 s (PasvRetrieve \<lparr>pr_p = p\<rparr>) net))\<rparr>"

locale connection = thrift_protocol +
  fixes p0 :: 'a
  assumes new_connection: "live p0" "pending p0 = []" "unsent p0 = []"
begin

lemma new_at: "at p0 [] []"
  using new_connection by (simp add: at_def)

lemma over_wire_returns:
  assumes "request_fits rq" and "call_handler (slave_iface (node_os net)) rq (nodes net s, []) = Ret (Inr v, st, out)"
    and "\<And>r. v = Stored r \<Longrightarrow> ret_fits r"
  shows "over_wire P p0 s rq net = (Some v, net\<lparr>nodes := (nodes net)(s := st), last_out := out\<rparr>)"
proof -
  have "as_called (call_handler (slave_iface (node_os net)) rq (nodes net s, []))
      (remote P (slave_iface (node_os net)) rq p0 p0 (nodes net s, []))"
    by (rule remote_as_called[OF new_at new_at assms(1)]) (use assms(2,3) in simp)
  then show ?thesis by (auto simp: as_called_def assms(2) over_wire_def)
qed

lemma flags_fit: "fits 32 (store_flags r)"
  by (simp add: fits_def store_flags_def O_WRONLY_def O_CREAT_def O_APPEND_def O_TRUNC_def)

text \<open>Over the wire the calls of the contract are those of the handler.\<close>

lemma active_store_same:
  assumes "active_fits p" and "rpc_active_store handler_rpc s p (store_flags r) net = (Some v, net')" and "ret_fits v"
  shows "rpc_active_store (thrift_rpc P p0) s p (store_flags r) net = (Some v, net')"
proof -
  obtain out st where a: "ActiveStoreTransfer (node_os net) p (store_flags r) (nodes net s) = (v, out, st)"
    "net' = net\<lparr>nodes := (nodes net)(s := st), last_out := out\<rparr>"
    using assms(2) by (auto simp: handler_rpc_def split: prod.splits)
  have "over_wire P p0 s (ActiveStore \<lparr>as_p = p, as_iflags = store_flags r\<rparr>) net = (Some (Stored v), net')"
    unfolding a(2) using assms(1,3) flags_fit
    by (intro over_wire_returns) (simp_all add: slave_iface_def returns_def a(1) as_result_def outcome_simps)
  then show ?thesis by (simp add: thrift_rpc_def)
qed

lemma active_retrieve_same:
  assumes "active_fits p" and "rpc_active_retrieve handler_rpc s p net = (Some v, net')"
  shows "rpc_active_retrieve (thrift_rpc P p0) s p net = (Some v, net')"
proof -
  obtain out st where a: "ActiveRetrieveTransfer (node_os net) p (nodes net s) = (v, out, st)"
    "net' = net\<lparr>nodes := (nodes net)(s := st), last_out := out\<rparr>"
    using assms(2) by (auto simp: handler_rpc_def split: prod.splits)
  have "over_wire P p0 s (ActiveRetrieve \<lparr>ar_p = p\<rparr>) net = (Some (Text v), net')"
    unfolding a(2) using assms(1)
    by (intro over_wire_returns) (simp_all add: slave_iface_def returns_def a(1) as_result_def outcome_simps)
  then show ?thesis by (simp add: thrift_rpc_def)
qed

end

sublocale connection \<subseteq> nodes: slave_nodes "thrift_rpc P p0" handler_held handler_working handler_incoming handler_delivered
proof (unfold_locales, goal_cases)
  case (1 net p s)
  from handler.store[OF 1] obtain rv net' where r:
    "rpc_active_store handler_rpc s p (store_flags (p_restart_at p)) net = (Some rv, net')"
    "rv_msg rv = ''226 Transfer complete.''" "handler_working net'"
    "rv_size rv = int (length (stored_contents (p_restart_at p) (handler_held net s (p_fid p)) (handler_incoming net)))"
    "handler_held net' s (p_fid p) = Some (stored_contents (p_restart_at p) (handler_held net s (p_fid p)) (handler_incoming net))"
    by blast
  then have "ret_fits rv" using 1(5) by (simp add: ret_fits_def fits_def)
  from active_store_same[OF 1(2) r(1) this] r show ?case by blast
next
  case (2 net p s c)
  from handler.retrieve[OF 2] active_retrieve_same[OF 2(2)] show ?case by blast
qed

context connection
begin

lemmas node_laws = nodes.store nodes.retrieve

end

interpretation wire_connection: connection wire_proto "\<lambda>_. True" w_pending w_unsent empty_wire
  by unfold_locales (simp_all add: empty_wire_def)

section \<open>The property\<close>

text \<open>C7: The slaves behind their Thrift processors keep the contract that the transfer threads of the meta
  server rely on: over any protocol that keeps the laws, a store that a working slave runs is answered 226
  with the size of the file, which then holds what it has to hold, and a retrieval delivers the file from the
  requested position on.\<close>

theorem slaves_over_thrift:
  assumes "thrift_protocol P live pend unsent" and "live p0" and "pend p0 = []" and "unsent p0 = []"
    and "handler_working net" and "active_fits p" and "0 < to_unsigned (p_transfer_buffer_size p)" and "0 \<le> p_restart_at p"
  shows "(let file = stored_contents (p_restart_at p) (handler_held net s (p_fid p)) (handler_incoming net) in
      int (length file) < 2 ^ 63 \<longrightarrow>
      (\<exists>rv net'. rpc_active_store (thrift_rpc P p0) s p (store_flags (p_restart_at p)) net = (Some rv, net') \<and>
        rv_msg rv = ''226 Transfer complete.'' \<and> rv_size rv = int (length file) \<and> handler_working net' \<and>
        handler_held net' s (p_fid p) = Some file)) \<and>
    (\<forall>c. handler_held net s (p_fid p) = Some c \<longrightarrow>
      (\<exists>net'. rpc_active_retrieve (thrift_rpc P p0) s p net = (Some ''226 Transfer complete.'', net') \<and>
        handler_working net' \<and> handler_delivered net' = drop (nat (p_restart_at p)) c))"
proof -
  have c: "connection P live pend unsent p0"
    using assms(1-4) by (simp add: connection_def connection_axioms_def)
  note store = connection.node_laws(1)[OF c assms(5-8)] and retrieve = connection.node_laws(2)[OF c assms(5-8)]
  show ?thesis unfolding Let_def using store[of s] retrieve[of s] by blast
qed

theorem slaves_over_thrift_witness:
  "\<exists>rv net'. rpc_active_store (thrift_rpc wire_proto empty_wire) \<lparr>si_host = ''s1'', si_port = Some 9090\<rparr>
      (new_ActiveParams\<lparr>p_fid := 4, p_transfer_buffer_size := 2\<rparr>)
      (store_flags 0) demo_net = (Some rv, net') \<and>
     rv_msg rv = ''226 Transfer complete.'' \<and> rv_size rv = 5 \<and> handler_held net' \<lparr>si_host = ''s1'', si_port = Some 9090\<rparr> 4 = Some ''abcde''"
proof -
  let ?p = "new_ActiveParams\<lparr>p_fid := 4, p_transfer_buffer_size := 2\<rparr>"
  have p: "active_fits ?p" "0 < to_unsigned (p_transfer_buffer_size ?p)" "0 \<le> p_restart_at ?p"
    by (simp_all add: new_ActiveParams_def new_PasvParams_def PasvParams.extend_def ActiveParams.fields_def
        active_fits_def pasv_fits_def fits_def to_unsigned_def)
  have c: "w_pending empty_wire = []" "w_unsent empty_wire = []" by (simp_all add: empty_wire_def)
  have inc: "handler_incoming demo_net = ''abcde''" by (simp add: handler_incoming_def demo_net_def demo_os_def)
  have f: "p_restart_at ?p = 0" "p_fid ?p = 4"
    by (simp_all add: new_ActiveParams_def new_PasvParams_def PasvParams.extend_def ActiveParams.fields_def)
  from slaves_over_thrift[OF wire.thrift_protocol_axioms TrueI c demo_working p, of "\<lparr>si_host = ''s1'', si_port = Some 9090\<rparr>"] show ?thesis
    by (simp add: f inc stored_contents_def) blast
qed

end
