(* ===== verification/ThriftValues.thy ===== *)
theory ThriftValues
  imports ThriftService
begin

text \<open>
  The rest of what Thrift generates for the structures, the arguments and the results: setters, comparison and
  \<open>swap\<close> (slave_services_types.h, slave_services_types.cpp, slave_services.h). Comparison looks at the members and
  not at \<open>__isset\<close>; \<open>swap\<close> exchanges both; a setter leaves \<open>__isset\<close> as it is.
\<close>

section \<open>Exchanging members\<close>

text \<open>\<open>std::swap\<close> of one member, and of \<open>__isset\<close>.\<close>

definition swap_member :: "('a \<Rightarrow> 'v) \<Rightarrow> ('v \<Rightarrow> 'a \<Rightarrow> 'a) \<Rightarrow> 'a isset \<times> 'a isset \<Rightarrow> 'a isset \<times> 'a isset" where
  "swap_member get upd = (\<lambda>((a, i), (b, j)). ((upd (get b) a, i), (upd (get a) b, j)))"

definition swap_isset :: "'a isset \<times> 'a isset \<Rightarrow> 'a isset \<times> 'a isset" where
  "swap_isset = (\<lambda>((a, i), (b, j)). ((a, j), (b, i)))"

section \<open>The structures\<close>

subsection \<open>\<open>ActiveParams\<close>\<close>

definition ActiveParams_set_client_ip :: "int \<Rightarrow> ActiveParams \<Rightarrow> ActiveParams" where "ActiveParams_set_client_ip v a = a\<lparr>p_client_ip := v\<rparr>"

definition ActiveParams_set_client_port :: "int \<Rightarrow> ActiveParams \<Rightarrow> ActiveParams" where "ActiveParams_set_client_port v a = a\<lparr>p_client_port := v\<rparr>"

definition ActiveParams_set_fid :: "int \<Rightarrow> ActiveParams \<Rightarrow> ActiveParams" where "ActiveParams_set_fid v a = a\<lparr>p_fid := v\<rparr>"

definition ActiveParams_set_restart_at :: "int \<Rightarrow> ActiveParams \<Rightarrow> ActiveParams" where "ActiveParams_set_restart_at v a = a\<lparr>p_restart_at := v\<rparr>"

definition ActiveParams_set_transfer_buffer_size :: "int \<Rightarrow> ActiveParams \<Rightarrow> ActiveParams" where "ActiveParams_set_transfer_buffer_size v a = a\<lparr>p_transfer_buffer_size := v\<rparr>"

definition ActiveParams_set_server_ip :: "int \<Rightarrow> ActiveParams \<Rightarrow> ActiveParams" where "ActiveParams_set_server_ip v a = a\<lparr>p_server_ip := v\<rparr>"

definition ActiveParams_set_server_port :: "int \<Rightarrow> ActiveParams \<Rightarrow> ActiveParams" where "ActiveParams_set_server_port v a = a\<lparr>p_server_port := v\<rparr>"

definition ActiveParams_set_trans_id :: "int \<Rightarrow> ActiveParams \<Rightarrow> ActiveParams" where "ActiveParams_set_trans_id v a = a\<lparr>p_trans_id := v\<rparr>"

definition ActiveParams_eq :: "ActiveParams \<Rightarrow> ActiveParams \<Rightarrow> bool" where
  "ActiveParams_eq a b =
     (if \<not> (p_client_ip a = p_client_ip b) then False
      else if \<not> (p_client_port a = p_client_port b) then False
      else if \<not> (p_fid a = p_fid b) then False
      else if \<not> (p_restart_at a = p_restart_at b) then False
      else if \<not> (p_transfer_buffer_size a = p_transfer_buffer_size b) then False
      else if \<not> (p_server_ip a = p_server_ip b) then False
      else if \<not> (p_server_port a = p_server_port b) then False
      else if \<not> (p_trans_id a = p_trans_id b) then False
      else True)"

definition ActiveParams_neq :: "ActiveParams \<Rightarrow> ActiveParams \<Rightarrow> bool" where "ActiveParams_neq a b \<longleftrightarrow> \<not> ActiveParams_eq a b"

definition swap_ActiveParams :: "ActiveParams isset \<times> ActiveParams isset \<Rightarrow> ActiveParams isset \<times> ActiveParams isset" where
  "swap_ActiveParams x = swap_isset (
     swap_member p_trans_id (\<lambda>v a. a\<lparr>p_trans_id := v\<rparr>) (
     swap_member p_server_port (\<lambda>v a. a\<lparr>p_server_port := v\<rparr>) (
     swap_member p_server_ip (\<lambda>v a. a\<lparr>p_server_ip := v\<rparr>) (
     swap_member p_transfer_buffer_size (\<lambda>v a. a\<lparr>p_transfer_buffer_size := v\<rparr>) (
     swap_member p_restart_at (\<lambda>v a. a\<lparr>p_restart_at := v\<rparr>) (
     swap_member p_fid (\<lambda>v a. a\<lparr>p_fid := v\<rparr>) (
     swap_member p_client_port (\<lambda>v a. a\<lparr>p_client_port := v\<rparr>) (
     swap_member p_client_ip (\<lambda>v a. a\<lparr>p_client_ip := v\<rparr>) x))))))))"

lemma swap_ActiveParams_correct: "swap_ActiveParams x = (snd x, fst x)"
  by (cases x) (auto simp: swap_ActiveParams_def swap_member_def swap_isset_def)

lemma ActiveParams_eq_iff: "ActiveParams_eq a b \<longleftrightarrow> a = b" "ActiveParams_neq a b \<longleftrightarrow> a \<noteq> b"
  by (auto simp: ActiveParams_eq_def ActiveParams_neq_def)

subsection \<open>\<open>PasvParams\<close>\<close>

definition PasvParams_set_server_ip :: "int \<Rightarrow> PasvParams \<Rightarrow> PasvParams" where "PasvParams_set_server_ip v a = a\<lparr>p_server_ip := v\<rparr>"

definition PasvParams_set_server_port :: "int \<Rightarrow> PasvParams \<Rightarrow> PasvParams" where "PasvParams_set_server_port v a = a\<lparr>p_server_port := v\<rparr>"

definition PasvParams_set_fid :: "int \<Rightarrow> PasvParams \<Rightarrow> PasvParams" where "PasvParams_set_fid v a = a\<lparr>p_fid := v\<rparr>"

definition PasvParams_set_restart_at :: "int \<Rightarrow> PasvParams \<Rightarrow> PasvParams" where "PasvParams_set_restart_at v a = a\<lparr>p_restart_at := v\<rparr>"

definition PasvParams_set_transfer_buffer_size :: "int \<Rightarrow> PasvParams \<Rightarrow> PasvParams" where "PasvParams_set_transfer_buffer_size v a = a\<lparr>p_transfer_buffer_size := v\<rparr>"

definition PasvParams_set_trans_id :: "int \<Rightarrow> PasvParams \<Rightarrow> PasvParams" where "PasvParams_set_trans_id v a = a\<lparr>p_trans_id := v\<rparr>"

definition PasvParams_eq :: "PasvParams \<Rightarrow> PasvParams \<Rightarrow> bool" where
  "PasvParams_eq a b =
     (if \<not> (p_server_ip a = p_server_ip b) then False
      else if \<not> (p_server_port a = p_server_port b) then False
      else if \<not> (p_fid a = p_fid b) then False
      else if \<not> (p_restart_at a = p_restart_at b) then False
      else if \<not> (p_transfer_buffer_size a = p_transfer_buffer_size b) then False
      else if \<not> (p_trans_id a = p_trans_id b) then False
      else True)"

definition PasvParams_neq :: "PasvParams \<Rightarrow> PasvParams \<Rightarrow> bool" where "PasvParams_neq a b \<longleftrightarrow> \<not> PasvParams_eq a b"

definition swap_PasvParams :: "PasvParams isset \<times> PasvParams isset \<Rightarrow> PasvParams isset \<times> PasvParams isset" where
  "swap_PasvParams x = swap_isset (
     swap_member p_trans_id (\<lambda>v a. a\<lparr>p_trans_id := v\<rparr>) (
     swap_member p_transfer_buffer_size (\<lambda>v a. a\<lparr>p_transfer_buffer_size := v\<rparr>) (
     swap_member p_restart_at (\<lambda>v a. a\<lparr>p_restart_at := v\<rparr>) (
     swap_member p_fid (\<lambda>v a. a\<lparr>p_fid := v\<rparr>) (
     swap_member p_server_port (\<lambda>v a. a\<lparr>p_server_port := v\<rparr>) (
     swap_member p_server_ip (\<lambda>v a. a\<lparr>p_server_ip := v\<rparr>) x))))))"

lemma swap_PasvParams_correct: "swap_PasvParams x = (snd x, fst x)"
  by (cases x) (auto simp: swap_PasvParams_def swap_member_def swap_isset_def)

lemma PasvParams_eq_iff: "PasvParams_eq a b \<longleftrightarrow> a = b" "PasvParams_neq a b \<longleftrightarrow> a \<noteq> b"
  by (auto simp: PasvParams_eq_def PasvParams_neq_def)

subsection \<open>\<open>StorRetVal\<close>\<close>

definition StorRetVal_set_msg :: "string \<Rightarrow> StorRetVal \<Rightarrow> StorRetVal" where "StorRetVal_set_msg v a = a\<lparr>rv_msg := v\<rparr>"

definition StorRetVal_set_size :: "int \<Rightarrow> StorRetVal \<Rightarrow> StorRetVal" where "StorRetVal_set_size v a = a\<lparr>rv_size := v\<rparr>"

definition StorRetVal_eq :: "StorRetVal \<Rightarrow> StorRetVal \<Rightarrow> bool" where
  "StorRetVal_eq a b =
     (if \<not> (rv_msg a = rv_msg b) then False
      else if \<not> (rv_size a = rv_size b) then False
      else True)"

definition StorRetVal_neq :: "StorRetVal \<Rightarrow> StorRetVal \<Rightarrow> bool" where "StorRetVal_neq a b \<longleftrightarrow> \<not> StorRetVal_eq a b"

definition swap_StorRetVal :: "StorRetVal isset \<times> StorRetVal isset \<Rightarrow> StorRetVal isset \<times> StorRetVal isset" where
  "swap_StorRetVal x = swap_isset (
     swap_member rv_size (\<lambda>v a. a\<lparr>rv_size := v\<rparr>) (
     swap_member rv_msg (\<lambda>v a. a\<lparr>rv_msg := v\<rparr>) x))"

lemma swap_StorRetVal_correct: "swap_StorRetVal x = (snd x, fst x)"
  by (cases x) (auto simp: swap_StorRetVal_def swap_member_def swap_isset_def)

lemma StorRetVal_eq_iff: "StorRetVal_eq a b \<longleftrightarrow> a = b" "StorRetVal_neq a b \<longleftrightarrow> a \<noteq> b"
  by (auto simp: StorRetVal_eq_def StorRetVal_neq_def)

section \<open>The arguments and results\<close>

subsection \<open>\<open>InitPasvDataConnection\<close>\<close>

definition InitPasvDataConnection_args_set_p :: "PasvParams \<Rightarrow> InitPasvDataConnection_args \<Rightarrow> InitPasvDataConnection_args" where "InitPasvDataConnection_args_set_p v a = a\<lparr>ip_p := v\<rparr>"

definition InitPasvDataConnection_args_set_startPort :: "int \<Rightarrow> InitPasvDataConnection_args \<Rightarrow> InitPasvDataConnection_args" where "InitPasvDataConnection_args_set_startPort v a = a\<lparr>ip_startPort := v\<rparr>"

definition InitPasvDataConnection_args_set_portLen :: "int \<Rightarrow> InitPasvDataConnection_args \<Rightarrow> InitPasvDataConnection_args" where "InitPasvDataConnection_args_set_portLen v a = a\<lparr>ip_portLen := v\<rparr>"

definition InitPasvDataConnection_args_eq :: "InitPasvDataConnection_args \<Rightarrow> InitPasvDataConnection_args \<Rightarrow> bool" where
  "InitPasvDataConnection_args_eq a b =
     (if \<not> (PasvParams_eq (ip_p a) (ip_p b)) then False
      else if \<not> (ip_startPort a = ip_startPort b) then False
      else if \<not> (ip_portLen a = ip_portLen b) then False
      else True)"

definition InitPasvDataConnection_args_neq :: "InitPasvDataConnection_args \<Rightarrow> InitPasvDataConnection_args \<Rightarrow> bool" where "InitPasvDataConnection_args_neq a b \<longleftrightarrow> \<not> InitPasvDataConnection_args_eq a b"

lemma InitPasvDataConnection_args_eq_iff: "InitPasvDataConnection_args_eq a b \<longleftrightarrow> a = b" "InitPasvDataConnection_args_neq a b \<longleftrightarrow> a \<noteq> b"
  by (auto simp: InitPasvDataConnection_args_eq_def InitPasvDataConnection_args_neq_def PasvParams_eq_iff)

definition InitPasvDataConnection_result_set_success :: "string \<Rightarrow> string isset \<Rightarrow> string isset" where "InitPasvDataConnection_result_set_success v a = (v, snd a)"

definition InitPasvDataConnection_result_eq :: "string isset \<Rightarrow> string isset \<Rightarrow> bool" where "InitPasvDataConnection_result_eq a b = (if \<not> (fst a = fst b) then False else True)"

definition InitPasvDataConnection_result_neq :: "string isset \<Rightarrow> string isset \<Rightarrow> bool" where "InitPasvDataConnection_result_neq a b \<longleftrightarrow> \<not> InitPasvDataConnection_result_eq a b"

lemma InitPasvDataConnection_result_eq_iff: "InitPasvDataConnection_result_eq a b \<longleftrightarrow> fst a = fst b" "InitPasvDataConnection_result_neq a b \<longleftrightarrow> fst a \<noteq> fst b"
  by (auto simp: InitPasvDataConnection_result_eq_def InitPasvDataConnection_result_neq_def)

subsection \<open>\<open>OpenPasvDataConnection\<close>\<close>

definition OpenPasvDataConnection_args_set_p :: "PasvParams \<Rightarrow> OpenPasvDataConnection_args \<Rightarrow> OpenPasvDataConnection_args" where "OpenPasvDataConnection_args_set_p v a = a\<lparr>op_p := v\<rparr>"

definition OpenPasvDataConnection_args_eq :: "OpenPasvDataConnection_args \<Rightarrow> OpenPasvDataConnection_args \<Rightarrow> bool" where
  "OpenPasvDataConnection_args_eq a b =
     (if \<not> (PasvParams_eq (op_p a) (op_p b)) then False
      else True)"

definition OpenPasvDataConnection_args_neq :: "OpenPasvDataConnection_args \<Rightarrow> OpenPasvDataConnection_args \<Rightarrow> bool" where "OpenPasvDataConnection_args_neq a b \<longleftrightarrow> \<not> OpenPasvDataConnection_args_eq a b"

lemma OpenPasvDataConnection_args_eq_iff: "OpenPasvDataConnection_args_eq a b \<longleftrightarrow> a = b" "OpenPasvDataConnection_args_neq a b \<longleftrightarrow> a \<noteq> b"
  by (auto simp: OpenPasvDataConnection_args_eq_def OpenPasvDataConnection_args_neq_def PasvParams_eq_iff)

definition OpenPasvDataConnection_result_set_success :: "string \<Rightarrow> string isset \<Rightarrow> string isset" where "OpenPasvDataConnection_result_set_success v a = (v, snd a)"

definition OpenPasvDataConnection_result_eq :: "string isset \<Rightarrow> string isset \<Rightarrow> bool" where "OpenPasvDataConnection_result_eq a b = (if \<not> (fst a = fst b) then False else True)"

definition OpenPasvDataConnection_result_neq :: "string isset \<Rightarrow> string isset \<Rightarrow> bool" where "OpenPasvDataConnection_result_neq a b \<longleftrightarrow> \<not> OpenPasvDataConnection_result_eq a b"

lemma OpenPasvDataConnection_result_eq_iff: "OpenPasvDataConnection_result_eq a b \<longleftrightarrow> fst a = fst b" "OpenPasvDataConnection_result_neq a b \<longleftrightarrow> fst a \<noteq> fst b"
  by (auto simp: OpenPasvDataConnection_result_eq_def OpenPasvDataConnection_result_neq_def)

subsection \<open>\<open>ActiveStoreTransfer\<close>\<close>

definition ActiveStoreTransfer_args_set_p :: "ActiveParams \<Rightarrow> ActiveStoreTransfer_args \<Rightarrow> ActiveStoreTransfer_args" where "ActiveStoreTransfer_args_set_p v a = a\<lparr>as_p := v\<rparr>"

definition ActiveStoreTransfer_args_set_iflags :: "int \<Rightarrow> ActiveStoreTransfer_args \<Rightarrow> ActiveStoreTransfer_args" where "ActiveStoreTransfer_args_set_iflags v a = a\<lparr>as_iflags := v\<rparr>"

definition ActiveStoreTransfer_args_eq :: "ActiveStoreTransfer_args \<Rightarrow> ActiveStoreTransfer_args \<Rightarrow> bool" where
  "ActiveStoreTransfer_args_eq a b =
     (if \<not> (ActiveParams_eq (as_p a) (as_p b)) then False
      else if \<not> (as_iflags a = as_iflags b) then False
      else True)"

definition ActiveStoreTransfer_args_neq :: "ActiveStoreTransfer_args \<Rightarrow> ActiveStoreTransfer_args \<Rightarrow> bool" where "ActiveStoreTransfer_args_neq a b \<longleftrightarrow> \<not> ActiveStoreTransfer_args_eq a b"

lemma ActiveStoreTransfer_args_eq_iff: "ActiveStoreTransfer_args_eq a b \<longleftrightarrow> a = b" "ActiveStoreTransfer_args_neq a b \<longleftrightarrow> a \<noteq> b"
  by (auto simp: ActiveStoreTransfer_args_eq_def ActiveStoreTransfer_args_neq_def ActiveParams_eq_iff)

definition ActiveStoreTransfer_result_set_success :: "StorRetVal \<Rightarrow> StorRetVal isset \<Rightarrow> StorRetVal isset" where "ActiveStoreTransfer_result_set_success v a = (v, snd a)"

definition ActiveStoreTransfer_result_eq :: "StorRetVal isset \<Rightarrow> StorRetVal isset \<Rightarrow> bool" where "ActiveStoreTransfer_result_eq a b = (if \<not> (StorRetVal_eq (fst a) (fst b)) then False else True)"

definition ActiveStoreTransfer_result_neq :: "StorRetVal isset \<Rightarrow> StorRetVal isset \<Rightarrow> bool" where "ActiveStoreTransfer_result_neq a b \<longleftrightarrow> \<not> ActiveStoreTransfer_result_eq a b"

lemma ActiveStoreTransfer_result_eq_iff: "ActiveStoreTransfer_result_eq a b \<longleftrightarrow> fst a = fst b" "ActiveStoreTransfer_result_neq a b \<longleftrightarrow> fst a \<noteq> fst b"
  by (auto simp: ActiveStoreTransfer_result_eq_def ActiveStoreTransfer_result_neq_def StorRetVal_eq_iff)

subsection \<open>\<open>PasvStoreTransfer\<close>\<close>

definition PasvStoreTransfer_args_set_p :: "PasvParams \<Rightarrow> PasvStoreTransfer_args \<Rightarrow> PasvStoreTransfer_args" where "PasvStoreTransfer_args_set_p v a = a\<lparr>ps_p := v\<rparr>"

definition PasvStoreTransfer_args_set_iflags :: "int \<Rightarrow> PasvStoreTransfer_args \<Rightarrow> PasvStoreTransfer_args" where "PasvStoreTransfer_args_set_iflags v a = a\<lparr>ps_iflags := v\<rparr>"

definition PasvStoreTransfer_args_eq :: "PasvStoreTransfer_args \<Rightarrow> PasvStoreTransfer_args \<Rightarrow> bool" where
  "PasvStoreTransfer_args_eq a b =
     (if \<not> (PasvParams_eq (ps_p a) (ps_p b)) then False
      else if \<not> (ps_iflags a = ps_iflags b) then False
      else True)"

definition PasvStoreTransfer_args_neq :: "PasvStoreTransfer_args \<Rightarrow> PasvStoreTransfer_args \<Rightarrow> bool" where "PasvStoreTransfer_args_neq a b \<longleftrightarrow> \<not> PasvStoreTransfer_args_eq a b"

lemma PasvStoreTransfer_args_eq_iff: "PasvStoreTransfer_args_eq a b \<longleftrightarrow> a = b" "PasvStoreTransfer_args_neq a b \<longleftrightarrow> a \<noteq> b"
  by (auto simp: PasvStoreTransfer_args_eq_def PasvStoreTransfer_args_neq_def PasvParams_eq_iff)

definition PasvStoreTransfer_result_set_success :: "StorRetVal \<Rightarrow> StorRetVal isset \<Rightarrow> StorRetVal isset" where "PasvStoreTransfer_result_set_success v a = (v, snd a)"

definition PasvStoreTransfer_result_eq :: "StorRetVal isset \<Rightarrow> StorRetVal isset \<Rightarrow> bool" where "PasvStoreTransfer_result_eq a b = (if \<not> (StorRetVal_eq (fst a) (fst b)) then False else True)"

definition PasvStoreTransfer_result_neq :: "StorRetVal isset \<Rightarrow> StorRetVal isset \<Rightarrow> bool" where "PasvStoreTransfer_result_neq a b \<longleftrightarrow> \<not> PasvStoreTransfer_result_eq a b"

lemma PasvStoreTransfer_result_eq_iff: "PasvStoreTransfer_result_eq a b \<longleftrightarrow> fst a = fst b" "PasvStoreTransfer_result_neq a b \<longleftrightarrow> fst a \<noteq> fst b"
  by (auto simp: PasvStoreTransfer_result_eq_def PasvStoreTransfer_result_neq_def StorRetVal_eq_iff)

subsection \<open>\<open>ActiveRetrieveTransfer\<close>\<close>

definition ActiveRetrieveTransfer_args_set_p :: "ActiveParams \<Rightarrow> ActiveRetrieveTransfer_args \<Rightarrow> ActiveRetrieveTransfer_args" where "ActiveRetrieveTransfer_args_set_p v a = a\<lparr>ar_p := v\<rparr>"

definition ActiveRetrieveTransfer_args_eq :: "ActiveRetrieveTransfer_args \<Rightarrow> ActiveRetrieveTransfer_args \<Rightarrow> bool" where
  "ActiveRetrieveTransfer_args_eq a b =
     (if \<not> (ActiveParams_eq (ar_p a) (ar_p b)) then False
      else True)"

definition ActiveRetrieveTransfer_args_neq :: "ActiveRetrieveTransfer_args \<Rightarrow> ActiveRetrieveTransfer_args \<Rightarrow> bool" where "ActiveRetrieveTransfer_args_neq a b \<longleftrightarrow> \<not> ActiveRetrieveTransfer_args_eq a b"

lemma ActiveRetrieveTransfer_args_eq_iff: "ActiveRetrieveTransfer_args_eq a b \<longleftrightarrow> a = b" "ActiveRetrieveTransfer_args_neq a b \<longleftrightarrow> a \<noteq> b"
  by (auto simp: ActiveRetrieveTransfer_args_eq_def ActiveRetrieveTransfer_args_neq_def ActiveParams_eq_iff)

definition ActiveRetrieveTransfer_result_set_success :: "string \<Rightarrow> string isset \<Rightarrow> string isset" where "ActiveRetrieveTransfer_result_set_success v a = (v, snd a)"

definition ActiveRetrieveTransfer_result_eq :: "string isset \<Rightarrow> string isset \<Rightarrow> bool" where "ActiveRetrieveTransfer_result_eq a b = (if \<not> (fst a = fst b) then False else True)"

definition ActiveRetrieveTransfer_result_neq :: "string isset \<Rightarrow> string isset \<Rightarrow> bool" where "ActiveRetrieveTransfer_result_neq a b \<longleftrightarrow> \<not> ActiveRetrieveTransfer_result_eq a b"

lemma ActiveRetrieveTransfer_result_eq_iff: "ActiveRetrieveTransfer_result_eq a b \<longleftrightarrow> fst a = fst b" "ActiveRetrieveTransfer_result_neq a b \<longleftrightarrow> fst a \<noteq> fst b"
  by (auto simp: ActiveRetrieveTransfer_result_eq_def ActiveRetrieveTransfer_result_neq_def)

subsection \<open>\<open>PasvRetrieveTransfer\<close>\<close>

definition PasvRetrieveTransfer_args_set_p :: "PasvParams \<Rightarrow> PasvRetrieveTransfer_args \<Rightarrow> PasvRetrieveTransfer_args" where "PasvRetrieveTransfer_args_set_p v a = a\<lparr>pr_p := v\<rparr>"

definition PasvRetrieveTransfer_args_eq :: "PasvRetrieveTransfer_args \<Rightarrow> PasvRetrieveTransfer_args \<Rightarrow> bool" where
  "PasvRetrieveTransfer_args_eq a b =
     (if \<not> (PasvParams_eq (pr_p a) (pr_p b)) then False
      else True)"

definition PasvRetrieveTransfer_args_neq :: "PasvRetrieveTransfer_args \<Rightarrow> PasvRetrieveTransfer_args \<Rightarrow> bool" where "PasvRetrieveTransfer_args_neq a b \<longleftrightarrow> \<not> PasvRetrieveTransfer_args_eq a b"

lemma PasvRetrieveTransfer_args_eq_iff: "PasvRetrieveTransfer_args_eq a b \<longleftrightarrow> a = b" "PasvRetrieveTransfer_args_neq a b \<longleftrightarrow> a \<noteq> b"
  by (auto simp: PasvRetrieveTransfer_args_eq_def PasvRetrieveTransfer_args_neq_def PasvParams_eq_iff)

definition PasvRetrieveTransfer_result_set_success :: "string \<Rightarrow> string isset \<Rightarrow> string isset" where "PasvRetrieveTransfer_result_set_success v a = (v, snd a)"

definition PasvRetrieveTransfer_result_eq :: "string isset \<Rightarrow> string isset \<Rightarrow> bool" where "PasvRetrieveTransfer_result_eq a b = (if \<not> (fst a = fst b) then False else True)"

definition PasvRetrieveTransfer_result_neq :: "string isset \<Rightarrow> string isset \<Rightarrow> bool" where "PasvRetrieveTransfer_result_neq a b \<longleftrightarrow> \<not> PasvRetrieveTransfer_result_eq a b"

lemma PasvRetrieveTransfer_result_eq_iff: "PasvRetrieveTransfer_result_eq a b \<longleftrightarrow> fst a = fst b" "PasvRetrieveTransfer_result_neq a b \<longleftrightarrow> fst a \<noteq> fst b"
  by (auto simp: PasvRetrieveTransfer_result_eq_def PasvRetrieveTransfer_result_neq_def)

end
