(* ===== verification/ThriftHandlers.thy ===== *)
theory ThriftHandlers
  imports ThriftValues
begin

text \<open>
  The classes around the interface of the slaves that Thrift generates (slave_services.h, slave_services.cpp):
  the empty implementation, the one that calls several others, and the factories. An implementation gets
  the variable \<open>_return\<close> as it is, and may leave it alone.
\<close>

section \<open>Implementations with a variable for the result\<close>

type_synonym ('r, 's) iface_call = "'r \<Rightarrow> 's \<Rightarrow> ((string + 'r) \<times> 's) outcome"

record 's servant =
  sv_InitPasvDataConnection :: "PasvParams \<Rightarrow> int \<Rightarrow> int \<Rightarrow> (string, 's) iface_call"
  sv_OpenPasvDataConnection :: "PasvParams \<Rightarrow> (string, 's) iface_call"
  sv_ActiveStoreTransfer :: "ActiveParams \<Rightarrow> int \<Rightarrow> (StorRetVal, 's) iface_call"
  sv_PasvStoreTransfer :: "PasvParams \<Rightarrow> int \<Rightarrow> (StorRetVal, 's) iface_call"
  sv_ActiveRetrieveTransfer :: "ActiveParams \<Rightarrow> (string, 's) iface_call"
  sv_PasvRetrieveTransfer :: "PasvParams \<Rightarrow> (string, 's) iface_call"

text \<open>\<open>slave_servicesNull\<close>: nothing is done.\<close>

definition null_method :: "('r, 's) iface_call" where
  "null_method r s = Ret (Inr r, s)"

definition slave_servicesNull :: "'s servant" where
  "slave_servicesNull = \<lparr>sv_InitPasvDataConnection = (\<lambda>_ _ _. null_method),
     sv_OpenPasvDataConnection = (\<lambda>_. null_method),
     sv_ActiveStoreTransfer = (\<lambda>_ _. null_method),
     sv_PasvStoreTransfer = (\<lambda>_ _. null_method),
     sv_ActiveRetrieveTransfer = (\<lambda>_. null_method),
     sv_PasvRetrieveTransfer = (\<lambda>_. null_method)\<rparr>"

section \<open>Several implementations\<close>

text \<open>
  A method of \<open>slave_servicesMultiface\<close>: the loop from \<open>i\<close> on calls the methods \<open>fs\<close> of all implementations but the last,
  which is called behind it. The number of implementations is a \<open>size_t\<close>, so that one less than 0 is 2 to the 64 minus 1;
  an implementation behind the end of the vector is not there. An exception leaves the method.
\<close>

function multi_method :: "('r, 's) iface_call list \<Rightarrow> nat \<Rightarrow> ('r, 's) iface_call" where
  "multi_method fs i r s =
     (if length fs \<le> i then Crash OutOfBounds
      else if (word_of_nat i :: 64 word) < word_of_nat (length fs) - 1
      then and_then ((fs ! i) r s) (\<lambda>(res, s'). case res of
          Inl what \<Rightarrow> Ret (Inl what, s')
        | Inr r' \<Rightarrow> multi_method fs (Suc i) r' s')
      else (fs ! i) r s)"
  by pat_completeness auto
termination by (relation "measure (\<lambda>(fs, i, _). length fs - i)") auto

declare multi_method.simps [simp del]

definition multi_InitPasvDataConnection :: "'s servant list \<Rightarrow> PasvParams \<Rightarrow> int \<Rightarrow> int \<Rightarrow> (string, 's) iface_call" where
  "multi_InitPasvDataConnection ifaces p startPort portLen = multi_method (map (\<lambda>f. sv_InitPasvDataConnection f p startPort portLen) ifaces) 0"

definition multi_OpenPasvDataConnection :: "'s servant list \<Rightarrow> PasvParams \<Rightarrow> (string, 's) iface_call" where
  "multi_OpenPasvDataConnection ifaces p = multi_method (map (\<lambda>f. sv_OpenPasvDataConnection f p) ifaces) 0"

definition multi_ActiveStoreTransfer :: "'s servant list \<Rightarrow> ActiveParams \<Rightarrow> int \<Rightarrow> (StorRetVal, 's) iface_call" where
  "multi_ActiveStoreTransfer ifaces p iflags = multi_method (map (\<lambda>f. sv_ActiveStoreTransfer f p iflags) ifaces) 0"

definition multi_PasvStoreTransfer :: "'s servant list \<Rightarrow> PasvParams \<Rightarrow> int \<Rightarrow> (StorRetVal, 's) iface_call" where
  "multi_PasvStoreTransfer ifaces p iflags = multi_method (map (\<lambda>f. sv_PasvStoreTransfer f p iflags) ifaces) 0"

definition multi_ActiveRetrieveTransfer :: "'s servant list \<Rightarrow> ActiveParams \<Rightarrow> (string, 's) iface_call" where
  "multi_ActiveRetrieveTransfer ifaces p = multi_method (map (\<lambda>f. sv_ActiveRetrieveTransfer f p) ifaces) 0"

definition multi_PasvRetrieveTransfer :: "'s servant list \<Rightarrow> PasvParams \<Rightarrow> (string, 's) iface_call" where
  "multi_PasvRetrieveTransfer ifaces p = multi_method (map (\<lambda>f. sv_PasvRetrieveTransfer f p) ifaces) 0"

definition slave_servicesMultiface :: "'s servant list \<Rightarrow> 's servant" where
  "slave_servicesMultiface ifaces = \<lparr>sv_InitPasvDataConnection = multi_InitPasvDataConnection ifaces,
     sv_OpenPasvDataConnection = multi_OpenPasvDataConnection ifaces,
     sv_ActiveStoreTransfer = multi_ActiveStoreTransfer ifaces,
     sv_PasvStoreTransfer = multi_PasvStoreTransfer ifaces,
     sv_ActiveRetrieveTransfer = multi_ActiveRetrieveTransfer ifaces,
     sv_PasvRetrieveTransfer = multi_PasvRetrieveTransfer ifaces\<rparr>"

section \<open>Factories and processors\<close>

text \<open>A processor calls the implementation with a new result.\<close>

definition processor_iface :: "'s servant \<Rightarrow> 's iface" where
  "processor_iface f = \<lparr>if_InitPasvDataConnection = (\<lambda>p startPort portLen. sv_InitPasvDataConnection f p startPort portLen []),
     if_OpenPasvDataConnection = (\<lambda>p. sv_OpenPasvDataConnection f p []),
     if_ActiveStoreTransfer = (\<lambda>p iflags. sv_ActiveStoreTransfer f p iflags new_StorRetVal),
     if_PasvStoreTransfer = (\<lambda>p iflags. sv_PasvStoreTransfer f p iflags new_StorRetVal),
     if_ActiveRetrieveTransfer = (\<lambda>p. sv_ActiveRetrieveTransfer f p []),
     if_PasvRetrieveTransfer = (\<lambda>p. sv_PasvRetrieveTransfer f p [])\<rparr>"

text \<open>
  A factory gives the implementation for a connection; the singleton factory has the same for all. The processor of a
  connection dispatches to it. Releasing an implementation does nothing in the singleton factory.
\<close>

type_synonym ('k, 's) iface_factory = "'k \<Rightarrow> 's servant"

definition IfSingletonFactory :: "'s servant \<Rightarrow> ('k, 's) iface_factory" where
  "IfSingletonFactory f conn = f"

definition getProcessor :: "'p proto \<Rightarrow> ('k, 's) iface_factory \<Rightarrow> 'k \<Rightarrow>
    string \<Rightarrow> int \<Rightarrow> 'p \<Rightarrow> 'p \<Rightarrow> 's \<Rightarrow> (('p \<times> 'p) option \<times> 's) outcome" where
  "getProcessor P factory conn = dispatchCall P (processor_iface (factory conn))"

section \<open>What several implementations do\<close>

text \<open>The reference: one after the other, each with the result of the one before.\<close>

fun in_turn :: "('r, 's) iface_call list \<Rightarrow> ('r, 's) iface_call" where
  "in_turn [] r s = Ret (Inr r, s)"
| "in_turn (f # fs) r s = and_then (f r s) (\<lambda>(res, s'). case res of
      Inl what \<Rightarrow> Ret (Inl what, s') | Inr r' \<Rightarrow> in_turn fs r' s')"

lemma in_turn_last: "in_turn [f] r s = f r s"
  by (cases "f r s") (auto split: sum.splits prod.splits)

lemma multi_method_in_turn:
  assumes "length fs < 2 ^ 64" and "i < length fs"
  shows "multi_method fs i r s = in_turn (drop i fs) r s"
  using assms
proof (induction fs i r s rule: multi_method.induct)
  case (1 fs i r s)
  have d: "drop i fs = fs ! i # drop (Suc i) fs" using "1.prems"(2) by (simp add: Cons_nth_drop_Suc)
  have w: "(word_of_nat i :: 64 word) < word_of_nat (length fs) - 1 \<longleftrightarrow> Suc i < length fs"
  proof -
    have "word_of_nat (length fs) - 1 = (word_of_nat (length fs - 1) :: 64 word)"
      using "1.prems"(2) by (cases "length fs") simp_all
    then have "unat (word_of_nat (length fs) - 1 :: 64 word) = length fs - 1"
      using "1.prems"(1) by (simp only: unat_of_nat) simp
    then show ?thesis using "1.prems" by (simp add: word_less_nat_alt unat_of_nat) linarith
  qed
  show ?case
  proof (cases "Suc i < length fs")
    case True
    then have "multi_method fs (Suc i) r' s' = in_turn (drop (Suc i) fs) r' s'" if "(fs ! i) r s = Ret (Inr r', s')" for r' s'
      using "1.IH"[of "(Inr r', s')" "Inr r'" s' r'] "1.prems" w that by auto
    then show ?thesis using True w "1.prems"(2) unfolding d multi_method.simps[of fs i]
      by (cases "(fs ! i) r s") (auto split: sum.splits)
  next
    case False
    then have "drop (Suc i) fs = []" by simp
    then show ?thesis using False w "1.prems"(2) unfolding d multi_method.simps[of fs i] by (simp add: in_turn_last del: in_turn.simps)
  qed
qed

text \<open>A method of several implementations calls them in turn, and the result is that of the last; without an
  implementation the loop starts, and reads behind the end of the vector.\<close>

theorem multiface_calls_in_turn:
  "multi_method [] 0 r s = Crash OutOfBounds"
  "fs \<noteq> [] \<Longrightarrow> length fs < 2 ^ 64 \<Longrightarrow> multi_method fs 0 r s = in_turn fs r s"
  using multi_method_in_turn[of fs 0] by (simp_all add: multi_method.simps[of "[]"])

end
