(* ===== verification/SlaveOverlap.thy ===== *)
theory SlaveOverlap
  imports SlaveProps
begin

text \<open>
  Calls that overlap on one slave. The slave serves its calls with a pool of threads and one handler, so that the
  calls of several transfers run at the same time on the map of the data connections and on the files, and on the
  buffer \<open>st\<close> for the answer of \<open>stat\<close>, which is a member of the handler. A call is cut here into opening its
  connection, copying, closing, asking for the size, and replying; the pieces of any number of calls interleave.
\<close>

section \<open>The pieces of a call\<close>

datatype slave_call =
    Call_OpenPasv PasvParams
  | Call_ActiveStore ActiveParams int
  | Call_PasvStore PasvParams int
  | Call_ActiveRetrieve ActiveParams
  | Call_PasvRetrieve PasvParams

datatype slave_reply = Reply_text string | Reply_stor StorRetVal

text \<open>How far a call is, with what the copying loop left, and whether \<open>stat\<close> has stored the size.\<close>

datatype progress = Called | Opened_data | Copied bool int | Closed bool int | Measured bool int bool | Replied slave_reply

text \<open>The copying of \<open>Store\<close>: whether the file could not be opened, \<open>len\<close>, and the state.\<close>

definition Store_copy :: "slave_os \<Rightarrow> int \<Rightarrow> int \<Rightarrow> int \<Rightarrow> int \<Rightarrow> int \<Rightarrow> slave_state \<Rightarrow> bool \<times> int \<times> slave_state" where
  "Store_copy os transfer_buffer_size fid restart_at iflags trans_id st =
     (let file = file_path os fid
      in case os_open_write os iflags (files st file) of
          None \<Rightarrow> (True, 0, st)
        | Some f \<Rightarrow>
            let (len, f') =
              (if (restart_at > 0 \<and> os_lseek os \<or> restart_at = 0) \<and> data_sock st trans_id \<noteq> INVALID_SOCK
               then store_loop (nat (to_unsigned transfer_buffer_size)) (os_recv os) (os_write os) []
                      (f\<lparr>offset := nat restart_at\<rparr>)
               else (0, f))
            in (False, len, st\<lparr>files := (files st)(file \<mapsto> contents f')\<rparr>))"

definition Store_reply :: "bool \<Rightarrow> int \<Rightarrow> int option \<Rightarrow> StorRetVal" where
  "Store_reply failed len sz =
     \<lparr>rv_msg = (if len < 0 \<or> failed then ''550 Can't store file.'' else ''226 Transfer complete.''),
      rv_size = (case sz of None \<Rightarrow> - 1 | Some n \<Rightarrow> n)\<rparr>"

text \<open>\<open>stat\<close> of the stored file: the size, if it succeeds.\<close>

definition stat_file :: "slave_os \<Rightarrow> int \<Rightarrow> slave_state \<Rightarrow> int option" where
  "stat_file os fid st = (if os_stat os then map_option (\<lambda>c. int (length c)) (files st (file_path os fid)) else None)"

definition Retrieve_copy :: "slave_os \<Rightarrow> int \<Rightarrow> int \<Rightarrow> int \<Rightarrow> int \<Rightarrow> slave_state \<Rightarrow> bool \<times> int \<times> sock_effect list" where
  "Retrieve_copy os transfer_buffer_size fid restart_at trans_id st =
     (case (if os_open os then files st (file_path os fid) else None) of
          None \<Rightarrow> (True, 0, [])
        | Some c \<Rightarrow>
            let (len, out) =
              (if (restart_at = 0 \<or> restart_at > 0 \<and> os_lseek os) \<and> data_sock st trans_id \<noteq> INVALID_SOCK
               then retrieve_loop (nat (to_unsigned transfer_buffer_size)) (data_sock st trans_id)
                      (os_read os) (os_send os) 0 (drop (nat restart_at) c)
               else (0, []))
            in (False, len, out))"

definition Retrieve_reply :: "bool \<Rightarrow> int \<Rightarrow> string" where
  "Retrieve_reply failed len = (if len < 0 \<or> failed then ''550 Can't retrieve File.'' else ''226 Transfer complete.'')"

lemma Store_pieces:
  "Store os n fid r fl t st = (case Store_copy os n fid r fl t st of (failed, len, st1) \<Rightarrow>
     case ResetSlaveConnection t st1 of (st2, out) \<Rightarrow> (Store_reply failed len (stat_file os fid st2), out, st2))"
  by (auto simp: Store_def Store_copy_def Store_reply_def stat_file_def Let_def split: prod.splits option.splits)

lemma Retrieve_pieces:
  "Retrieve os n fid r t st = (case Retrieve_copy os n fid r t st of (failed, len, out) \<Rightarrow>
     case ResetSlaveConnection t st of (st1, out1) \<Rightarrow> (Retrieve_reply failed len, out @ out1, st1))"
  by (simp add: Retrieve_def Retrieve_copy_def Retrieve_reply_def Let_def split: prod.splits option.splits)

text \<open>
  One piece of a call, with the buffer \<open>m\<close>. The transfers differ in how they begin; the passive ones find their
  connection open.
\<close>

type_synonym piece = "progress \<times> sock_effect list \<times> int \<times> slave_state"

definition open_piece :: "slave_os \<Rightarrow> ActiveParams \<Rightarrow> slave_reply \<Rightarrow> int \<Rightarrow> slave_state \<Rightarrow> piece" where
  "open_piece os p refused m st = (case OpenActiveDataConnection os p st of (ok, out, st1) \<Rightarrow>
     (if ok then Opened_data else Replied refused, out, m, st1))"

definition store_piece :: "slave_os \<Rightarrow> 'a PasvParams_scheme \<Rightarrow> int \<Rightarrow> progress \<Rightarrow> int \<Rightarrow> slave_state \<Rightarrow> piece" where
  "store_piece os p iflags g m st = (case g of
      Called \<Rightarrow> (Opened_data, [], m, st)
    | Opened_data \<Rightarrow> (case Store_copy os (p_transfer_buffer_size p) (p_fid p) (p_restart_at p) iflags (p_trans_id p) st of
        (failed, len, st1) \<Rightarrow> (Copied failed len, [], m, st1))
    | Copied failed len \<Rightarrow> (case ResetSlaveConnection (p_trans_id p) st of (st2, out) \<Rightarrow> (Closed failed len, out, m, st2))
    | Closed failed len \<Rightarrow> (case stat_file os (p_fid p) st of
        None \<Rightarrow> (Measured failed len False, [], m, st) | Some n \<Rightarrow> (Measured failed len True, [], n, st))
    | Measured failed len ok \<Rightarrow> (Replied (Reply_stor (Store_reply failed len (if ok then Some m else None))), [], m, st)
    | Replied r \<Rightarrow> (g, [], m, st))"

definition retrieve_piece :: "slave_os \<Rightarrow> 'a PasvParams_scheme \<Rightarrow> progress \<Rightarrow> int \<Rightarrow> slave_state \<Rightarrow> piece" where
  "retrieve_piece os p g m st = (case g of
      Called \<Rightarrow> (Opened_data, [], m, st)
    | Opened_data \<Rightarrow> (case Retrieve_copy os (p_transfer_buffer_size p) (p_fid p) (p_restart_at p) (p_trans_id p) st of
        (failed, len, out) \<Rightarrow> (Copied failed len, out, m, st))
    | Copied failed len \<Rightarrow> (case ResetSlaveConnection (p_trans_id p) st of (st1, out) \<Rightarrow>
        (Replied (Reply_text (Retrieve_reply failed len)), out, m, st1))
    | _ \<Rightarrow> (g, [], m, st))"

fun call_piece :: "slave_os \<Rightarrow> slave_call \<Rightarrow> progress \<Rightarrow> int \<Rightarrow> slave_state \<Rightarrow> piece" where
  "call_piece os (Call_OpenPasv p) g m st = (case g of
      Called \<Rightarrow> (case OpenPasvDataConnection os p st of (r, out, st1) \<Rightarrow> (Replied (Reply_text r), out, m, st1))
    | _ \<Rightarrow> (g, [], m, st))"
| "call_piece os (Call_ActiveStore p iflags) g m st =
     (if g = Called then open_piece os p (Reply_stor \<lparr>rv_msg = ''425 Can't open data connection.'', rv_size = - 1\<rparr>) m st
      else store_piece os p iflags g m st)"
| "call_piece os (Call_PasvStore p iflags) g m st = store_piece os p iflags g m st"
| "call_piece os (Call_ActiveRetrieve p) g m st =
     (if g = Called then open_piece os p (Reply_text ''425 Can't open data connection.'') m st else retrieve_piece os p g m st)"
| "call_piece os (Call_PasvRetrieve p) g m st = retrieve_piece os p g m st"

text \<open>A call without others: the operation of the handler.\<close>

fun whole_call :: "slave_os \<Rightarrow> slave_call \<Rightarrow> slave_state \<Rightarrow> slave_reply \<times> sock_effect list \<times> slave_state" where
  "whole_call os (Call_OpenPasv p) st = apfst Reply_text (OpenPasvDataConnection os p st)"
| "whole_call os (Call_ActiveStore p iflags) st = apfst Reply_stor (ActiveStoreTransfer os p iflags st)"
| "whole_call os (Call_PasvStore p iflags) st = apfst Reply_stor (PasvStoreTransfer os p iflags st)"
| "whole_call os (Call_ActiveRetrieve p) st = apfst Reply_text (ActiveRetrieveTransfer os p st)"
| "whole_call os (Call_PasvRetrieve p) st = apfst Reply_text (PasvRetrieveTransfer os p st)"

text \<open>\<open>n\<close> pieces of one call in a row.\<close>

fun alone :: "nat \<Rightarrow> slave_os \<Rightarrow> slave_call \<Rightarrow> int \<Rightarrow> slave_state \<Rightarrow> piece" where
  "alone 0 os c m st = (Called, [], m, st)"
| "alone (Suc n) os c m st = (case alone n os c m st of (g, out, m1, st1) \<Rightarrow>
     case call_piece os c g m1 st1 of (g', out', m2, st2) \<Rightarrow> (g', out @ out', m2, st2))"

lemma replied_stays: "call_piece os c (Replied r) m st = (Replied r, [], m, st)"
  by (cases c) (simp_all add: store_piece_def retrieve_piece_def)

lemma alone_replied: "alone n os c m st = (Replied r, out, m', st') \<Longrightarrow> alone (n + k) os c m st = (Replied r, out, m', st')"
  by (induction k) (simp_all add: replied_stays)

lemma alone_whole: "case whole_call os c st of (r, out, st') \<Rightarrow> \<exists>m'. alone 5 os c m st = (Replied r, out, m', st')"
  by (cases c) (auto simp: eval_nat_numeral open_piece_def store_piece_def retrieve_piece_def ActiveStoreTransfer_def
      PasvStoreTransfer_def ActiveRetrieveTransfer_def PasvRetrieveTransfer_def Store_pieces Retrieve_pieces
      split: prod.splits option.splits)

section \<open>What a call touches\<close>

fun transaction_of :: "slave_call \<Rightarrow> int" where
  "transaction_of (Call_OpenPasv p) = p_trans_id p"
| "transaction_of (Call_ActiveStore p _) = p_trans_id p"
| "transaction_of (Call_PasvStore p _) = p_trans_id p"
| "transaction_of (Call_ActiveRetrieve p) = p_trans_id p"
| "transaction_of (Call_PasvRetrieve p) = p_trans_id p"

fun file_of :: "slave_os \<Rightarrow> slave_call \<Rightarrow> string option" where
  "file_of os (Call_OpenPasv p) = None"
| "file_of os (Call_ActiveStore p _) = Some (file_path os (p_fid p))"
| "file_of os (Call_PasvStore p _) = Some (file_path os (p_fid p))"
| "file_of os (Call_ActiveRetrieve p) = Some (file_path os (p_fid p))"
| "file_of os (Call_PasvRetrieve p) = Some (file_path os (p_fid p))"

fun stores :: "slave_call \<Rightarrow> bool" where
  "stores (Call_ActiveStore _ _) = True"
| "stores (Call_PasvStore _ _) = True"
| "stores _ = False"

text \<open>Two states are the same for a call when its connection and its file are.\<close>

definition same_for :: "slave_os \<Rightarrow> slave_call \<Rightarrow> slave_state \<Rightarrow> slave_state \<Rightarrow> bool" where
  "same_for os c st st2 \<longleftrightarrow> mDataSock st (transaction_of c) = mDataSock st2 (transaction_of c) \<and>
     (\<forall>f. file_of os c = Some f \<longrightarrow> files st f = files st2 f)"

lemmas piece_defs = open_piece_def store_piece_def retrieve_piece_def OpenPasvDataConnection_def
  OpenActiveDataConnection_def ResetSlaveConnection_def set_sock_def data_sock_def

text \<open>Two calls that are as far, except that a reply may have another size.\<close>

fun alike :: "progress \<Rightarrow> progress \<Rightarrow> bool" where
  "alike (Replied (Reply_stor r)) g \<longleftrightarrow> (\<exists>r'. g = Replied (Reply_stor r') \<and> rv_msg r' = rv_msg r)"
| "alike g h \<longleftrightarrow> h = g"

lemma alike_cases:
  "alike g h \<longleftrightarrow> h = g \<or> (\<exists>r r'. g = Replied (Reply_stor r) \<and> h = Replied (Reply_stor r') \<and> rv_msg r' = rv_msg r)"
  by (cases "(g, h)" rule: alike.cases) auto

lemma alike_refl [simp]: "alike g g"
  by (simp add: alike_cases)

text \<open>A piece does the same in such states, whatever is in the buffer, and leaves such states.\<close>

lemma piece_local:
  assumes "same_for os c st st2" and "alike g h"
  shows "case call_piece os c g m st of (g', out, m', st') \<Rightarrow> case call_piece os c h m2 st2 of (h', out2, m2', st2') \<Rightarrow>
    alike g' h' \<and> out2 = out \<and> same_for os c st' st2'"
proof (cases "g = h")
  case True
  show ?thesis
    using assms(1) unfolding True
    by (cases c; cases h)
      (auto simp: same_for_def piece_defs stat_file_def Store_copy_def Retrieve_copy_def Store_reply_def Let_def
        split: prod.splits option.splits if_splits)
next
  case False
  then obtain r r' where "g = Replied (Reply_stor r)" "h = Replied (Reply_stor r')" "rv_msg r' = rv_msg r"
    using assms(2) by (auto simp: alike_cases)
  then show ?thesis using assms(1) by (simp add: replied_stays alike_cases)
qed

lemma piece_frame:
  assumes "call_piece os c g m st = (g', out, m', st')"
  shows "t \<noteq> transaction_of c \<Longrightarrow> mDataSock st' t = mDataSock st t"
    and "\<not> stores c \<or> file_of os c \<noteq> Some f \<Longrightarrow> files st' f = files st f"
  using assms
  by (cases c; cases g;
      auto simp: piece_defs Store_copy_def Retrieve_copy_def Let_def split: prod.splits option.splits if_splits)+

section \<open>Calls at the same time\<close>

text \<open>The calls by number, each with the answers that the operating system gives to it.\<close>

type_synonym slave_calls = "nat \<Rightarrow> slave_os \<times> slave_call"

abbreviation os_of :: "slave_calls \<Rightarrow> nat \<Rightarrow> slave_os" where "os_of calls i \<equiv> fst (calls i)"
abbreviation call_of :: "slave_calls \<Rightarrow> nat \<Rightarrow> slave_call" where "call_of calls i \<equiv> snd (calls i)"

record overlap =
  at :: "nat \<Rightarrow> progress"
  did :: "nat \<Rightarrow> sock_effect list"
  st_member :: int
  slave :: slave_state

definition all_called :: "int \<Rightarrow> slave_state \<Rightarrow> overlap" where
  "all_called m st = \<lparr>at = (\<lambda>_. Called), did = (\<lambda>_. []), st_member = m, slave = st\<rparr>"

definition overlap_step :: "slave_calls \<Rightarrow> nat \<Rightarrow> overlap \<Rightarrow> overlap" where
  "overlap_step calls i S = (case call_piece (os_of calls i) (call_of calls i) (at S i) (st_member S) (slave S) of
     (g, out, m, st) \<Rightarrow> \<lparr>at = (at S)(i := g), did = (did S)(i := did S i @ out), st_member = m, slave = st\<rparr>)"

definition overlap_run :: "slave_calls \<Rightarrow> nat list \<Rightarrow> int \<Rightarrow> slave_state \<Rightarrow> overlap" where
  "overlap_run calls order m st = fold (overlap_step calls) order (all_called m st)"

lemma overlap_run_snoc: "overlap_run calls (order @ [i]) m st = overlap_step calls i (overlap_run calls order m st)"
  by (simp add: overlap_run_def)

text \<open>Different transactions, and no call uses a file that another one writes.\<close>

definition independent :: "slave_calls \<Rightarrow> nat set \<Rightarrow> bool" where
  "independent calls I \<longleftrightarrow> (\<forall>i\<in>I. \<forall>j\<in>I. i \<noteq> j \<longrightarrow>
     transaction_of (call_of calls i) \<noteq> transaction_of (call_of calls j) \<and>
     (stores (call_of calls i) \<longrightarrow> file_of (os_of calls i) (call_of calls i) \<noteq> file_of (os_of calls j) (call_of calls j)))"

lemma other_piece:
  assumes "independent calls I" and "i \<in> I" and "j \<in> I" and "i \<noteq> j"
    and "call_piece (os_of calls j) (call_of calls j) g m st = (g', out, m', st')"
    and "same_for (os_of calls i) (call_of calls i) s0 st"
  shows "same_for (os_of calls i) (call_of calls i) s0 st'"
proof -
  have t: "transaction_of (call_of calls i) \<noteq> transaction_of (call_of calls j)"
    using assms(1-4) unfolding independent_def by blast
  have f: "\<not> stores (call_of calls j) \<or> file_of (os_of calls j) (call_of calls j) \<noteq> Some f"
    if "file_of (os_of calls i) (call_of calls i) = Some f" for f
    using assms(1-4) that unfolding independent_def by metis
  have "mDataSock st' (transaction_of (call_of calls i)) = mDataSock st (transaction_of (call_of calls i))"
    using piece_frame(1)[OF assms(5) t] .
  moreover have "files st' f = files st f" if "file_of (os_of calls i) (call_of calls i) = Some f" for f
    using piece_frame(2)[OF assms(5)] f[OF that] by blast
  ultimately show ?thesis using assms(6) by (simp add: same_for_def)
qed

text \<open>Every call is where it would be if it had run alone as far, but for the sizes.\<close>

lemma overlap_alone:
  assumes "independent calls I" and "set order \<subseteq> I" and "i \<in> I"
  shows "case alone (count_list order i) (os_of calls i) (call_of calls i) m st of (g, out, m0, s0) \<Rightarrow>
    alike g (at (overlap_run calls order m st) i) \<and> did (overlap_run calls order m st) i = out \<and>
    same_for (os_of calls i) (call_of calls i) s0 (slave (overlap_run calls order m st))"
  using assms(2)
proof (induction order rule: rev_induct)
  case Nil
  then show ?case by (simp add: overlap_run_def all_called_def same_for_def)
next
  case (snoc j order)
  let ?S = "overlap_run calls order m st"
  obtain g out m0 s0 where a: "alone (count_list order i) (os_of calls i) (call_of calls i) m st = (g, out, m0, s0)"
    by (metis prod_cases4)
  have ih: "alike g (at ?S i)" "did ?S i = out" "same_for (os_of calls i) (call_of calls i) s0 (slave ?S)"
    using snoc.IH snoc.prems a by auto
  obtain h out' m' st' where c: "call_piece (os_of calls j) (call_of calls j) (at ?S j) (st_member ?S) (slave ?S) = (h, out', m', st')"
    by (metis prod_cases4)
  have S': "overlap_run calls (order @ [j]) m st =
      \<lparr>at = (at ?S)(j := h), did = (did ?S)(j := did ?S j @ out'), st_member = m', slave = st'\<rparr>"
    using c by (simp add: overlap_run_snoc overlap_step_def)
  show ?case
  proof (cases "j = i")
    case True
    obtain h1 o1 m1 s1 where p: "call_piece (os_of calls i) (call_of calls i) g m0 s0 = (h1, o1, m1, s1)" by (metis prod_cases4)
    then have "alike h1 h" "out' = o1" "same_for (os_of calls i) (call_of calls i) s1 st'"
      using piece_local[OF ih(3,1), where m = m0 and ?m2.0 = "st_member ?S"] c True by auto
    then show ?thesis using a p ih(2) S' unfolding True by (simp add: count_list_append)
  next
    case False
    have "same_for (os_of calls i) (call_of calls i) s0 st'"
      using other_piece[OF assms(1,3) _ _ c ih(3)] snoc.prems False by auto
    then show ?thesis using a ih(1,2) False by (simp add: S' count_list_append)
  qed
qed

lemma overlap_frame:
  assumes "\<forall>i\<in>set order. transaction_of (call_of calls i) \<noteq> t"
  shows "mDataSock (slave (overlap_run calls order m st)) t = mDataSock st t"
  using assms
proof (induction order rule: rev_induct)
  case (snoc j order)
  then show ?case using piece_frame(1)[of "os_of calls j" "call_of calls j"]
    by (fastforce simp: overlap_run_snoc overlap_step_def split: prod.splits)
qed (simp add: overlap_run_def all_called_def)

lemma overlap_frame_files:
  assumes "\<forall>i\<in>set order. stores (call_of calls i) \<longrightarrow> file_of (os_of calls i) (call_of calls i) \<noteq> Some f"
  shows "files (slave (overlap_run calls order m st)) f = files st f"
  using assms
proof (induction order rule: rev_induct)
  case (snoc j order)
  then show ?case using piece_frame(2)[of "os_of calls j" "call_of calls j"]
    by (fastforce simp: overlap_run_snoc overlap_step_def split: prod.splits)
qed (simp add: overlap_run_def all_called_def)

section \<open>The properties\<close>


text \<open>An upload and a download at the same time, piece by piece in turn.\<close>

definition busy_slave :: slave_state where
  "busy_slave = demo_slave\<lparr>files := [''data/5'' \<mapsto> ''xyz'']\<rparr>"


section \<open>The buffer of the handler\<close>

text \<open>An upload that reports a size: it closes, asks for the size, and replies with what the buffer then holds.\<close>

lemma Store_sized:
  assumes "Store os n fid ra fl t st = (r, out, st')" and "0 \<le> rv_size r"
  obtains f l s1 where "Store_copy os n fid ra fl t st = (f, l, s1)" and "ResetSlaveConnection t s1 = (st', out)"
    and "stat_file os fid st' = Some (rv_size r)" and "\<And>k. Store_reply f l (Some k) = r\<lparr>rv_size := k\<rparr>"
proof -
  obtain f l s1 where c: "Store_copy os n fid ra fl t st = (f, l, s1)" by (metis prod_cases3)
  with assms(1) have R: "ResetSlaveConnection t s1 = (st', out)" and r: "r = Store_reply f l (stat_file os fid st')"
    by (auto simp: Store_pieces split: prod.splits)
  with assms(2) have "stat_file os fid st' = Some (rv_size r)" and "\<And>k. Store_reply f l (Some k) = r\<lparr>rv_size := k\<rparr>"
    by (auto simp: Store_reply_def split: option.splits)
  with c R show thesis by (rule that)
qed

lemma alone_sized:
  assumes "stores c" and "whole_call os c st = (Reply_stor r, out, st')" and "0 \<le> rv_size r"
  shows "\<exists>f l o3 m3 s3. alone 3 os c m st = (Closed f l, o3, m3, s3) \<and>
    (\<forall>m2 s. same_for os c s3 s \<longrightarrow> call_piece os c (Closed f l) m2 s = (Measured f l True, [], rv_size r, s)) \<and>
    (\<forall>m2 s. call_piece os c (Measured f l True) m2 s = (Replied (Reply_stor (r\<lparr>rv_size := m2\<rparr>)), [], m2, s))"
proof (cases c)
  case (Call_ActiveStore p fl)
  obtain out1 s0 where o: "OpenActiveDataConnection os p st = (True, out1, s0)"
    using assms Call_ActiveStore by (auto simp: ActiveStoreTransfer_def split: prod.splits if_splits)
  then obtain out2 where "Store os (p_transfer_buffer_size p) (p_fid p) (p_restart_at p) fl (p_trans_id p) s0 = (r, out2, st')"
    using assms(2) Call_ActiveStore by (auto simp: ActiveStoreTransfer_def split: prod.splits)
  then show ?thesis using assms(3) o Call_ActiveStore
    by (elim Store_sized) (auto simp: eval_nat_numeral open_piece_def store_piece_def stat_file_def same_for_def
      split: if_splits)
next
  case (Call_PasvStore p fl)
  then have "Store os (p_transfer_buffer_size p) (p_fid p) (p_restart_at p) fl (p_trans_id p) st = (r, out, st')"
    using assms(2) by (cases "Store os (p_transfer_buffer_size p) (p_fid p) (p_restart_at p) fl (p_trans_id p) st")
      (simp add: PasvStoreTransfer_def)
  then show ?thesis using assms(3) Call_PasvStore
    by (elim Store_sized) (auto simp: eval_nat_numeral store_piece_def stat_file_def same_for_def split: if_splits)
qed (use assms(1) in simp_all)

text \<open>C38: The sizes that uploads report can be mixed up: when an upload has stored the size of its file in the buffer
  and another one stores its own there before the first replies, the first reports the size of the other's file.\<close>

theorem sizes_are_mixed_up:
  assumes "independent calls I" and "set order \<subseteq> I" and "i \<in> I" and "j \<in> I" and "i \<noteq> j"
    and "stores (call_of calls i)" and "whole_call (os_of calls i) (call_of calls i) st = (Reply_stor r, out, st1)" and "0 \<le> rv_size r"
    and "stores (call_of calls j)" and "whole_call (os_of calls j) (call_of calls j) st = (Reply_stor r2, out2, st2)" and "0 \<le> rv_size r2"
    and "count_list order i = 4" and "count_list order j = 3"
  shows "at (overlap_run calls (order @ [j, i]) m st) i = Replied (Reply_stor (r\<lparr>rv_size := rv_size r2\<rparr>))"
proof -
  let ?S = "overlap_run calls order m st"
  obtain f l o3 m3 s3 where a: "alone 3 (os_of calls i) (call_of calls i) m st = (Closed f l, o3, m3, s3)"
    and a4: "\<And>m2. call_piece (os_of calls i) (call_of calls i) (Closed f l) m2 s3 = (Measured f l True, [], rv_size r, s3)"
    and a5: "\<And>m2 s. call_piece (os_of calls i) (call_of calls i) (Measured f l True) m2 s = (Replied (Reply_stor (r\<lparr>rv_size := m2\<rparr>)), [], m2, s)"
    using alone_sized[OF assms(6-8), of m] by (auto simp: same_for_def)
  obtain f' l' o3' m3' s3' where b: "alone 3 (os_of calls j) (call_of calls j) m st = (Closed f' l', o3', m3', s3')"
    and b4: "\<And>m2 s. same_for (os_of calls j) (call_of calls j) s3' s \<Longrightarrow>
      call_piece (os_of calls j) (call_of calls j) (Closed f' l') m2 s = (Measured f' l' True, [], rv_size r2, s)"
    using alone_sized[OF assms(9-11), of m] by blast
  have "alone 4 (os_of calls i) (call_of calls i) m st = (Measured f l True, o3, rv_size r, s3)"
    using a a4 by (simp add: eval_nat_numeral)
  then have "at ?S i = Measured f l True" using overlap_alone[OF assms(1-3), where m = m and st = st] assms(12) by simp
  moreover have "at ?S j = Closed f' l'" "same_for (os_of calls j) (call_of calls j) s3' (slave ?S)"
    using overlap_alone[OF assms(1,2,4), where m = m and st = st] assms(13) b by simp_all
  ultimately show ?thesis using assms(5) b4[of "slave ?S"] a5
    by (simp add: overlap_run_def overlap_step_def)
qed

text \<open>Two uploads, of five bytes and of one.\<close>

definition two_uploads :: slave_calls where
  "two_uploads i = (if i = 0 then (demo_os, Call_ActiveStore (demo_params 9 0 4) 577)
     else (demo_os\<lparr>os_recv := [Bytes ''x'']\<rparr>, Call_ActiveStore ((demo_params 10 0 4)\<lparr>p_trans_id := 77\<rparr>) 577))"

theorem sizes_are_mixed_up_witness:
  "at (overlap_run two_uploads [0, 0, 0, 0, 1, 1, 1, 1, 0] 0 demo_slave) 0 =
    Replied (Reply_stor \<lparr>rv_msg = ''226 Transfer complete.'', rv_size = 1\<rparr>)"
proof -
  have "file_path demo_os 9 \<noteq> file_path (demo_os\<lparr>os_recv := [Bytes ''x'']\<rparr>) 10" by code_simp
  then have i: "independent two_uploads {0, 1}" by (auto simp: independent_def two_uploads_def demo_params_def)
  have "fst (whole_call (os_of two_uploads 0) (call_of two_uploads 0) demo_slave) =
      Reply_stor \<lparr>rv_msg = ''226 Transfer complete.'', rv_size = 5\<rparr>"
    and "fst (whole_call (os_of two_uploads 1) (call_of two_uploads 1) demo_slave) =
      Reply_stor \<lparr>rv_msg = ''226 Transfer complete.'', rv_size = 1\<rparr>"
    by code_simp+
  then obtain out st1 out2 st2 where
    "whole_call (os_of two_uploads 0) (call_of two_uploads 0) demo_slave =
      (Reply_stor \<lparr>rv_msg = ''226 Transfer complete.'', rv_size = 5\<rparr>, out, st1)"
    "whole_call (os_of two_uploads 1) (call_of two_uploads 1) demo_slave =
      (Reply_stor \<lparr>rv_msg = ''226 Transfer complete.'', rv_size = 1\<rparr>, out2, st2)"
    by (metis prod.collapse)
  from sizes_are_mixed_up[OF i _ _ _ _ _ this(1) _ _ this(2), where order = "[0, 0, 0, 0, 1, 1, 1]" and m = 0]
  show ?thesis by simp (simp add: two_uploads_def)
qed

end
