(* ===== verification/Locks.thy ===== *)
theory Locks
  imports Prelude
begin

text \<open>
  The locks of the server. \<open>CCriticialSection\<close> wraps a mutex of POSIX threads that is not recursive; the
  server has three of them and one for every client. Each function that takes locks is given by the sequence
  of its lock operations, of the threads it joins, and of its accesses to the data that threads share;
  threads run such sequences, one operation at a time, in any interleaving. A thread is cancelled only at a
  cancellation point of POSIX, and no code between \<open>Enter\<close> and \<open>Leave\<close> has one that a cancelled thread
  reaches: a cancelled thread is one with a shorter sequence of calls.
\<close>

section \<open>Mutexes and threads\<close>

datatype lock = FtpServerLock | UserListLock | ClientListLock | ClientLock nat

text \<open>
  The data of the server object that several threads use: the range of data ports; the socket and the two
  flags of the accepting thread; the links of the two lists; the two counters.
\<close>

datatype shared_data = PortRange | ListenState | UserLinks | UserCount | ClientLinks | ClientCount

text \<open>
  Threads: those of the program that owns the server object, the accepting threads, the command thread of
  a client, and the transfer threads of a client.
\<close>

datatype thread = Owner_thread nat | Accepting_thread nat | Command_thread nat | Transfer_thread nat nat

datatype action = Enter lock | Leave lock | Join thread | Access shared_data

record locking =
  holder :: "lock \<Rightarrow> thread option"
  todo :: "thread \<Rightarrow> action list"

text \<open>
  One operation of a thread; \<open>None\<close> when it has to wait: for a lock that is taken (also by itself), for
  the end of the thread that it joins. Only the holder of a lock may leave it.
\<close>

fun perform :: "thread \<Rightarrow> action \<Rightarrow> locking \<Rightarrow> locking option" where
  "perform t (Enter l) s = (if holder s l = None then Some (s\<lparr>holder := (holder s)(l \<mapsto> t)\<rparr>) else None)"
| "perform t (Leave l) s = (if holder s l = Some t then Some (s\<lparr>holder := (holder s)(l := None)\<rparr>) else None)"
| "perform t (Join u) s = (if todo s u = [] then Some s else None)"
| "perform t (Access v) s = Some s"

definition lock_step :: "thread \<Rightarrow> locking \<Rightarrow> locking option" where
  "lock_step t s = (case todo s t of [] \<Rightarrow> None
     | a # p \<Rightarrow> map_option (\<lambda>s'. s'\<lparr>todo := (todo s')(t := p)\<rparr>) (perform t a s))"

text \<open>A run under a schedule; \<open>None\<close> when a thread is scheduled that cannot move.\<close>

fun schedule :: "thread list \<Rightarrow> locking \<Rightarrow> locking option" where
  "schedule [] s = Some s"
| "schedule (t # ts) s = Option.bind (lock_step t s) (schedule ts)"

definition start :: "(thread \<Rightarrow> action list) \<Rightarrow> locking" where
  "start P = \<lparr>holder = (\<lambda>_. None), todo = P\<rparr>"

text \<open>The thread that has to move before \<open>t\<close> can.\<close>

fun waits_for :: "locking \<Rightarrow> thread \<Rightarrow> thread \<Rightarrow> bool" where
  "waits_for s t u = (case todo s t of
      Enter l # _ \<Rightarrow> holder s l = Some u
    | Join w # _ \<Rightarrow> w = u \<and> todo s u \<noteq> []
    | _ \<Rightarrow> False)"

definition racing :: "locking \<Rightarrow> shared_data \<Rightarrow> thread \<Rightarrow> thread \<Rightarrow> bool" where
  "racing s v t u \<longleftrightarrow> t \<noteq> u \<and> (\<exists>p. todo s t = Access v # p) \<and> (\<exists>q. todo s u = Access v # q)"

section \<open>Lock orders\<close>

text \<open>
  A sequence obeys an order with the locks \<open>H\<close> held: locks are entered, and threads joined, only above the
  locks that are held and above the rank \<open>n\<close> of the thread itself; the guard of shared data is
  held when it is used; in the end no lock is held.
\<close>

fun obeys :: "(lock \<Rightarrow> nat) \<Rightarrow> (thread \<Rightarrow> nat) \<Rightarrow> (shared_data \<Rightarrow> lock option) \<Rightarrow> nat \<Rightarrow> lock list \<Rightarrow> action list \<Rightarrow> bool" where
  "obeys lr tr gd n H [] \<longleftrightarrow> H = []"
| "obeys lr tr gd n H (Enter l # p) \<longleftrightarrow> n < lr l \<and> (\<forall>h\<in>set H. lr h < lr l) \<and> obeys lr tr gd n (l # H) p"
| "obeys lr tr gd n H (Leave l # p) \<longleftrightarrow> l \<in> set H \<and> obeys lr tr gd n (removeAll l H) p"
| "obeys lr tr gd n H (Join u # p) \<longleftrightarrow> n < tr u \<and> (\<forall>h\<in>set H. lr h < tr u) \<and> obeys lr tr gd n H p"
| "obeys lr tr gd n H (Access v # p) \<longleftrightarrow> (\<forall>l. gd v = Some l \<longrightarrow> l \<in> set H) \<and> obeys lr tr gd n H p"

lemma obeys_append: "obeys lr tr gd n H p \<Longrightarrow> obeys lr tr gd n [] q \<Longrightarrow> obeys lr tr gd n H (p @ q)"
  by (induction lr tr gd n H p rule: obeys.induct) auto

text \<open>A family of systems in which every thread obeys one order.\<close>

locale lock_order =
  fixes lrank :: "lock \<Rightarrow> nat" and trank :: "thread \<Rightarrow> nat" and guard :: "shared_data \<Rightarrow> lock option"
    and top :: nat and sys :: "(thread \<Rightarrow> action list) \<Rightarrow> bool"
  assumes ordered: "sys P \<Longrightarrow> obeys lrank trank guard (trank t) [] (P t)"
    and lock_bound: "lrank l \<le> top"
    and thread_bound: "trank t \<le> top"
begin

definition well_locked :: "locking \<Rightarrow> bool" where
  "well_locked s \<longleftrightarrow> (\<forall>t. \<exists>H. (\<forall>l. holder s l = Some t \<longleftrightarrow> l \<in> set H) \<and> obeys lrank trank guard (trank t) H (todo s t))"

lemma well_locked_start: "sys P \<Longrightarrow> well_locked (start P)"
  unfolding well_locked_def start_def by (intro allI exI[of _ "[]"]) (simp add: ordered)

lemma well_locked_step:
  assumes "well_locked s" and "lock_step t s = Some s'"
  shows "well_locked s'"
  unfolding well_locked_def
proof
  fix u
  obtain H where H: "\<And>l. holder s l = Some u \<longleftrightarrow> l \<in> set H" "obeys lrank trank guard (trank u) H (todo s u)"
    using assms(1) unfolding well_locked_def by blast
  from assms(2) obtain a p r where a: "todo s t = a # p" "perform t a s = Some r" "s' = r\<lparr>todo := (todo r)(t := p)\<rparr>"
    by (auto simp: lock_step_def split: list.splits)
  let ?ok = "\<lambda>H. (\<forall>l. holder r l = Some u \<longleftrightarrow> l \<in> set H) \<and> obeys lrank trank guard (trank u) H (todo s' u)"
  have r: "todo r = todo s" using a(2) by (cases a) (auto split: if_splits)
  have "\<exists>H. ?ok H"
  proof (cases "u = t")
    case True
    then have o: "obeys lrank trank guard (trank u) H (a # p)" "todo s' u = p" using H(2) a(1,3) by simp_all
    show ?thesis
    proof (cases a)
      case (Enter l)
      then have "?ok (l # H)" using a(2) o H(1) True by (auto split: if_splits)
      then show ?thesis by blast
    next
      case (Leave l)
      have "r = s\<lparr>holder := (holder s)(l := None)\<rparr>" using a(2) Leave by (simp split: if_splits)
      then have "?ok (removeAll l H)" using o H(1) Leave True by simp
      then show ?thesis by blast
    next
      case (Join w)
      then have "?ok H" using a(2) o H(1) by (simp split: if_splits)
      then show ?thesis by blast
    next
      case (Access v)
      then have "?ok H" using a(2) o H(1) by simp
      then show ?thesis by blast
    qed
  next
    case False
    then have "todo s' u = todo s u" using a(3) r by simp
    moreover have "holder r l = Some u \<longleftrightarrow> holder s l = Some u" for l
      using a(2) False by (cases a) (auto split: if_splits)
    ultimately show ?thesis using H by auto
  qed
  then show "\<exists>H. (\<forall>l. holder s' l = Some u \<longleftrightarrow> l \<in> set H) \<and> obeys lrank trank guard (trank u) H (todo s' u)"
    using a(3) by simp
qed

lemma well_locked_run: "schedule ts s = Some s' \<Longrightarrow> well_locked s \<Longrightarrow> well_locked s'"
  by (induction ts arbitrary: s) (auto split: bind_splits intro: well_locked_step)

text \<open>The rank of what a thread waits for.\<close>

definition wait_rank :: "locking \<Rightarrow> thread \<Rightarrow> nat" where
  "wait_rank s t = (case todo s t of Enter l # _ \<Rightarrow> lrank l | Join u # _ \<Rightarrow> trank u | _ \<Rightarrow> top)"

lemma wait_rank_top: "wait_rank s t \<le> top"
  by (auto simp: wait_rank_def lock_bound thread_bound split: list.splits action.splits)

lemma waits_for_rank:
  assumes "well_locked s" and "waits_for s t u" and "waits_for s u w"
  shows "wait_rank s t < wait_rank s u"
proof -
  obtain H where H: "\<And>l. holder s l = Some u \<longleftrightarrow> l \<in> set H" "obeys lrank trank guard (trank u) H (todo s u)"
    using assms(1) unfolding well_locked_def by blast
  from assms(2,3) show ?thesis using H
    by (auto simp: wait_rank_def split: list.splits action.splits)
qed

lemma stuck_waits:
  assumes "well_locked s" and "todo s t \<noteq> []" and "lock_step t s = None"
  shows "\<exists>u. waits_for s t u"
proof -
  obtain H where H: "\<And>l. holder s l = Some t \<longleftrightarrow> l \<in> set H" "obeys lrank trank guard (trank t) H (todo s t)"
    using assms(1) unfolding well_locked_def by blast
  obtain a p where a: "todo s t = a # p" using assms(2) by (cases "todo s t") auto
  with assms(3) have "perform t a s = None" by (simp add: lock_step_def)
  then show ?thesis using a H by (cases a) (auto split: if_splits)
qed

lemma waited_for_unfinished:
  assumes "well_locked s" and "waits_for s t u"
  shows "todo s u \<noteq> []"
proof
  assume 0: "todo s u = []"
  obtain H where H: "\<And>l. holder s l = Some u \<longleftrightarrow> l \<in> set H" "obeys lrank trank guard (trank u) H (todo s u)"
    using assms(1) unfolding well_locked_def by blast
  with 0 have "holder s l \<noteq> Some u" for l by auto
  with 0 assms(2) show False by (auto split: list.splits action.splits)
qed

lemma blocked_by_a_runner:
  assumes "well_locked s" and "todo s t \<noteq> []"
  shows "\<exists>u. (waits_for s)\<^sup>*\<^sup>* t u \<and> lock_step u s \<noteq> None"
  using assms(2)
proof (induction "top - wait_rank s t" arbitrary: t rule: less_induct)
  case less
  show ?case
  proof (cases "lock_step t s = None")
    case False
    then show ?thesis by blast
  next
    case True
    then obtain u where u: "waits_for s t u" using stuck_waits[OF assms(1) less.prems] by blast
    show ?thesis
    proof (cases "lock_step u s = None")
      case False
      with u show ?thesis by blast
    next
      case blocked: True
      have un: "todo s u \<noteq> []" using waited_for_unfinished[OF assms(1) u] .
      then obtain w where "waits_for s u w" using stuck_waits[OF assms(1)] blocked by blast
      then have "wait_rank s t < wait_rank s u" using waits_for_rank[OF assms(1) u] by blast
      then have "top - wait_rank s u < top - wait_rank s t" using wait_rank_top[of s u] by linarith
      from less.hyps[OF this un] u show ?thesis by (meson converse_rtranclp_into_rtranclp)
    qed
  qed
qed

theorem no_deadlock:
  "sys P \<Longrightarrow> schedule ts (start P) = Some s \<Longrightarrow> todo s t \<noteq> [] \<Longrightarrow>
    \<exists>u. (waits_for s)\<^sup>*\<^sup>* t u \<and> lock_step u s \<noteq> None"
  using blocked_by_a_runner well_locked_run well_locked_start by blast

theorem no_race:
  assumes "sys P" and "schedule ts (start P) = Some s" and "guard v \<noteq> None"
  shows "\<not> racing s v t u"
proof
  assume r: "racing s v t u"
  obtain l where l: "guard v = Some l" using assms(3) by blast
  have "well_locked s" using assms well_locked_run well_locked_start by blast
  then have "holder s l = Some w" if "\<exists>p. todo s w = Access v # p" for w
    using that l unfolding well_locked_def by (metis obeys.simps(5))
  then have "holder s l = Some t" "holder s l = Some u" using r by (auto simp: racing_def)
  with r show False by (simp add: racing_def)
qed

theorem all_released:
  assumes "sys P" and "schedule ts (start P) = Some s" and "\<And>t. lock_step t s = None"
  shows "todo s t = [] \<and> holder s l = None"
proof -
  have w: "well_locked s" using assms well_locked_run well_locked_start by blast
  have fin: "todo s u = []" for u using blocked_by_a_runner[OF w, of u] assms(3) by auto
  have "holder s l \<noteq> Some u" for u
    using w fin[of u] unfolding well_locked_def by (metis empty_iff empty_set obeys.simps(1))
  with fin show ?thesis by auto
qed

end

end
