(* ===== verification/ServerLocks.thy ===== *)
theory ServerLocks
  imports Locks
begin

text \<open>
  What the functions of CFtpServer.cpp do to the locks and to the shared data, the threads that call them,
  and what follows for every interleaving: no deadlock, and which data are used by two threads at once.
  The arguments of a definition are the outcomes of the tests that decide which operations are performed.
\<close>

section \<open>The functions\<close>

definition SetDataPortRange_locks :: "bool \<Rightarrow> action list" where
  "SetDataPortRange_locks ok = (if ok then [Enter FtpServerLock, Access PortRange, Leave FtpServerLock] else [])"

definition GetDataPortRange_locks :: "action list" where
  "GetDataPortRange_locks = [Enter FtpServerLock, Access PortRange, Leave FtpServerLock]"

text \<open>\<open>StopListening\<close> joins the accepting thread \<open>i\<close> with the lock held, and reports without it.\<close>

definition StopListening_locks :: "bool \<Rightarrow> bool \<Rightarrow> nat \<Rightarrow> action list" where
  "StopListening_locks listening accepting i = [Enter FtpServerLock, Access ListenState] @
     (if listening then (if accepting then [Join (Accepting_thread i)] else []) @
        [Access ListenState, Leave FtpServerLock, Enter FtpServerLock] else []) @
     [Leave FtpServerLock]"

text \<open>
  \<open>StartListening\<close>: the rounds of its loop, each with what \<open>StopListening\<close> finds. The flag that it returns
  is read after the lock is left.
\<close>

fun restart_locks :: "(bool \<times> bool \<times> nat) list \<Rightarrow> action list" where
  "restart_locks [] = []"
| "restart_locks ((listening, accepting, i) # rounds) =
     [Access ListenState, Leave FtpServerLock] @ StopListening_locks listening accepting i @ [Enter FtpServerLock] @
     restart_locks rounds"

definition StartListening_locks :: "bool \<Rightarrow> (bool \<times> bool \<times> nat) list \<Rightarrow> action list" where
  "StartListening_locks valid rounds =
     (if valid then [Enter FtpServerLock] @ restart_locks rounds @
        [Access ListenState, Leave FtpServerLock, Access ListenState] else [])"

definition StartAccepting_locks :: "action list" where
  "StartAccepting_locks = [Enter FtpServerLock, Access ListenState, Leave FtpServerLock, Access ListenState]"

text \<open>The destructor of a client, in the thread that deletes it.\<close>

definition delete_client_locks :: "action list" where
  "delete_client_locks = [Access ClientLinks, Access ClientCount, Access ClientLinks]"

text \<open>\<open>AddClient\<close>, and a round of the accepting thread: without Redis no thread is made; without the
  thread the object is deleted, and nobody holds the lock then.\<close>

definition AddClient_locks :: "action list" where
  "AddClient_locks = [Enter ClientListLock, Access ClientLinks, Leave ClientListLock, Access ClientCount]"

definition accept_locks :: "bool \<Rightarrow> bool \<Rightarrow> action list" where
  "accept_locks reached created = AddClient_locks @ (if reached \<and> \<not> created then delete_client_locks else [])"

definition accepting_starts_locks :: "action list" where
  "accepting_starts_locks = [Access ListenState]"

definition accepting_ends_locks :: "action list" where
  "accepting_ends_locks = [Access ListenState]"

definition AddUser_locks :: "bool \<Rightarrow> bool \<Rightarrow> action list" where
  "AddUser_locks valid added = (if valid then [Enter UserListLock, Leave UserListLock] @
     (if added then [Enter UserListLock, Access UserLinks, Leave UserListLock, Access UserCount] else []) else [])"

definition InitDelete_locks :: "nat \<Rightarrow> action list" where
  "InitDelete_locks c = [Enter (ClientLock c), Leave (ClientLock c)]"

text \<open>\<open>DeleteUser\<close>, for a user that is not null, calls \<open>InitDelete\<close> for the clients \<open>cs\<close>.\<close>

definition DeleteUser_locks :: "nat list \<Rightarrow> action list" where
  "DeleteUser_locks cs = [Enter UserListLock, Access UserLinks, Enter ClientListLock, Access ClientLinks] @
     concat (map InitDelete_locks cs) @ [Leave ClientListLock, Access UserCount, Leave UserListLock]"

text \<open>The commands USER, with an argument, and PASS, before the login, ask for the user with the user list locked.\<close>

definition USER_locks :: "bool \<Rightarrow> action list" where
  "USER_locks arg = (if arg then [Enter UserListLock, Leave UserListLock] else [])"

definition PASS_locks :: "bool \<Rightarrow> action list" where
  "PASS_locks logged = (if logged then [] else [Enter UserListLock, Leave UserListLock])"

text \<open>\<open>ResetDataConnection\<close> leaves the lock while it waits for the transfer thread, if there is one.\<close>

definition ResetDataConnection_locks :: "nat \<Rightarrow> nat option \<Rightarrow> bool \<Rightarrow> action list" where
  "ResetDataConnection_locks c transfer bSyncWait = [Enter (ClientLock c)] @
     (case transfer of None \<Rightarrow> []
      | Some k \<Rightarrow> if bSyncWait then [Leave (ClientLock c), Join (Transfer_thread c k), Enter (ClientLock c)] else []) @
     [Leave (ClientLock c)]"

text \<open>The end of a command thread, and of a transfer thread.\<close>

definition shell_exit_locks :: "nat \<Rightarrow> bool \<Rightarrow> action list" where
  "shell_exit_locks c waiting = [Enter ClientListLock, Enter (ClientLock c), Leave (ClientLock c)] @
     (if waiting then delete_client_locks else []) @ [Leave ClientListLock]"

definition transfer_end_locks :: "nat \<Rightarrow> nat option \<Rightarrow> bool \<Rightarrow> action list" where
  "transfer_end_locks c transfer canal_open = [Enter ClientListLock] @ ResetDataConnection_locks c transfer False @
     (if canal_open then [] else delete_client_locks) @ [Leave ClientListLock]"

section \<open>The threads\<close>

text \<open>
  The calls of a thread, in any number and order; a command thread ends with \<open>shell_exit\<close>. Accepting and
  transfer threads can be cancelled. When \<open>sure\<close> holds, \<open>pthread_create\<close> never fails.
\<close>

inductive thread_code :: "bool \<Rightarrow> thread \<Rightarrow> action list \<Rightarrow> bool" for sure :: bool where
  absent: "thread_code sure t []"
| set_range: "thread_code sure (Owner_thread n) p \<Longrightarrow> thread_code sure (Owner_thread n) (SetDataPortRange_locks ok @ p)"
| get_range: "thread_code sure (Owner_thread n) p \<Longrightarrow> thread_code sure (Owner_thread n) (GetDataPortRange_locks @ p)"
| start_listening: "thread_code sure (Owner_thread n) p \<Longrightarrow>
    thread_code sure (Owner_thread n) (StartListening_locks valid rounds @ p)"
| stop_listening: "thread_code sure (Owner_thread n) p \<Longrightarrow>
    thread_code sure (Owner_thread n) (StopListening_locks listening accepting i @ p)"
| start_accepting: "thread_code sure (Owner_thread n) p \<Longrightarrow> thread_code sure (Owner_thread n) (StartAccepting_locks @ p)"
| add_user: "thread_code sure (Owner_thread n) p \<Longrightarrow> thread_code sure (Owner_thread n) (AddUser_locks valid added @ p)"
| delete_user: "thread_code sure (Owner_thread n) p \<Longrightarrow> thread_code sure (Owner_thread n) (DeleteUser_locks cs @ p)"
| accepting_starts: "thread_code sure (Accepting_thread i) p \<Longrightarrow>
    thread_code sure (Accepting_thread i) (accepting_starts_locks @ p)"
| accepts: "thread_code sure (Accepting_thread i) p \<Longrightarrow> sure \<longrightarrow> created \<Longrightarrow>
    thread_code sure (Accepting_thread i) (accept_locks reached created @ p)"
| accepting_stops: "thread_code sure (Accepting_thread i) accepting_ends_locks"
| user: "thread_code sure (Command_thread c) p \<Longrightarrow> thread_code sure (Command_thread c) (USER_locks arg @ p)"
| pass: "thread_code sure (Command_thread c) p \<Longrightarrow> thread_code sure (Command_thread c) (PASS_locks logged @ p)"
| range: "thread_code sure (Command_thread c) p \<Longrightarrow> thread_code sure (Command_thread c) (GetDataPortRange_locks @ p)"
| reset: "thread_code sure (Command_thread c) p \<Longrightarrow>
    thread_code sure (Command_thread c) (ResetDataConnection_locks c transfer True @ p)"
| exit: "thread_code sure (Command_thread c) (shell_exit_locks c waiting)"
| transfer: "thread_code sure (Transfer_thread c k) (transfer_end_locks c transfer canal_open)"

definition server_system :: "bool \<Rightarrow> (thread \<Rightarrow> action list) \<Rightarrow> bool" where
  "server_system sure P \<longleftrightarrow> (\<forall>t. thread_code sure t (P t))"

section \<open>The order of the locks\<close>

text \<open>Threads that are joined lie between the lock of the server, held by who joins them, and the locks they take.\<close>

fun lock_rank :: "lock \<Rightarrow> nat" where
  "lock_rank FtpServerLock = 1"
| "lock_rank UserListLock = 3"
| "lock_rank ClientListLock = 4"
| "lock_rank (ClientLock _) = 5"

fun thread_rank :: "thread \<Rightarrow> nat" where
  "thread_rank (Owner_thread _) = 0"
| "thread_rank (Command_thread _) = 0"
| "thread_rank (Accepting_thread _) = 2"
| "thread_rank (Transfer_thread _ _) = 2"

text \<open>
  The lock that guards the data. The lock of the client list guards its links only if the accepting
  thread never has to delete a client whose thread could not be made.
\<close>

fun guarded :: "bool \<Rightarrow> shared_data \<Rightarrow> lock option" where
  "guarded sure PortRange = Some FtpServerLock"
| "guarded sure UserLinks = Some UserListLock"
| "guarded sure ClientLinks = (if sure then Some ClientListLock else None)"
| "guarded sure ListenState = None"
| "guarded sure UserCount = None"
| "guarded sure ClientCount = None"

abbreviation server_obeys :: "bool \<Rightarrow> nat \<Rightarrow> lock list \<Rightarrow> action list \<Rightarrow> bool" where
  "server_obeys sure \<equiv> obeys lock_rank thread_rank (guarded sure)"

lemma obeys_drops: "n < 5 \<Longrightarrow> server_obeys sure n [ClientListLock, UserListLock] p \<Longrightarrow>
    server_obeys sure n [ClientListLock, UserListLock] (concat (map InitDelete_locks cs) @ p)"
  by (induction cs) (auto simp: InitDelete_locks_def)

lemma obeys_stop: "server_obeys sure 0 [] (StopListening_locks listening accepting i)"
  by (simp add: StopListening_locks_def)

lemma obeys_restart: "server_obeys sure 0 [FtpServerLock] p \<Longrightarrow> server_obeys sure 0 [FtpServerLock] (restart_locks rounds @ p)"
  by (induction rounds rule: restart_locks.induct) (auto intro: obeys_append obeys_stop)

lemmas call_locks_defs = SetDataPortRange_locks_def GetDataPortRange_locks_def StartAccepting_locks_def
  AddClient_locks_def accept_locks_def accepting_starts_locks_def accepting_ends_locks_def AddUser_locks_def
  USER_locks_def PASS_locks_def ResetDataConnection_locks_def shell_exit_locks_def transfer_end_locks_def
  delete_client_locks_def

lemma obeys_calls:
  "server_obeys sure 0 [] (StartListening_locks valid rounds)"
  "server_obeys sure 0 [] (DeleteUser_locks cs)"
  by (simp_all add: StartListening_locks_def DeleteUser_locks_def obeys_restart obeys_drops)

lemma thread_code_obeys: "thread_code sure t p \<Longrightarrow> server_obeys sure (thread_rank t) [] p"
proof (induction rule: thread_code.induct)
  case (start_listening n p valid rounds)
  then show ?case by (simp add: obeys_append obeys_calls)
next
  case (stop_listening n p listening accepting i)
  then show ?case by (simp add: obeys_append obeys_stop)
next
  case (delete_user n p cs)
  then show ?case by (simp add: obeys_append obeys_calls)
qed (auto simp: call_locks_defs split: option.splits)

interpretation server: lock_order lock_rank thread_rank "guarded sure" 5 "server_system sure" for sure
proof
  show "server_system sure P \<Longrightarrow> server_obeys sure (thread_rank t) [] (P t)" for P t
    by (simp add: server_system_def thread_code_obeys)
  show "lock_rank l \<le> 5" for l by (cases l) auto
  show "thread_rank t \<le> 5" for t by (cases t) auto
qed

section \<open>The properties\<close>


text \<open>An owner stops the server while the accepting thread is about to take the lock of the client list,
  which the command thread 4 holds, that waits for the lock of its client, which its transfer thread holds.\<close>

definition busy_server :: "thread \<Rightarrow> action list" where
  "busy_server t = (case t of
      Owner_thread n \<Rightarrow> if n = 0 then StopListening_locks True True 1 else []
    | Accepting_thread i \<Rightarrow> if i = 1 then accept_locks True True else []
    | Command_thread c \<Rightarrow> if c = 4 then ResetDataConnection_locks 4 (Some 0) True @ shell_exit_locks 4 True else []
    | Transfer_thread c k \<Rightarrow> if c = 4 \<and> k = 0 then transfer_end_locks 4 (Some 0) True else [])"

lemma busy_server_system: "server_system True busy_server"
proof -
  have "thread_code True (Owner_thread n) (StopListening_locks True True 1 @ [])" for n
    by (intro thread_code.intros)
  moreover have "thread_code True (Accepting_thread i) (accept_locks True True @ [])" for i
    by (intro thread_code.intros) simp
  ultimately show ?thesis
    unfolding server_system_def busy_server_def by (auto split: thread.splits intro: thread_code.intros)
qed




text \<open>The number of clients is changed by two threads at once, when the accepting thread counts a
  new client after it has left the lock and the thread of another client deletes its object; and when a thread
  cannot be made, the accepting thread takes the new object out of the client list without the lock, while
  another thread uses the list.\<close>

theorem clients_are_raced:
  "(\<exists>P ts s. server_system True P \<and> schedule ts (start P) = Some s \<and>
      racing s ClientCount (Accepting_thread i) (Command_thread c)) \<and>
   (\<exists>P ts s. server_system False P \<and> schedule ts (start P) = Some s \<and>
      racing s ClientLinks (Accepting_thread i) (Command_thread c))"
proof -
  define P where "P created = (\<lambda>t. if t = Accepting_thread i then accept_locks True created @ []
     else if t = Command_thread c then shell_exit_locks c True else [])" for created
  have "server_system created (P created)" for created
    unfolding server_system_def P_def by (auto intro: thread_code.intros thread_code.accepts simp del: append_Nil2)
  moreover have "\<exists>s. schedule [Accepting_thread i, Accepting_thread i, Accepting_thread i, Command_thread c,
      Command_thread c, Command_thread c, Command_thread c] (start (P True)) = Some s \<and>
      racing s ClientCount (Accepting_thread i) (Command_thread c)"
    by (simp add: start_def P_def lock_step_def racing_def call_locks_defs)
  moreover have "\<exists>s. schedule [Accepting_thread i, Accepting_thread i, Accepting_thread i, Accepting_thread i,
      Command_thread c, Command_thread c, Command_thread c] (start (P False)) = Some s \<and>
      racing s ClientLinks (Accepting_thread i) (Command_thread c)"
    by (simp add: start_def P_def lock_step_def racing_def call_locks_defs)
  ultimately show ?thesis by blast
qed

end
