(* ===== verification/TransferAbort.thy ===== *)
theory TransferAbort
  imports Session
begin

text \<open>
  The command thread resets a data connection while its transfer thread may be ending: \<open>ResetDataConnection\<close>
  runs in both at once, in the command thread (ABOR) with \<open>bSyncWait\<close>, in the transfer thread without. Each is
  cut into the pieces between which the other thread can run; the lock of the client makes some of them
  exclude each other. In a run that does not fail the pieces amount to the operation \<open>ResetDataConnection\<close> of the
  session, which the rest of the development takes as one step.
\<close>

section \<open>The two threads\<close>

text \<open>
  The next piece of the command thread: enter the lock; close the socket; look whether there is a transfer
  thread, and leave the lock if so; cancel the thread; join it; enter the lock again; forget the transfer and leave.
\<close>

datatype command_point = C_enter | C_close | C_look | C_cancel | C_join | C_reenter | C_forget | C_done

text \<open>
  The next piece of the transfer thread: its work, in which it can be cancelled; enter the lock; close the
  socket; detach itself; forget the transfer and leave the lock; reset the timeout and end.
\<close>

datatype transfer_point = T_work | T_enter | T_close | T_detach | T_forget | T_time | T_ended | T_cancelled

datatype side = Commands | Transfer

text \<open>\<open>pending\<close>: the transfer thread was asked to cancel; \<open>detached\<close>: it can not be joined any more.\<close>

record abort_state =
  object :: client
  lock_side :: "side option"
  command_at :: command_point
  transfer_at :: transfer_point
  pending :: bool
  detached :: bool

definition close_data :: "client \<Rightarrow> client" where
  "close_data c = (if DataSock c = INVALID_SOCKET then c
     else c\<lparr>DataSock := INVALID_SOCKET, CurrentTransfer := (CurrentTransfer c)\<lparr>SockList := INVALID_SOCKET\<rparr>\<rparr>)"

definition forget_transfer :: "client \<Rightarrow> client" where
  "forget_transfer c = c\<lparr>eStatus := WAITING, eDataConnection := NONE, CurrentTransfer := zero_transfer\<rparr>"

text \<open>
  One piece of one thread, at the time \<open>t\<close>. \<open>pthread_cancel\<close> and \<open>pthread_join\<close> read the id of the thread
  from the client object without the lock: with the id 0 they read a null pointer, and a detached
  thread must not be joined. A thread that was asked to cancel ends in its work, or where it closes a socket.
\<close>

inductive abort_step :: "int \<Rightarrow> abort_state \<Rightarrow> abort_state outcome \<Rightarrow> bool" for t :: int where
  enter: "command_at s = C_enter \<Longrightarrow> lock_side s = None \<Longrightarrow>
    abort_step t s (Ret (s\<lparr>lock_side := Some Commands, command_at := C_close\<rparr>))"
| close: "command_at s = C_close \<Longrightarrow>
    abort_step t s (Ret (s\<lparr>object := close_data (object s), command_at := C_look\<rparr>))"
| look_thread: "command_at s = C_look \<Longrightarrow> TransferThread (CurrentTransfer (object s)) \<Longrightarrow>
    abort_step t s (Ret (s\<lparr>lock_side := None, command_at := C_cancel\<rparr>))"
| look_none: "command_at s = C_look \<Longrightarrow> \<not> TransferThread (CurrentTransfer (object s)) \<Longrightarrow>
    abort_step t s (Ret (s\<lparr>command_at := C_forget\<rparr>))"
| cancel: "command_at s = C_cancel \<Longrightarrow> TransferThread (CurrentTransfer (object s)) \<Longrightarrow>
    abort_step t s (Ret (s\<lparr>pending := True, command_at := C_join\<rparr>))"
| cancel_null: "command_at s = C_cancel \<Longrightarrow> \<not> TransferThread (CurrentTransfer (object s)) \<Longrightarrow>
    abort_step t s (Crash NullPointer)"
| join: "command_at s = C_join \<Longrightarrow> TransferThread (CurrentTransfer (object s)) \<Longrightarrow> \<not> detached s \<Longrightarrow>
    transfer_at s \<in> {T_ended, T_cancelled} \<Longrightarrow> abort_step t s (Ret (s\<lparr>command_at := C_reenter\<rparr>))"
| join_null: "command_at s = C_join \<Longrightarrow> \<not> TransferThread (CurrentTransfer (object s)) \<Longrightarrow> abort_step t s (Crash NullPointer)"
| join_detached: "command_at s = C_join \<Longrightarrow> TransferThread (CurrentTransfer (object s)) \<Longrightarrow> detached s \<Longrightarrow>
    abort_step t s (Crash UseAfterFree)"
| reenter: "command_at s = C_reenter \<Longrightarrow> lock_side s = None \<Longrightarrow>
    abort_step t s (Ret (s\<lparr>lock_side := Some Commands, command_at := C_forget\<rparr>))"
| forget: "command_at s = C_forget \<Longrightarrow>
    abort_step t s (Ret (s\<lparr>object := forget_transfer (object s), lock_side := None, command_at := C_done\<rparr>))"
| work_ends: "transfer_at s = T_work \<Longrightarrow> abort_step t s (Ret (s\<lparr>transfer_at := T_enter\<rparr>))"
| work_cancelled: "transfer_at s = T_work \<Longrightarrow> pending s \<Longrightarrow> abort_step t s (Ret (s\<lparr>transfer_at := T_cancelled\<rparr>))"
| transfer_enter: "transfer_at s = T_enter \<Longrightarrow> lock_side s = None \<Longrightarrow>
    abort_step t s (Ret (s\<lparr>lock_side := Some Transfer, transfer_at := T_close\<rparr>))"
| transfer_close: "transfer_at s = T_close \<Longrightarrow>
    abort_step t s (Ret (s\<lparr>object := close_data (object s), transfer_at := T_detach\<rparr>))"
| close_cancelled: "transfer_at s = T_close \<Longrightarrow> DataSock (object s) \<noteq> INVALID_SOCKET \<Longrightarrow> pending s \<Longrightarrow>
    abort_step t s (Ret (s\<lparr>object := close_data (object s), transfer_at := T_cancelled\<rparr>))"
| transfer_detach: "transfer_at s = T_detach \<Longrightarrow>
    abort_step t s (Ret (s\<lparr>detached := TransferThread (CurrentTransfer (object s)), transfer_at := T_forget\<rparr>))"
| transfer_forget: "transfer_at s = T_forget \<Longrightarrow>
    abort_step t s (Ret (s\<lparr>object := forget_transfer (object s), lock_side := None, transfer_at := T_time\<rparr>))"
| transfer_time: "transfer_at s = T_time \<Longrightarrow>
    abort_step t s (Ret (s\<lparr>object := (object s)\<lparr>tTimeoutTime := t\<rparr>, transfer_at := T_ended\<rparr>))"

inductive_cases abort_stepE: "abort_step t s r"

text \<open>A run of \<open>n\<close> steps.\<close>

inductive abort_run :: "int \<Rightarrow> nat \<Rightarrow> abort_state \<Rightarrow> abort_state outcome \<Rightarrow> bool" for t :: int where
  stay: "abort_run t 0 s (Ret s)"
| more: "abort_run t n s (Ret s') \<Longrightarrow> abort_step t s' r \<Longrightarrow> abort_run t (Suc n) s r"

text \<open>ABOR arrives while the transfer thread works.\<close>

definition aborting :: "client \<Rightarrow> abort_state" where
  "aborting c = \<lparr>object = c, lock_side = None, command_at = C_enter, transfer_at = T_work, pending = False, detached = False\<rparr>"

section \<open>The states that are reached\<close>

text \<open>What the object holds, from the points where the threads are.\<close>

definition object_at :: "int \<Rightarrow> client \<Rightarrow> command_point \<Rightarrow> transfer_point \<Rightarrow> client" where
  "object_at t c cp tp =
     (let d = (if tp \<in> {T_time, T_ended} \<or> cp = C_done then fst (ResetDataConnection True c)
               else if cp \<notin> {C_enter, C_close} \<or> tp \<in> {T_detach, T_forget} then close_data c else c)
      in if tp = T_ended then d\<lparr>tTimeoutTime := t\<rparr> else d)"

definition lock_at :: "command_point \<Rightarrow> transfer_point \<Rightarrow> side option" where
  "lock_at cp tp = (if cp \<in> {C_close, C_look, C_forget} then Some Commands
     else if tp \<in> {T_close, T_detach, T_forget} then Some Transfer else None)"

definition abort_inv :: "int \<Rightarrow> client \<Rightarrow> abort_state \<Rightarrow> bool" where
  "abort_inv t c s \<longleftrightarrow>
     object s = object_at t c (command_at s) (transfer_at s) \<and>
     lock_side s = lock_at (command_at s) (transfer_at s) \<and>
     (command_at s \<in> {C_close, C_look, C_forget} \<longrightarrow> transfer_at s \<notin> {T_close, T_detach, T_forget}) \<and>
     (pending s \<longrightarrow> command_at s \<in> {C_join, C_reenter, C_forget, C_done}) \<and>
     (transfer_at s = T_cancelled \<longrightarrow> pending s) \<and>
     (command_at s = C_join \<longrightarrow> pending s) \<and>
     (command_at s \<in> {C_reenter, C_forget, C_done} \<longrightarrow> transfer_at s \<in> {T_time, T_ended, T_cancelled}) \<and>
     (detached s \<longleftrightarrow> transfer_at s \<in> {T_forget, T_time, T_ended})"

lemma abort_objects:
  "close_data (close_data c) = close_data c" "forget_transfer (close_data c) = fst (ResetDataConnection True c)"
  "close_data (fst (ResetDataConnection True c)) = fst (ResetDataConnection True c)"
  "forget_transfer (fst (ResetDataConnection True c)) = fst (ResetDataConnection True c)"
  "TransferThread (CurrentTransfer (close_data c)) = TransferThread (CurrentTransfer c)"
  "\<not> TransferThread (CurrentTransfer (fst (ResetDataConnection True c)))"
  "DataSock (close_data c) = INVALID_SOCKET"
  by (simp_all add: close_data_def forget_transfer_def ResetDataConnection_def zero_transfer_def)

lemma abort_objects_time:
  "close_data (c\<lparr>tTimeoutTime := t\<rparr>) = (close_data c)\<lparr>tTimeoutTime := t\<rparr>"
  "forget_transfer (c\<lparr>tTimeoutTime := t\<rparr>) = (forget_transfer c)\<lparr>tTimeoutTime := t\<rparr>"
  by (simp_all add: close_data_def forget_transfer_def)

lemmas abort_simps = abort_inv_def object_at_def lock_at_def abort_objects abort_objects_time

lemma abort_inv_step:
  assumes "abort_step t s r" and "abort_inv t c s" and "TransferThread (CurrentTransfer c)"
  shows "case r of Ret s' \<Rightarrow> abort_inv t c s' | _ \<Rightarrow> True"
  using assms
proof (induction rule: abort_step.induct)
  case (enter s)
  then show ?case by (cases "transfer_at s") (auto simp: abort_simps)
next
  case (close s)
  then show ?case by (cases "transfer_at s") (auto simp: abort_simps)
next
  case (look_thread s)
  then show ?case by (cases "transfer_at s") (auto simp: abort_simps)
next
  case (look_none s)
  then show ?case by (cases "transfer_at s") (auto simp: abort_simps)
next
  case (cancel s)
  then show ?case by (cases "transfer_at s") (auto simp: abort_simps)
next
  case (join s)
  then show ?case by (cases "transfer_at s") (auto simp: abort_simps)
next
  case (reenter s)
  then show ?case by (cases "transfer_at s") (auto simp: abort_simps)
next
  case (forget s)
  then show ?case by (cases "transfer_at s") (auto simp: abort_simps)
next
  case (work_ends s)
  then show ?case by (cases "command_at s") (auto simp: abort_simps)
next
  case (work_cancelled s)
  then show ?case by (cases "command_at s") (auto simp: abort_simps)
next
  case (transfer_enter s)
  then show ?case by (cases "command_at s") (auto simp: abort_simps)
next
  case (transfer_close s)
  then show ?case by (cases "command_at s") (auto simp: abort_simps)
next
  case (close_cancelled s)
  then show ?case by (cases "command_at s") (auto simp: abort_simps)
next
  case (transfer_detach s)
  then show ?case by (cases "command_at s") (auto simp: abort_simps)
next
  case (transfer_forget s)
  then show ?case by (cases "command_at s") (auto simp: abort_simps)
next
  case (transfer_time s)
  then show ?case by (cases "command_at s") (auto simp: abort_simps)
qed simp_all

lemma abort_inv_start: "abort_inv t c (aborting c)"
  by (simp add: aborting_def abort_simps)

text \<open>How many pieces are left; every step takes one.\<close>

fun command_left :: "command_point \<Rightarrow> nat" where
  "command_left C_enter = 7" | "command_left C_close = 6" | "command_left C_look = 5" | "command_left C_cancel = 4"
| "command_left C_join = 3" | "command_left C_reenter = 2" | "command_left C_forget = 1" | "command_left C_done = 0"

fun transfer_left :: "transfer_point \<Rightarrow> nat" where
  "transfer_left T_work = 6" | "transfer_left T_enter = 5" | "transfer_left T_close = 4" | "transfer_left T_detach = 3"
| "transfer_left T_forget = 2" | "transfer_left T_time = 1" | "transfer_left T_ended = 0" | "transfer_left T_cancelled = 0"

definition pieces_left :: "abort_state \<Rightarrow> nat" where
  "pieces_left s = command_left (command_at s) + transfer_left (transfer_at s)"

lemma pieces_left_step: "abort_step t s r \<Longrightarrow> case r of Ret s' \<Rightarrow> pieces_left s' < pieces_left s | _ \<Rightarrow> 0 < pieces_left s"
  by (induction rule: abort_step.induct) (auto simp: pieces_left_def)

lemma abort_run_inv:
  assumes "abort_run t n (aborting c) r" and "TransferThread (CurrentTransfer c)"
  shows "n \<le> 13 \<and> (case r of Ret s \<Rightarrow> abort_inv t c s \<and> n + pieces_left s \<le> 13 | _ \<Rightarrow> True)"
  using assms
proof (induction n "aborting c" r rule: abort_run.induct)
  case stay
  then show ?case using abort_inv_start[of t c] by (simp add: pieces_left_def aborting_def)
next
  case (more n s' r)
  then show ?case
    using abort_inv_step[OF more.hyps(3), of c] pieces_left_step[OF more.hyps(3)] by (cases r) auto
qed

text \<open>Until both threads are at their ends one of them can move: neither waits for ever.\<close>

lemma abort_progress:
  assumes "abort_inv t c s" and "\<nexists>r. abort_step t s r"
  shows "command_at s = C_done \<and> transfer_at s \<in> {T_ended, T_cancelled}"
proof -
  have n: "abort_step t s r \<Longrightarrow> False" for r using assms(2) by blast
  note moves = n[OF abort_step.close] n[OF abort_step.look_thread] n[OF abort_step.look_none] n[OF abort_step.cancel]
    n[OF abort_step.cancel_null] n[OF abort_step.join] n[OF abort_step.join_null] n[OF abort_step.join_detached]
    n[OF abort_step.forget] n[OF abort_step.enter] n[OF abort_step.reenter]
  have co: "command_at s = C_done \<or> command_at s \<in> {C_enter, C_reenter} \<and> lock_side s \<noteq> None \<or>
      command_at s = C_join \<and> transfer_at s \<notin> {T_ended, T_cancelled}"
    using moves by (cases "command_at s") auto
  note moves = n[OF abort_step.work_ends] n[OF abort_step.transfer_enter] n[OF abort_step.transfer_close]
    n[OF abort_step.transfer_detach] n[OF abort_step.transfer_forget] n[OF abort_step.transfer_time]
  have tr: "transfer_at s \<in> {T_ended, T_cancelled} \<or> transfer_at s = T_enter \<and> lock_side s \<noteq> None"
    using moves by (cases "transfer_at s") auto
  from assms(1) have "lock_side s = lock_at (command_at s) (transfer_at s)"
    "command_at s \<in> {C_reenter, C_forget, C_done} \<longrightarrow> transfer_at s \<in> {T_time, T_ended, T_cancelled}"
    by (simp_all add: abort_inv_def)
  with tr co show ?thesis by (auto simp: lock_at_def)
qed

section \<open>The property\<close>

text \<open>C14: ABOR, or another command that resets the data connection, while a transfer runs: every interleaving of the
  two threads is over after at most 13 steps. If it does not fail, both threads are at their ends, the lock is
  free, and the client object is as the single operation \<open>ResetDataConnection\<close> leaves it, except for the
  time of the last activity. But for every client there is an interleaving that fails: the transfer
  thread ends after the command thread has left the lock, and its id is null when it is cancelled.\<close>

theorem reset_during_transfer:
  assumes "TransferThread (CurrentTransfer c)"
  shows "(\<forall>n r. abort_run t n (aborting c) r \<longrightarrow> n \<le> 13) \<and>
    (\<forall>n s. abort_run t n (aborting c) (Ret s) \<and> (\<nexists>r. abort_step t s r) \<longrightarrow>
       command_at s = C_done \<and> transfer_at s \<in> {T_ended, T_cancelled} \<and> lock_side s = None \<and>
       object s \<in> {fst (ResetDataConnection True c), (fst (ResetDataConnection True c))\<lparr>tTimeoutTime := t\<rparr>}) \<and>
    (\<exists>n. abort_run t n (aborting c) (Crash NullPointer))"
proof (intro conjI allI impI)
  show "n \<le> 13" if "abort_run t n (aborting c) r" for n r using abort_run_inv[OF that assms] by simp
  fix n s assume a: "abort_run t n (aborting c) (Ret s) \<and> (\<nexists>r. abort_step t s r)"
  then have i: "abort_inv t c s" using abort_run_inv[of t n c "Ret s"] assms by simp
  have e: "command_at s = C_done \<and> transfer_at s \<in> {T_ended, T_cancelled}" using abort_progress[OF i] a by blast
  have at: "object s = object_at t c (command_at s) (transfer_at s)" "lock_side s = lock_at (command_at s) (transfer_at s)"
    using i unfolding abort_inv_def by blast+
  from e show "command_at s = C_done" "transfer_at s \<in> {T_ended, T_cancelled}" by blast+
  from e show "lock_side s = None" unfolding at(2) by (auto simp: lock_at_def)
  from e show "object s \<in> {fst (ResetDataConnection True c), (fst (ResetDataConnection True c))\<lparr>tTimeoutTime := t\<rparr>}"
    unfolding at(1) by (auto simp: object_at_def)
next
  let ?s = "\<lambda>b l p q d. \<lparr>object = b, lock_side = l, command_at = p, transfer_at = q, pending = False, detached = d\<rparr>"
  let ?c = "close_data c"
  have "abort_run t 0 (aborting c) (Ret (?s c None C_enter T_work False))"
    using abort_run.stay[of t "aborting c"] by (simp add: aborting_def)
  from abort_run.more[OF this abort_step.enter]
  have "abort_run t 1 (aborting c) (Ret (?s c (Some Commands) C_close T_work False))" by simp
  from abort_run.more[OF this abort_step.close]
  have "abort_run t 2 (aborting c) (Ret (?s ?c (Some Commands) C_look T_work False))" by (simp add: numeral_2_eq_2)
  from abort_run.more[OF this abort_step.look_thread]
  have "abort_run t 3 (aborting c) (Ret (?s ?c None C_cancel T_work False))" using assms by (simp add: abort_objects)
  from abort_run.more[OF this abort_step.work_ends]
  have "abort_run t 4 (aborting c) (Ret (?s ?c None C_cancel T_enter False))" by simp
  from abort_run.more[OF this abort_step.transfer_enter]
  have "abort_run t 5 (aborting c) (Ret (?s ?c (Some Transfer) C_cancel T_close False))" by simp
  from abort_run.more[OF this abort_step.transfer_close]
  have "abort_run t 6 (aborting c) (Ret (?s ?c (Some Transfer) C_cancel T_detach False))" by (simp add: abort_objects)
  from abort_run.more[OF this abort_step.transfer_detach]
  have "abort_run t 7 (aborting c) (Ret (?s ?c (Some Transfer) C_cancel T_forget True))" using assms by (simp add: abort_objects)
  from abort_run.more[OF this abort_step.transfer_forget]
  have "abort_run t 8 (aborting c) (Ret (?s (fst (ResetDataConnection True c)) None C_cancel T_time True))"
    by (simp add: abort_objects)
  from abort_run.more[OF this abort_step.cancel_null]
  show "\<exists>n. abort_run t n (aborting c) (Crash NullPointer)" by (simp add: abort_objects) blast
qed

theorem reset_during_transfer_witness:
  "\<exists>c n. TransferThread (CurrentTransfer c) \<and> DataSock c = Connected \<and> eStatus c = LISTING \<and>
     abort_run 5 n (aborting c) (Crash NullPointer)"
proof -
  let ?c = "(new_client 1 2)\<lparr>eStatus := LISTING, DataSock := Connected, CurrentTransfer := zero_transfer\<lparr>TransferThread := True\<rparr>\<rparr>"
  have "TransferThread (CurrentTransfer ?c)" by simp
  from reset_during_transfer[OF this, of 5] have "\<exists>n. abort_run 5 n (aborting ?c) (Crash NullPointer)" by blast
  then show ?thesis by (intro exI[of _ ?c]) simp
qed

end
