(* ===== verification/Registry.thy ===== *)
theory Registry
  imports Session
begin

text \<open>
  The client list of the server: \<open>AddClient\<close> appends a client object to a doubly linked list through
  \<open>pPrevClient\<close>, \<open>pNextClient\<close>, \<open>pFirstClient\<close> and \<open>pLastClient\<close>, and the destructor takes it out. The
  objects live in a store from addresses to objects; the user list is linked in the same way.
\<close>

section \<open>Linked lists\<close>

record links =
  pPrev :: "nat option"
  pNext :: "nat option"

record chain =
  node :: "nat \<rightharpoonup> links"
  pFirst :: "nat option"
  pLast :: "nat option"

definition empty_chain :: chain where
  "empty_chain = \<lparr>node = Map.empty, pFirst = None, pLast = None\<rparr>"

definition set_next :: "nat option \<Rightarrow> nat option \<Rightarrow> (nat \<rightharpoonup> links) \<Rightarrow> nat \<rightharpoonup> links" where
  "set_next p v h = (case p of None \<Rightarrow> h | Some a \<Rightarrow> h(a := map_option (\<lambda>l. l\<lparr>pNext := v\<rparr>) (h a)))"

definition set_prev :: "nat option \<Rightarrow> nat option \<Rightarrow> (nat \<rightharpoonup> links) \<Rightarrow> nat \<rightharpoonup> links" where
  "set_prev p v h = (case p of None \<Rightarrow> h | Some a \<Rightarrow> h(a := map_option (\<lambda>l. l\<lparr>pPrev := v\<rparr>) (h a)))"

text \<open>Append a new object, whose links are null.\<close>

definition append_node :: "nat \<Rightarrow> chain \<Rightarrow> chain" where
  "append_node a c =
     (case pLast c of
        Some z \<Rightarrow> c\<lparr>node := set_next (Some z) (Some a) ((node c)(a \<mapsto> \<lparr>pPrev = Some z, pNext = None\<rparr>)), pLast := Some a\<rparr>
      | None \<Rightarrow> c\<lparr>node := (node c)(a \<mapsto> \<lparr>pPrev = None, pNext = None\<rparr>), pFirst := Some a, pLast := Some a\<rparr>)"

text \<open>Take an object out, then free it. A freed object is not read again.\<close>

definition unlink_node :: "nat \<Rightarrow> chain \<Rightarrow> chain outcome" where
  "unlink_node a c = (case node c a of
      None \<Rightarrow> Crash UseAfterFree
    | Some l \<Rightarrow>
        let h = set_prev (pNext l) (pPrev l) (set_next (pPrev l) (pNext l) (node c))
        in Ret \<lparr>node = h(a := None),
             pFirst = (if pFirst c = Some a then pNext l else pFirst c),
             pLast = (if pLast c = Some a then pPrev l else pLast c)\<rparr>)"

section \<open>Clients\<close>

record registry =
  chain_of :: chain
  clients :: "nat \<rightharpoonup> client"
  uiNumberOfClients :: "32 word"

text \<open>
  \<open>AddClient\<close>: \<open>a\<close> is the address \<open>new\<close> returns, \<open>reached\<close> whether Redis can be connected to. When it
  cannot, NULL is returned and the object stays in the list.
\<close>

definition AddClient :: "'db redis \<Rightarrow> bool \<Rightarrow> nat \<Rightarrow> nat \<Rightarrow> int \<Rightarrow> int \<Rightarrow> registry \<Rightarrow> 'db \<Rightarrow>
    nat option \<times> effect list \<times> registry \<times> 'db" where
  "AddClient R reached dbno a server_ip client_ip g db =
     (let g1 = \<lparr>chain_of = append_node a (chain_of g), clients = (clients g)(a \<mapsto> new_client server_ip client_ip),
                uiNumberOfClients = uiNumberOfClients g + 1\<rparr>
      in if \<not> reached then (None, [OnServerEvent REDIS_CONNECT_ERROR], g1, db)
         else case redis_cmd R (SELECT dbno) db of (reply, db1) \<Rightarrow>
           if reply \<noteq> None \<and> redis_err R db1 then (None, [OnServerEvent REDIS_CONNECT_ERROR], g1, db1)
           else (Some a, [OnClientEvent NEW_CLIENT None], g1, db1))"

definition delete_client :: "nat \<Rightarrow> registry \<Rightarrow> (effect list \<times> registry) outcome" where
  "delete_client a g = and_then (unlink_node a (chain_of g)) (\<lambda>c.
     Ret ([OnClientEvent DELETE_CLIENT None],
       \<lparr>chain_of = c, clients = (clients g)(a := None), uiNumberOfClients = uiNumberOfClients g - 1\<rparr>))"

text \<open>\<open>InitDelete\<close> closes both sockets of a client.\<close>

definition InitDelete :: "client \<Rightarrow> client" where
  "InitDelete c = c\<lparr>CtrlSock := False, DataSock := INVALID_SOCKET\<rparr>"

text \<open>
  One round of the accepting thread on a connection: a client object, and its command thread; without
  the thread the object is deleted again. The result is the address of the client that runs.
\<close>

definition accept_client :: "'db redis \<Rightarrow> bool \<Rightarrow> nat \<Rightarrow> bool \<Rightarrow> nat \<Rightarrow> int \<Rightarrow> int \<Rightarrow> registry \<Rightarrow> 'db \<Rightarrow>
    (nat option \<times> effect list \<times> registry \<times> 'db) outcome" where
  "accept_client R reached dbno created a server_ip client_ip g db =
     (case AddClient R reached dbno a server_ip client_ip g db of (p, out, g1, db1) \<Rightarrow>
        (case p of
           None \<Rightarrow> Ret (None, out, g1, db1)
         | Some x \<Rightarrow> if created then Ret (Some x, out, g1, db1)
             else and_then (delete_client x g1) (\<lambda>(out2, g2).
               Ret (None, out @ out2 @ [OnServerEvent THREAD_ERROR], g2, db1))))"

section \<open>What a chain stands for\<close>

text \<open>The nodes of \<open>xs\<close> linked in order between \<open>p\<close> and \<open>n\<close>.\<close>

fun seg :: "(nat \<rightharpoonup> links) \<Rightarrow> nat option \<Rightarrow> nat list \<Rightarrow> nat option \<Rightarrow> bool" where
  "seg h p [] n = True"
| "seg h p (x # xs) n \<longleftrightarrow>
     h x = Some \<lparr>pPrev = p, pNext = (case xs of [] \<Rightarrow> n | y # _ \<Rightarrow> Some y)\<rparr> \<and> seg h (Some x) xs n"

definition head_or :: "nat list \<Rightarrow> nat option \<Rightarrow> nat option" where
  "head_or xs d = (case xs of [] \<Rightarrow> d | y # _ \<Rightarrow> Some y)"

definition last_or :: "nat list \<Rightarrow> nat option \<Rightarrow> nat option" where
  "last_or xs d = (if xs = [] then d else Some (last xs))"

definition represents :: "chain \<Rightarrow> nat list \<Rightarrow> bool" where
  "represents c xs \<longleftrightarrow> distinct xs \<and> dom (node c) = set xs \<and> seg (node c) None xs None \<and>
     pFirst c = head_or xs None \<and> pLast c = last_or xs None"

lemma seg_append: "seg h p (xs @ ys) n \<longleftrightarrow> seg h p xs (head_or ys n) \<and> seg h (last_or xs p) ys n"
  by (induction xs arbitrary: p) (auto simp: head_or_def last_or_def split: list.splits)

lemma seg_frame: "\<forall>x\<in>set xs. h' x = h x \<Longrightarrow> seg h' p xs n = seg h p xs n"
  by (induction xs arbitrary: p) auto

lemma head_last_simps [simp]:
  "head_or [] d = d" "head_or (x # xs) d = Some x" "last_or [] d = d" "last_or (xs @ [x]) d = Some x"
  "last_or [x] d = Some x"
  by (simp_all add: head_or_def last_or_def)

lemma represents_empty: "represents empty_chain []"
  by (simp add: represents_def empty_chain_def)

lemma represents_append:
  assumes "represents c xs" and "a \<notin> set xs"
  shows "represents (append_node a c) (xs @ [a])"
proof (cases xs rule: rev_cases)
  case Nil
  then show ?thesis using assms by (simp add: represents_def append_node_def)
next
  case (snoc ys z)
  let ?h = "set_next (Some z) (Some a) ((node c)(a \<mapsto> \<lparr>pPrev = Some z, pNext = None\<rparr>))"
  have r: "distinct (ys @ [z])" "dom (node c) = set (ys @ [z])" "seg (node c) None (ys @ [z]) None"
    "pFirst c = head_or (ys @ [z]) None" "pLast c = Some z" "a \<noteq> z" "a \<notin> set ys"
    using assms snoc by (auto simp: represents_def)
  have z: "node c z = Some \<lparr>pPrev = last_or ys None, pNext = None\<rparr>" using r(3) by (simp add: seg_append)
  have "?h = (node c)(a \<mapsto> \<lparr>pPrev = Some z, pNext = None\<rparr>, z \<mapsto> \<lparr>pPrev = last_or ys None, pNext = Some a\<rparr>)"
    using r(6) z by (simp add: set_next_def)
  moreover have "seg ?h None ys (Some z) = seg (node c) None ys (Some z)"
    using r(1,6,7) by (intro seg_frame) (auto simp: set_next_def)
  ultimately have "seg ?h None (ys @ [z, a]) None" "dom ?h = set (ys @ [z, a])"
    using r by (auto simp: seg_append)
  moreover have "append_node a c = c\<lparr>node := ?h, pLast := Some a\<rparr>" by (simp add: append_node_def r(5))
  ultimately show ?thesis using r unfolding represents_def snoc by (cases ys) (auto simp: last_or_def)
qed

lemma dom_set_links: "dom (set_next p v h) = dom h" "dom (set_prev p v h) = dom h"
  by (auto simp: set_next_def set_prev_def split: option.splits if_splits)

lemma represents_unlink:
  assumes "represents c (ys @ a # zs)"
  shows "\<exists>c'. unlink_node a c = Ret c' \<and> represents c' (ys @ zs)"
proof -
  let ?p = "last_or ys None" and ?n = "head_or zs None"
  have r: "distinct (ys @ a # zs)" "dom (node c) = set (ys @ a # zs)" "seg (node c) None ys (Some a)"
    "seg (node c) (Some a) zs None" "node c a = Some \<lparr>pPrev = ?p, pNext = ?n\<rparr>"
    "pFirst c = head_or (ys @ a # zs) None" "pLast c = last_or (ys @ a # zs) None"
    using assms by (auto simp: represents_def seg_append head_or_def)
  let ?h = "(set_prev ?n ?p (set_next ?p ?n (node c)))(a := None)"
  have d: "dom ?h = set (ys @ zs)"
    using r(1,2) by (auto simp: dom_set_links)
  have y: "seg ?h None ys ?n"
  proof (cases ys rule: rev_cases)
    case (snoc us u)
    have "node c u = Some \<lparr>pPrev = last_or us None, pNext = Some a\<rparr>" "seg (node c) None us (Some u)"
      using r(3) snoc by (auto simp: seg_append)
    moreover have "seg ?h None us (Some u) = seg (node c) None us (Some u)"
      using r(1) snoc by (intro seg_frame) (auto simp: set_next_def set_prev_def head_or_def split: option.splits list.splits)
    ultimately show ?thesis using r(1) snoc
      by (auto simp: seg_append set_next_def set_prev_def head_or_def split: option.splits list.splits)
  qed simp
  have z: "seg ?h ?p zs None"
  proof (cases zs)
    case (Cons v vs)
    have p: "?p \<noteq> Some x" if "x \<in> set zs" for x
    proof (cases ys rule: rev_cases)
      case (snoc us u)
      then show ?thesis using r(1) that by auto
    qed simp
    have n: "set_next ?p w h x = h x" if "x \<in> set zs" for w h x
      using p[OF that] by (auto simp: set_next_def split: option.splits)
    have v: "node c v = Some \<lparr>pPrev = Some a, pNext = head_or vs None\<rparr>" "seg (node c) (Some v) vs None"
      using r(4) Cons by (auto simp: head_or_def)
    have "seg ?h (Some v) vs None = seg (node c) (Some v) vs None"
      using r(1) Cons by (intro seg_frame) (auto simp: set_prev_def n)
    moreover have "?h v = Some \<lparr>pPrev = ?p, pNext = head_or vs None\<rparr>"
      using r(1) Cons v(1) by (simp add: set_prev_def n)
    ultimately show ?thesis using v(2) Cons by (simp add: head_or_def)
  qed simp
  let ?c = "\<lparr>node = ?h, pFirst = (if pFirst c = Some a then ?n else pFirst c),
    pLast = (if pLast c = Some a then ?p else pLast c)\<rparr>"
  have "seg ?h None (ys @ zs) None" using y z by (simp add: seg_append)
  moreover have "pFirst ?c = head_or (ys @ zs) None"
    using r(1,6) by (cases ys) (auto simp: head_or_def)
  moreover have "pLast ?c = last_or (ys @ zs) None"
    using r(1,7) by (cases zs rule: rev_cases) (auto simp: last_or_def)
  ultimately have "represents ?c (ys @ zs)" using r(1) d by (simp add: represents_def)
  moreover have "unlink_node a c = Ret ?c" by (simp add: unlink_node_def r(5))
  ultimately show ?thesis by auto
qed

section \<open>The property\<close>

text \<open>The number of clients is kept in 32 bits.\<close>

definition registry_list :: "registry \<Rightarrow> nat list \<Rightarrow> bool" where
  "registry_list g xs \<longleftrightarrow> represents (chain_of g) xs \<and> dom (clients g) = set xs \<and>
     uiNumberOfClients g = of_nat (length xs)"

text \<open>C20: The linked client list implements a list of addresses: \<open>AddClient\<close> appends, whatever Redis
  answers (so a client whose connection to Redis fails stays in the list although NULL is returned),
  and deleting a client of the list removes it and succeeds; the number of clients is the length, in
  32 bits.\<close>

theorem client_list_refines:
  assumes "registry_list g xs"
  shows "(\<forall>a. a \<notin> set xs \<longrightarrow> (case AddClient R reached dbno a server_ip client_ip g db of (p, out, g', db') \<Rightarrow>
      registry_list g' (xs @ [a]) \<and> (p = None \<longleftrightarrow> OnServerEvent REDIS_CONNECT_ERROR \<in> set out) \<and> p \<in> {None, Some a})) \<and>
    (\<forall>a\<in>set xs. \<exists>out g'. delete_client a g = Ret (out, g') \<and> registry_list g' (remove1 a xs))"
proof (intro conjI allI impI ballI)
  fix a assume "a \<notin> set xs"
  then have "represents (append_node a (chain_of g)) (xs @ [a])" "insert a (dom (clients g)) = set (xs @ [a])"
    using assms represents_append by (auto simp: registry_list_def)
  then show "case AddClient R reached dbno a server_ip client_ip g db of (p, out, g', db') \<Rightarrow>
      registry_list g' (xs @ [a]) \<and> (p = None \<longleftrightarrow> OnServerEvent REDIS_CONNECT_ERROR \<in> set out) \<and> p \<in> {None, Some a}"
    using assms by (auto simp: AddClient_def Let_def registry_list_def split: prod.splits)
next
  fix a assume a: "a \<in> set xs"
  then obtain ys zs where x: "xs = ys @ a # zs" "a \<notin> set ys" by (meson split_list_first)
  have g: "represents (chain_of g) (ys @ a # zs)" "dom (clients g) = set (ys @ a # zs)"
    "uiNumberOfClients g = of_nat (length (ys @ a # zs))" "distinct (ys @ a # zs)"
    using assms x by (auto simp: registry_list_def represents_def)
  obtain c' where c: "unlink_node a (chain_of g) = Ret c'" "represents c' (ys @ zs)"
    using represents_unlink[OF g(1)] by blast
  have "remove1 a xs = ys @ zs" using x by (simp add: remove1_append)
  moreover have "dom ((clients g)(a := None)) = set (ys @ zs)" using g(2,4) by auto
  moreover have "uiNumberOfClients g - 1 = of_nat (length (ys @ zs))" using g(3) by simp
  ultimately show "\<exists>out g'. delete_client a g = Ret (out, g') \<and> registry_list g' (remove1 a xs)"
    using c by (simp add: delete_client_def outcome_simps registry_list_def)
qed

theorem client_list_refines_witness:
  "\<exists>g1 g2 out1 out2 p. AddClient mem_redis False 1 7 1 2 \<lparr>chain_of = empty_chain, clients = Map.empty, uiNumberOfClients = 0\<rparr>
       empty_mem = (p, out1, g1, empty_mem) \<and> p = None \<and> registry_list g1 [7] \<and>
     delete_client 7 g1 = Ret (out2, g2) \<and> registry_list g2 []"
proof -
  let ?g = "\<lparr>chain_of = empty_chain, clients = Map.empty, uiNumberOfClients = 0\<rparr> :: registry"
  have 0: "registry_list ?g []" by (simp add: registry_list_def represents_empty)
  obtain p out1 g1 where a: "AddClient mem_redis False 1 7 1 2 ?g empty_mem = (p, out1, g1, empty_mem)" "p = None"
    by (simp add: AddClient_def)
  have "registry_list g1 [7]"
    using client_list_refines[OF 0, of mem_redis False 1 1 2 empty_mem] a(1) by (auto dest: spec[of _ 7])
  moreover from client_list_refines[OF this, of mem_redis False 1 1 2 empty_mem] obtain out2 g2 where
    "delete_client 7 g1 = Ret (out2, g2)" "registry_list g2 []" by auto
  ultimately show ?thesis using a by blast
qed

end
