(* ===== verification/UserList.thy ===== *)
theory UserList
  imports Registry Paths
begin

text \<open>
  The user list of \<open>CFtpServer\<close>: \<open>AddUser\<close> and \<open>DeleteUser\<close>, with the clients that \<open>DeleteUser\<close> drops.
  User entries are objects in a store, linked as the clients are; \<open>owner\<close> gives the entry that the
  member \<open>pUser\<close> of a client object points to.
\<close>

section \<open>The list\<close>

record userlist =
  uchain :: chain
  entries :: "nat \<rightharpoonup> user_entry"
  uiNumberOfUser :: "32 word"

text \<open>The object that \<open>AddUser\<close> fills.\<close>

definition new_user :: "string \<Rightarrow> string option \<Rightarrow> string \<Rightarrow> user_entry" where
  "new_user login pass dir = CUserEntry\<lparr>szLogin := login, szStartDirectory := dir,
     szPassword := (case pass of None \<Rightarrow> [] | Some p \<Rightarrow> p), bIsEnabled := True\<rparr>"

text \<open>
  \<open>AddUser\<close>, where \<open>a\<close> is the address \<open>new\<close> returns. Whether the login exists is asked of the database;
  \<open>is_dir\<close> is the answer of \<open>stat\<close> and \<open>S_ISDIR\<close>, of the file system of the meta server.
\<close>

definition AddUser :: "'db redis \<Rightarrow> bool \<Rightarrow> nat \<Rightarrow> (string \<Rightarrow> bool) \<Rightarrow> nat \<Rightarrow> string option \<Rightarrow> string option \<Rightarrow>
    string option \<Rightarrow> userlist \<Rightarrow> 'db \<Rightarrow> (nat option \<times> effect list \<times> userlist \<times> 'db) outcome" where
  "AddUser R reached dbno is_dir a pszLogin pszPass pszStartDir U db = (case (pszLogin, pszStartDir) of
      (Some login, Some dir) \<Rightarrow>
        if length login \<le> MaxLoginLen \<and> length dir \<le> MaxRootPathLen \<and>
           (case pszPass of None \<Rightarrow> True | Some p \<Rightarrow> length p \<le> MaxPasswordLen)
        then and_then (SearchUserFromLogin R reached dbno login db) (\<lambda>(found, out, db1).
          if found \<noteq> None then Ret (None, out, U, db1)
          else let sd = the (snd (SimplifyPath (Some dir))) in
            if \<not> is_dir sd then Ret (None, out, U, db1)
            else let u = new_user login pszPass sd
              in Ret (Some a, out @ [OnUserEvent NEW_USER login],
                \<lparr>uchain = append_node a (uchain U), entries = (entries U)(a \<mapsto> u), uiNumberOfUser = uiNumberOfUser U + 1\<rparr>,
                db1))
        else Ret (None, [], U, db)
    | _ \<Rightarrow> Ret (None, [], U, db))"

text \<open>The loop of \<open>DeleteUser\<close> over the clients, from the client \<open>p\<close> on.\<close>

partial_function (option) drop_clients ::
  "nat \<Rightarrow> nat option \<Rightarrow> (nat \<rightharpoonup> nat) \<Rightarrow> registry \<Rightarrow> ((nat \<rightharpoonup> nat) \<times> registry) outcome option" where
  "drop_clients u p owner g = (case p of
      None \<Rightarrow> Some (Ret (owner, g))
    | Some a \<Rightarrow> (case node (chain_of g) a of
          None \<Rightarrow> Some (Crash UseAfterFree)
        | Some l \<Rightarrow> (case clients g a of
              None \<Rightarrow> Some (Crash UseAfterFree)
            | Some c \<Rightarrow>
                if owner a = Some u
                then (if bIsLogged c
                      then drop_clients u (pNext l) owner (g\<lparr>clients := (clients g)(a \<mapsto> InitDelete c)\<rparr>)
                      else drop_clients u (pNext l) (owner(a := None)) (g\<lparr>clients := (clients g)(a \<mapsto> c\<lparr>pUser := None\<rparr>)\<rparr>))
                else drop_clients u (pNext l) owner g)))"



definition DeleteUser :: "nat option \<Rightarrow> userlist \<Rightarrow> (nat \<rightharpoonup> nat) \<Rightarrow> registry \<Rightarrow>
    (bool \<times> userlist \<times> (nat \<rightharpoonup> nat) \<times> registry) outcome" where
  "DeleteUser p U owner g = (case p of
      None \<Rightarrow> Ret (False, U, owner, g)
    | Some u \<Rightarrow> (case entries U u of
          None \<Rightarrow> Crash UseAfterFree
        | Some x \<Rightarrow> and_then (unlink_node u (uchain U)) (\<lambda>c.
            (case drop_clients u (pFirst (chain_of g)) owner g of
               None \<Rightarrow> Hang
             | Some r \<Rightarrow> and_then r (\<lambda>(owner', g').
                 Ret (True,
                   \<lparr>uchain = c,
                    entries = (if uiNumberOfClient x \<noteq> 0
                      then (entries U)(u \<mapsto> x\<lparr>bIsEnabled := False, bDelete := True\<rparr>) else (entries U)(u := None)),
                    uiNumberOfUser = uiNumberOfUser U - 1\<rparr>, owner', g'))))))"

section \<open>What the loop does\<close>

definition drop_client :: "nat \<Rightarrow> (nat \<rightharpoonup> nat) \<Rightarrow> nat \<Rightarrow> client \<Rightarrow> client" where
  "drop_client u owner a c =
     (if owner a \<noteq> Some u then c else if bIsLogged c then InitDelete c else c\<lparr>pUser := None\<rparr>)"

text \<open>The result of the loop over the clients \<open>xs\<close>.\<close>

definition dropped :: "nat \<Rightarrow> nat list \<Rightarrow> (nat \<rightharpoonup> nat) \<Rightarrow> registry \<Rightarrow> (nat \<rightharpoonup> nat) \<times> registry" where
  "dropped u xs owner g =
     (\<lambda>a. if a \<in> set xs \<and> owner a = Some u \<and> (\<exists>c. clients g a = Some c \<and> \<not> bIsLogged c) then None else owner a,
      g\<lparr>clients := (\<lambda>a. if a \<in> set xs then map_option (drop_client u owner a) (clients g a) else clients g a)\<rparr>)"

lemma drop_client_other: "x \<noteq> a \<Longrightarrow> drop_client u (owner(a := v)) x = drop_client u owner x"
  by (simp add: drop_client_def fun_eq_iff)

lemma dropped_Cons:
  assumes "a \<notin> set xs" and "clients g a = Some c"
  shows "dropped u (a # xs) owner g =
    (if owner a = Some u
     then (if bIsLogged c then dropped u xs owner (g\<lparr>clients := (clients g)(a \<mapsto> InitDelete c)\<rparr>)
           else dropped u xs (owner(a := None)) (g\<lparr>clients := (clients g)(a \<mapsto> c\<lparr>pUser := None\<rparr>)\<rparr>))
     else dropped u xs owner g)"
  using assms by (auto simp: dropped_def drop_client_def drop_client_other fun_eq_iff option.map_ident
      intro!: registry.equality)

lemma drop_clients_all:
  assumes "seg (node (chain_of g)) p xs None" and "distinct xs" and "set xs \<subseteq> dom (clients g)"
  shows "drop_clients u (head_or xs None) owner g = Some (Ret (dropped u xs owner g))"
  using assms
proof (induction xs arbitrary: p owner g)
  case Nil
  then show ?case by (simp add: drop_clients.simps dropped_def)
next
  case (Cons a xs)
  obtain c where c: "clients g a = Some c" using Cons.prems(3) by auto
  have n: "node (chain_of g) a = Some \<lparr>pPrev = p, pNext = head_or xs None\<rparr>"
    using Cons.prems(1) by (simp add: head_or_def)
  have step: "drop_clients u (head_or xs None) owner' g' = Some (Ret (dropped u xs owner' g'))"
    if "chain_of g' = chain_of g" "dom (clients g') = dom (clients g)" for owner' g'
    using Cons.IH[of g' "Some a" owner'] Cons.prems that by simp
  have "dom ((clients g)(a \<mapsto> d)) = dom (clients g)" for d using c by auto
  with step Cons.prems(2) show ?case
    by (subst drop_clients.simps) (simp add: n c dropped_Cons)
qed

section \<open>The property\<close>

definition user_list :: "userlist \<Rightarrow> nat list \<Rightarrow> bool" where
  "user_list U us \<longleftrightarrow> represents (uchain U) us \<and> set us \<subseteq> dom (entries U) \<and> uiNumberOfUser U = of_nat (length us)"

lemma represents_remove:
  assumes "represents c xs" and "a \<in> set xs"
  obtains c' where "unlink_node a c = Ret c'" "represents c' (remove1 a xs)"
proof -
  from assms(2) obtain ys zs where x: "xs = ys @ a # zs" "a \<notin> set ys" by (meson split_list_first)
  then have "remove1 a xs = ys @ zs" by (simp add: remove1_append)
  with represents_unlink[of c ys a zs] assms(1) x that show thesis by auto
qed

lemma new_user_fields:
  "szLogin (new_user l p d) = l" "szStartDirectory (new_user l p d) = d" "bIsEnabled (new_user l p d)"
  "ucPrivileges (new_user l p d) = 0"
  by (simp_all add: new_user_def CUserEntry_def)

lemma upd_inject: "m(a \<mapsto> x) = m(a \<mapsto> y) \<longleftrightarrow> x = y"
  by (metis fun_upd_same option.inject)

lemma registry_dropped: "registry_list g xs \<Longrightarrow> registry_list (snd (dropped u xs owner g)) xs"
  by (auto simp: registry_list_def dropped_def dom_def)

lemma DeleteUser_run:
  assumes "user_list U us" and "registry_list g xs" and "u \<in> set us" and "entries U u = Some x"
  shows "\<exists>c. represents c (remove1 u us) \<and> DeleteUser (Some u) U owner g =
    Ret (True, \<lparr>uchain = c, entries = (if uiNumberOfClient x \<noteq> 0
        then (entries U)(u \<mapsto> x\<lparr>bIsEnabled := False, bDelete := True\<rparr>) else (entries U)(u := None)),
      uiNumberOfUser = uiNumberOfUser U - 1\<rparr>, dropped u xs owner g)"
proof -
  obtain c where c: "unlink_node u (uchain U) = Ret c" "represents c (remove1 u us)"
    using represents_remove[of "uchain U" us u] assms(1,3) by (auto simp: user_list_def)
  have "drop_clients u (pFirst (chain_of g)) owner g = Some (Ret (dropped u xs owner g))"
    using drop_clients_all[of g None xs u owner] assms(2) by (auto simp: registry_list_def represents_def)
  then show ?thesis
    using c assms(4) by (intro exI[of _ c]) (simp add: DeleteUser_def outcome_simps split: prod.splits)
qed

text \<open>C22: The user list implements a list of addresses. \<open>AddUser\<close> refuses and changes nothing, or appends
  the new entry, enabled and without privileges; \<open>DeleteUser\<close> takes the entry out, leaves the client list
  as it is, closes both sockets of the clients of that entry that are logged in, takes the entry off the
  others, and frees it unless clients are counted on it; no freed object is touched.\<close>

theorem user_list_refines:
  assumes "user_list U us" and "registry_list g xs" and "a \<notin> set us" and "u \<in> set us"
  shows "(\<forall>p out U' db'. AddUser R reached dbno is_dir a login pass dir U db = Ret (p, out, U', db') \<longrightarrow>
      p = None \<and> U' = U \<or>
      p = Some a \<and> user_list U' (us @ [a]) \<and> (\<exists>x. entries U' = (entries U)(a \<mapsto> x) \<and> bIsEnabled x \<and>
        ucPrivileges x = 0 \<and> login = Some (szLogin x) \<and> is_dir (szStartDirectory x) \<and>
        snd (SimplifyPath dir) = Some (szStartDirectory x))) \<and>
    (\<exists>x U' owner' g'. entries U u = Some x \<and> DeleteUser (Some u) U owner g = Ret (True, U', owner', g') \<and>
      user_list U' (remove1 u us) \<and> registry_list g' xs \<and>
      entries U' u = (if uiNumberOfClient x = 0 then None else Some (x\<lparr>bIsEnabled := False, bDelete := True\<rparr>)) \<and>
      (\<forall>b c. clients g b = Some c \<longrightarrow> clients g' b = Some (if owner b \<noteq> Some u then c
         else if bIsLogged c then InitDelete c else c\<lparr>pUser := None\<rparr>) \<and>
         owner' b = (if owner b = Some u \<and> \<not> bIsLogged c then None else owner b)))"
proof (rule conjI)
  have U: "represents (uchain U) us" "set us \<subseteq> dom (entries U)" "uiNumberOfUser U = of_nat (length us)" "distinct us"
    using assms(1) by (auto simp: user_list_def represents_def)
  show "\<forall>p out U' db'. AddUser R reached dbno is_dir a login pass dir U db = Ret (p, out, U', db') \<longrightarrow>
      p = None \<and> U' = U \<or>
      p = Some a \<and> user_list U' (us @ [a]) \<and> (\<exists>x. entries U' = (entries U)(a \<mapsto> x) \<and> bIsEnabled x \<and>
        ucPrivileges x = 0 \<and> login = Some (szLogin x) \<and> is_dir (szStartDirectory x) \<and>
        snd (SimplifyPath dir) = Some (szStartDirectory x))"
    using represents_append[OF U(1) assms(3)] U(2,3)
    by (auto simp: AddUser_def and_then_eq_Ret user_list_def SimplifyPath_def new_user_fields upd_inject Let_def
        split: option.splits if_splits)
  obtain x where x: "entries U u = Some x" using U(2) assms(4) by auto
  from DeleteUser_run[OF assms(1,2,4) x, of owner] obtain c where
    c: "represents c (remove1 u us)" and d: "DeleteUser (Some u) U owner g =
    Ret (True, \<lparr>uchain = c, entries = (if uiNumberOfClient x \<noteq> 0
        then (entries U)(u \<mapsto> x\<lparr>bIsEnabled := False, bDelete := True\<rparr>) else (entries U)(u := None)),
      uiNumberOfUser = uiNumberOfUser U - 1\<rparr>, dropped u xs owner g)" (is "_ = Ret (True, ?U, _)") by blast
  have "(of_nat (length us - Suc 0) :: 32 word) = of_nat (length us) - 1"
    using assms(4) by (cases us) auto
  then have "user_list ?U (remove1 u us)"
    using c U assms(4) by (auto simp: user_list_def length_remove1)
  moreover have "dom (clients g) = set xs" using assms(2) by (simp add: registry_list_def)
  ultimately show "\<exists>x U' owner' g'. entries U u = Some x \<and> DeleteUser (Some u) U owner g = Ret (True, U', owner', g') \<and>
      user_list U' (remove1 u us) \<and> registry_list g' xs \<and>
      entries U' u = (if uiNumberOfClient x = 0 then None else Some (x\<lparr>bIsEnabled := False, bDelete := True\<rparr>)) \<and>
      (\<forall>b c. clients g b = Some c \<longrightarrow> clients g' b = Some (if owner b \<noteq> Some u then c
         else if bIsLogged c then InitDelete c else c\<lparr>pUser := None\<rparr>) \<and>
         owner' b = (if owner b = Some u \<and> \<not> bIsLogged c then None else owner b))"
    using x d registry_dropped[OF assms(2), of u owner]
    by (intro exI[of _ x] exI[of _ ?U] exI[of _ "fst (dropped u xs owner g)"] exI[of _ "snd (dropped u xs owner g)"])
      (auto simp: dropped_def drop_client_def)
qed

text \<open>Two clients, both with the entry at address 1, of which the first is logged in; the entry counts it.\<close>

theorem user_list_refines_witness:
  "\<exists>U g xs U' owner' g' c8. user_list U [1] \<and> registry_list g [7, 8] \<and>
     DeleteUser (Some 1) U [7 \<mapsto> 1, 8 \<mapsto> 1] g = Ret (True, U', owner', g') \<and> user_list U' [] \<and>
     registry_list g' [7, 8] \<and> clients g' 8 = Some c8 \<and> pUser c8 = None \<and> bDelete (the (entries U' 1))"
proof -
  let ?x = "(new_user ''u'' None ''/'')\<lparr>uiNumberOfClient := 1\<rparr>"
  let ?c = "(new_client 1 2)\<lparr>pUser := Some ?x\<rparr>"
  let ?U = "\<lparr>uchain = append_node 1 empty_chain, entries = [1 \<mapsto> ?x], uiNumberOfUser = 1\<rparr>"
  let ?g = "\<lparr>chain_of = append_node 8 (append_node 7 empty_chain),
    clients = [7 \<mapsto> ?c\<lparr>bIsLogged := True\<rparr>, 8 \<mapsto> ?c], uiNumberOfClients = 2\<rparr>"
  have "represents (append_node 1 empty_chain) [1]" "represents (append_node 7 empty_chain) [7]"
    using represents_append[OF represents_empty] by auto
  then have U: "user_list ?U [1]" and g: "registry_list ?g [7, 8]"
    using represents_append[of "append_node 7 empty_chain" "[7]" 8] by (auto simp: user_list_def registry_list_def)
  have "(2 :: nat) \<notin> set [1]" "(1 :: nat) \<in> set [1]" by simp_all
  from user_list_refines[OF U g this, THEN conjunct2, of "[7 \<mapsto> 1, 8 \<mapsto> 1]"]
  obtain U' owner' g' where r: "DeleteUser (Some 1) ?U [7 \<mapsto> 1, 8 \<mapsto> 1] ?g = Ret (True, U', owner', g')"
    "user_list U' []" "registry_list g' [7, 8]" "entries U' 1 = Some (?x\<lparr>bIsEnabled := False, bDelete := True\<rparr>)"
    "clients g' 8 = Some (?c\<lparr>pUser := None\<rparr>)" by (fastforce simp: new_client_def CClientEntry_def)
  have "bDelete (the (entries U' 1))" "pUser (?c\<lparr>pUser := None\<rparr>) = None" using r(4) by simp_all
  with U g r show ?thesis by blast
qed

end
