(* ===== verification/Server.thy ===== *)
theory Server
  imports Session
begin

text \<open>
  The server object (\<open>CFtpServer\<close>): its constructor and settings, starting and stopping to listen and
  to accept; and how the meta server configures it: the defaults, the configuration file, and what
  \<open>main\<close> passes on (metaserver_config.hpp, metaserver_main.cpp), with the same for the slave
  (slaveserver_config.hpp). libconfig is a parameter: the values its lookups find.
\<close>

section \<open>The server object\<close>

text \<open>
  \<open>accept_threads\<close> counts the threads running \<open>StartAcceptingEx\<close>; the other fields are members of
  \<open>CFtpServer\<close>. The address of Redis is kept beside the settings the handlers read.
\<close>

record ftp_server =
  settings :: server_config
  redis_ip :: string
  redis_port :: "16 word"
  usListeningPort :: "16 word"
  ListeningSock :: bool
  bIsListening :: bool
  bIsAccepting :: bool
  accept_threads :: nat

text \<open>The constructor; \<open>RedisConfig.db\<close> is left as it is in memory.\<close>

definition CFtpServer :: "nat \<Rightarrow> ftp_server" where
  "CFtpServer db = \<lparr>settings = \<lparr>DataPortRange = \<lparr>usStart = 100, usLen = 900\<rparr>, uiMaxPasswordTries = 3,
       uiCheckPassDelay = 0, ulNoLoginTimeout = 0, ulNoTransferTimeout = 0,
       uiTransferBufferSize = 32 * 1024, uiTransferSocketBufferSize = 64 * 1024, bEnableFXP = False,
       RedisDB = db, Slaves = []\<rparr>,
     redis_ip = ''127.0.0.1'', redis_port = 6379, usListeningPort = 21, ListeningSock = False,
     bIsListening = False, bIsAccepting = False, accept_threads = 0\<rparr>"

text \<open>Setters and getters, in the order of the header file.\<close>

definition IsListening :: "ftp_server \<Rightarrow> bool" where "IsListening s = bIsListening s"
definition IsAccepting :: "ftp_server \<Rightarrow> bool" where "IsAccepting s = bIsAccepting s"
definition GetListeningPort :: "ftp_server \<Rightarrow> 16 word" where "GetListeningPort s = usListeningPort s"

definition SetNoLoginTimeout :: "nat \<Rightarrow> ftp_server \<Rightarrow> ftp_server" where
  "SetNoLoginTimeout v s = s\<lparr>settings := (settings s)\<lparr>ulNoLoginTimeout := v\<rparr>\<rparr>"
definition GetNoLoginTimeout :: "ftp_server \<Rightarrow> nat" where "GetNoLoginTimeout s = ulNoLoginTimeout (settings s)"

definition SetNoTransferTimeout :: "nat \<Rightarrow> ftp_server \<Rightarrow> ftp_server" where
  "SetNoTransferTimeout v s = s\<lparr>settings := (settings s)\<lparr>ulNoTransferTimeout := v\<rparr>\<rparr>"
definition GetNoTransferTimeout :: "ftp_server \<Rightarrow> nat" where "GetNoTransferTimeout s = ulNoTransferTimeout (settings s)"

definition SetCheckPassDelay :: "nat \<Rightarrow> ftp_server \<Rightarrow> ftp_server" where
  "SetCheckPassDelay v s = s\<lparr>settings := (settings s)\<lparr>uiCheckPassDelay := v\<rparr>\<rparr>"
definition GetCheckPassDelay :: "ftp_server \<Rightarrow> nat" where "GetCheckPassDelay s = uiCheckPassDelay (settings s)"

definition SetMaxPasswordTries :: "32 word \<Rightarrow> ftp_server \<Rightarrow> ftp_server" where
  "SetMaxPasswordTries v s = s\<lparr>settings := (settings s)\<lparr>uiMaxPasswordTries := v\<rparr>\<rparr>"
definition GetMaxPasswordTries :: "ftp_server \<Rightarrow> 32 word" where "GetMaxPasswordTries s = uiMaxPasswordTries (settings s)"

definition EnableFXP :: "bool \<Rightarrow> ftp_server \<Rightarrow> ftp_server" where
  "EnableFXP v s = s\<lparr>settings := (settings s)\<lparr>bEnableFXP := v\<rparr>\<rparr>"
definition IsFXPEnabled :: "ftp_server \<Rightarrow> bool" where "IsFXPEnabled s = bEnableFXP (settings s)"

definition SetTransferBufferSize :: "nat \<Rightarrow> ftp_server \<Rightarrow> ftp_server" where
  "SetTransferBufferSize v s = s\<lparr>settings := (settings s)\<lparr>uiTransferBufferSize := v\<rparr>\<rparr>"
definition GetTransferBufferSize :: "ftp_server \<Rightarrow> nat" where "GetTransferBufferSize s = uiTransferBufferSize (settings s)"

definition SetTransferSocketBufferSize :: "nat \<Rightarrow> ftp_server \<Rightarrow> ftp_server" where
  "SetTransferSocketBufferSize v s = s\<lparr>settings := (settings s)\<lparr>uiTransferSocketBufferSize := v\<rparr>\<rparr>"
definition GetTransferSocketBufferSize :: "ftp_server \<Rightarrow> nat" where "GetTransferSocketBufferSize s = uiTransferSocketBufferSize (settings s)"


definition set_range :: "16 word \<Rightarrow> 16 word \<Rightarrow> ftp_server \<Rightarrow> bool \<times> ftp_server" where
  "set_range start len s = (case SetDataPortRange start len (DataPortRange (settings s)) of
     (ok, r) \<Rightarrow> (ok, s\<lparr>settings := (settings s)\<lparr>DataPortRange := r\<rparr>\<rparr>))"

definition SetRedisConnectionConfig :: "string \<Rightarrow> 16 word \<Rightarrow> nat \<Rightarrow> ftp_server \<Rightarrow> ftp_server" where
  "SetRedisConnectionConfig ip port db s =
     s\<lparr>redis_ip := ip, redis_port := port, settings := (settings s)\<lparr>RedisDB := db\<rparr>\<rparr>"

definition GetRedisConnectionIP :: "ftp_server \<Rightarrow> string" where "GetRedisConnectionIP s = redis_ip s"
definition GetRedisConnectionPort :: "ftp_server \<Rightarrow> 16 word" where "GetRedisConnectionPort s = redis_port s"
definition GetRedisConnectionDB :: "ftp_server \<Rightarrow> nat" where "GetRedisConnectionDB s = RedisDB (settings s)"

fun push_all :: "slave_info list \<Rightarrow> slave_info list \<Rightarrow> slave_info list" where
  "push_all [] acc = acc"
| "push_all (x # xs) acc = push_all xs (acc @ [x])"

definition SetSlaves :: "slave_info list \<Rightarrow> ftp_server \<Rightarrow> ftp_server" where
  "SetSlaves slaves s = s\<lparr>settings := (settings s)\<lparr>Slaves := push_all slaves []\<rparr>\<rparr>"

definition GetSlaves :: "ftp_server \<Rightarrow> slave_info list" where "GetSlaves s = Slaves (settings s)"

section \<open>Listening and accepting\<close>

text \<open>
  What the system answers: \<open>socket\<close>, \<open>setsockopt\<close>, \<open>bind\<close> and \<open>listen\<close> all succeed, and \<open>pthread_create\<close>
  succeeds.
\<close>

record os_answers =
  open_ok :: bool
  create_ok :: bool

text \<open>\<open>StopListening\<close>: the accepting thread is cancelled and joined; \<open>bIsAccepting\<close> stays as it is.\<close>

definition StopListening :: "ftp_server \<Rightarrow> bool \<times> ftp_server \<times> effect list" where
  "StopListening s =
     (if IsListening s
      then (True, s\<lparr>ListeningSock := False, bIsListening := False,
              accept_threads := (if IsAccepting s then accept_threads s - 1 else accept_threads s)\<rparr>,
            (if IsAccepting s then [CancelThread] else []) @ [OnServerEvent STOP_LISTENING])
      else (True, s, []))"

text \<open>\<open>StartListening\<close> on an address that is not \<open>INADDR_NONE\<close> (all ones) and a port that is not 0.\<close>

definition StartListening :: "os_answers \<Rightarrow> int \<Rightarrow> 16 word \<Rightarrow> ftp_server \<Rightarrow> bool \<times> ftp_server \<times> effect list" where
  "StartListening os ulAddr usPort s =
     (if ulAddr = 2 ^ 32 - 1 \<or> usPort = 0 then (False, s, [])
      else let (s1, out1) = (if IsListening s then snd (StopListening s) else (s, []))
           in if open_ok os
              then (True, s1\<lparr>ListeningSock := True, usListeningPort := usPort, bIsListening := True\<rparr>,
                    out1 @ [OnServerEvent START_LISTENING])
              else (bIsListening s1, s1, out1))"

definition StartAccepting :: "os_answers \<Rightarrow> ftp_server \<Rightarrow> bool \<times> ftp_server \<times> effect list" where
  "StartAccepting os s =
     (if \<not> IsAccepting s \<and> IsListening s then
        (if create_ok os
         then (True, s\<lparr>bIsAccepting := True, accept_threads := accept_threads s + 1\<rparr>, [OnServerEvent START_ACCEPTING])
         else (False, s, [OnServerEvent THREAD_ERROR]))
      else (bIsAccepting s, s, []))"

text \<open>The end of \<open>StartAcceptingEx\<close>, when \<open>select\<close> or \<open>accept\<close> fails.\<close>

definition accepting_ends :: "ftp_server \<Rightarrow> ftp_server \<times> effect list" where
  "accepting_ends s = (s\<lparr>bIsAccepting := False, bIsListening := False, accept_threads := accept_threads s - 1\<rparr>,
     [OnServerEvent STOP_ACCEPTING, OnServerEvent STOP_LISTENING])"

section \<open>The configuration of the meta server\<close>

record metaserver_config =
  mc_ListeningIP :: string
  mc_ListeningPort :: "16 word"
  mc_range :: port_range
  mc_MaxPasswordTries :: "32 word"
  mc_CheckPassDelay :: nat
  mc_NoTransferTimeout :: nat
  mc_NoLoginTimeout :: nat
  mc_TransferBufferSize :: nat
  mc_TransferSocketBufferSize :: nat
  mc_EnableFXP :: bool
  mc_RedisIP :: string
  mc_RedisPort :: "16 word"
  mc_RedisDB :: "16 word"
  mc_Slaves :: "slave_info list"
  mc_LogDirectory :: string
  mc_EnableUserLogging :: bool
  mc_EnableClientLogging :: bool
  mc_EnableServerLogging :: bool

definition InitServerConfig :: metaserver_config where
  "InitServerConfig = \<lparr>mc_ListeningIP = ''0.0.0.0'', mc_ListeningPort = 21,
     mc_range = \<lparr>usStart = 100, usLen = 900\<rparr>, mc_MaxPasswordTries = 3, mc_CheckPassDelay = 500,
     mc_NoTransferTimeout = 0, mc_NoLoginTimeout = 0,
     mc_TransferBufferSize = 32 * 1024, mc_TransferSocketBufferSize = 64 * 1024, mc_EnableFXP = True,
     mc_RedisIP = ''127.0.0.1'', mc_RedisPort = 6379, mc_RedisDB = 1, mc_Slaves = [],
     mc_LogDirectory = ''logs'', mc_EnableUserLogging = False, mc_EnableClientLogging = True,
     mc_EnableServerLogging = True\<rparr>"

text \<open>
  A configuration file that libconfig has read: what \<open>lookupValue\<close> stores for a path (\<open>None\<close> leaves the
  variable alone) in an \<open>int\<close>, an \<open>unsigned int\<close>, a \<open>bool\<close> or a string, and the list \<open>Slaves\<close> with the two members of its elements.
\<close>

record config_file =
  cfg_int :: "string \<Rightarrow> int option"
  cfg_uint :: "string \<Rightarrow> nat option"
  cfg_bool :: "string \<Rightarrow> bool option"
  cfg_string :: "string \<Rightarrow> string option"
  cfg_slaves :: "(string \<times> int) list option"

definition lookup :: "('a \<Rightarrow> 'b option) \<Rightarrow> 'a \<Rightarrow> 'b \<Rightarrow> 'b" where
  "lookup f key old = (case f key of None \<Rightarrow> old | Some v \<Rightarrow> v)"

text \<open>
  \<open>LoadServerConfig\<close>: most numbers are read into an \<open>int\<close> and then converted to the type of the field;
  \<open>unsigned long\<close> has 64 bits. The buffer sizes and the number of tries
  are \<open>unsigned int\<close> variables.
\<close>

definition LoadServerConfig :: "config_file \<Rightarrow> metaserver_config \<Rightarrow> metaserver_config" where
  "LoadServerConfig cfg s =
     s\<lparr>mc_ListeningIP := lookup (cfg_string cfg) ''ListeningIP'' (mc_ListeningIP s),
       mc_ListeningPort := word_of_int (lookup (cfg_int cfg) ''ListeningPort'' (uint (mc_ListeningPort s))),
       mc_range := \<lparr>usStart = word_of_int (lookup (cfg_int cfg) ''DataPortRange.Start'' (uint (usStart (mc_range s)))),
                    usLen = word_of_int (lookup (cfg_int cfg) ''DataPortRange.Len'' (uint (usLen (mc_range s))))\<rparr>,
       mc_EnableFXP := lookup (cfg_bool cfg) ''EnableFXP'' (mc_EnableFXP s),
       mc_MaxPasswordTries := word_of_nat (lookup (cfg_uint cfg) ''MaxPasswordTries'' (unat (mc_MaxPasswordTries s))),
       mc_NoLoginTimeout := nat (to_int (lookup (cfg_int cfg) ''NoLoginTimeout'' (to_int (int (mc_NoLoginTimeout s)))) mod 2 ^ 64),
       mc_NoTransferTimeout :=
         nat (to_int (lookup (cfg_int cfg) ''NoTransferTimeout'' (to_int (int (mc_NoTransferTimeout s)))) mod 2 ^ 64),
       mc_RedisIP := lookup (cfg_string cfg) ''Redis.IP'' (mc_RedisIP s),
       mc_RedisPort := word_of_int (lookup (cfg_int cfg) ''Redis.Port'' (uint (mc_RedisPort s))),
       mc_RedisDB := word_of_int (lookup (cfg_int cfg) ''Redis.DB'' (uint (mc_RedisDB s))),
       mc_TransferBufferSize := lookup (cfg_uint cfg) ''TransferBufferSize'' (mc_TransferBufferSize s),
       mc_TransferSocketBufferSize := lookup (cfg_uint cfg) ''TransferSocketBufferSize'' (mc_TransferSocketBufferSize s),
       mc_Slaves := mc_Slaves s @ (case cfg_slaves cfg of None \<Rightarrow> []
         | Some xs \<Rightarrow> map (\<lambda>(h, p). \<lparr>si_host = h, si_port = Some (to_ushort p)\<rparr>) xs),
       mc_LogDirectory := lookup (cfg_string cfg) ''LogDirectory'' (mc_LogDirectory s),
       mc_EnableUserLogging := lookup (cfg_bool cfg) ''EnableUserLogging'' (mc_EnableUserLogging s),
       mc_EnableClientLogging := lookup (cfg_bool cfg) ''EnableClientLogging'' (mc_EnableClientLogging s),
       mc_EnableServerLogging := lookup (cfg_bool cfg) ''EnableServerLogging'' (mc_EnableServerLogging s)\<rparr>"

text \<open>What \<open>main\<close> passes to the server object; the answer of \<open>SetDataPortRange\<close> is not looked at.\<close>

definition configure :: "metaserver_config \<Rightarrow> ftp_server \<Rightarrow> ftp_server" where
  "configure m s =
     (let s = SetMaxPasswordTries (mc_MaxPasswordTries m) s;
          s = SetNoLoginTimeout (mc_NoLoginTimeout m) s;
          s = SetNoTransferTimeout (mc_NoTransferTimeout m) s;
          s = snd (set_range (usStart (mc_range m)) (usLen (mc_range m)) s);
          s = SetCheckPassDelay (mc_CheckPassDelay m) s;
          s = SetTransferBufferSize (mc_TransferBufferSize m) s;
          s = SetTransferSocketBufferSize (mc_TransferSocketBufferSize m) s;
          s = EnableFXP (mc_EnableFXP m) s;
          s = SetRedisConnectionConfig (mc_RedisIP m) (mc_RedisPort m) (unat (mc_RedisDB m)) s
      in SetSlaves (mc_Slaves m) s)"

text \<open>
  \<open>main\<close> in daemon mode: listen and accept, and then sleep for ever (\<open>Hang\<close>); otherwise stop. \<open>addr\<close> is
  \<open>inet_addr\<close> of the listening address.
\<close>

definition run_daemon :: "os_answers \<Rightarrow> int \<Rightarrow> metaserver_config \<Rightarrow> nat \<Rightarrow> (effect list \<times> ftp_server) outcome" where
  "run_daemon os addr m garbage =
     (case StartListening os addr (mc_ListeningPort m) (configure m (CFtpServer garbage)) of (listening, s1, out1) \<Rightarrow>
        if listening then
          (case StartAccepting os s1 of (accepting, s2, out2) \<Rightarrow>
             if accepting then Hang
             else (case StopListening s2 of (_, s3, out3) \<Rightarrow> Ret (out1 @ out2 @ out3, s3)))
        else Ret (out1 @ [OnServerEvent ERROR_LISTENING], s1))"

section \<open>The configuration of a slave\<close>

record slaveserver_config =
  sc_ThriftPort :: "16 word"
  sc_WorkerCount :: int
  sc_DataRootPath :: string
  sc_LogDirectory :: string

definition InitSlaveConfig :: slaveserver_config where
  "InitSlaveConfig = \<lparr>sc_ThriftPort = 9090, sc_WorkerCount = 50, sc_DataRootPath = ''data'', sc_LogDirectory = ''logs''\<rparr>"

definition LoadSlaveConfig :: "config_file \<Rightarrow> slaveserver_config \<Rightarrow> slaveserver_config" where
  "LoadSlaveConfig cfg s =
     s\<lparr>sc_ThriftPort := word_of_int (lookup (cfg_int cfg) ''ThriftPort'' (uint (sc_ThriftPort s))),
       sc_WorkerCount := lookup (cfg_int cfg) ''WorkerCount'' (sc_WorkerCount s),
       sc_DataRootPath := lookup (cfg_string cfg) ''DataRootPath'' (sc_DataRootPath s),
       sc_LogDirectory := lookup (cfg_string cfg) ''LogDirectory'' (sc_LogDirectory s)\<rparr>"

section \<open>The properties\<close>

lemma push_all_append: "push_all xs acc = acc @ xs"
  by (induction xs acc rule: push_all.induct) auto

lemmas setter_defs = SetNoLoginTimeout_def SetNoTransferTimeout_def SetCheckPassDelay_def SetMaxPasswordTries_def
  EnableFXP_def SetTransferBufferSize_def SetTransferSocketBufferSize_def SetRedisConnectionConfig_def SetSlaves_def

lemma configure_settings:
  "settings (configure m s) = \<lparr>DataPortRange = snd (SetDataPortRange (usStart (mc_range m)) (usLen (mc_range m)) (DataPortRange (settings s))),
     uiMaxPasswordTries = mc_MaxPasswordTries m, uiCheckPassDelay = mc_CheckPassDelay m,
     ulNoLoginTimeout = mc_NoLoginTimeout m, ulNoTransferTimeout = mc_NoTransferTimeout m,
     uiTransferBufferSize = mc_TransferBufferSize m, uiTransferSocketBufferSize = mc_TransferSocketBufferSize m,
     bEnableFXP = mc_EnableFXP m, RedisDB = unat (mc_RedisDB m), Slaves = mc_Slaves m\<rparr>"
  by (simp add: configure_def set_range_def setter_defs push_all_append Let_def
      split: prod.splits)

text \<open>Whatever the configuration file says, the configured server has a port range that
  \<open>SetDataPortRange\<close> accepts (a range it refuses is dropped without a message and [100, 999] stays), so that the
  search of a data port always ends; and the slaves are those of the file, in order.\<close>

theorem configured_server:
  "valid_range (DataPortRange (settings (configure (LoadServerConfig cfg InitServerConfig) (CFtpServer g)))) \<and>
   Slaves (settings (configure (LoadServerConfig cfg InitServerConfig) (CFtpServer g))) =
     (case cfg_slaves cfg of None \<Rightarrow> [] | Some xs \<Rightarrow> map (\<lambda>(h, p). \<lparr>si_host = h, si_port = Some (to_ushort p)\<rparr>) xs) \<and>
   (\<forall>bind_ok rnd. find_port bind_ok (DataPortRange (settings (configure (LoadServerConfig cfg InitServerConfig) (CFtpServer g)))) rnd \<noteq> Hang)"
proof -
  let ?m = "LoadServerConfig cfg InitServerConfig"
  have "valid_range \<lparr>usStart = 100, usLen = 900\<rparr>" by (simp add: valid_range_def)
  then have v: "valid_range (DataPortRange (settings (configure ?m (CFtpServer g))))"
    unfolding configure_settings by (simp add: CFtpServer_def SetDataPortRange_valid(2))
  moreover have "mc_Slaves ?m = (case cfg_slaves cfg of None \<Rightarrow> []
      | Some xs \<Rightarrow> map (\<lambda>(h, p). \<lparr>si_host = h, si_port = Some (to_ushort p)\<rparr>) xs)"
    by (simp add: LoadServerConfig_def InitServerConfig_def)
  moreover have "find_port bind_ok (DataPortRange (settings (configure ?m (CFtpServer g)))) rnd \<noteq> Hang" for bind_ok rnd
    by (simp add: find_port_valid[OF v])
  ultimately show ?thesis by (simp add: configure_settings)
qed

text \<open>The search of a data port with this configuration, when only port 101 is free.\<close>

theorem configured_server_witness:
  "find_port (\<lambda>p. p = 101) (DataPortRange (settings (configure (LoadServerConfig
      \<lparr>cfg_int = (\<lambda>_. Some 0), cfg_uint = (\<lambda>_. None), cfg_bool = (\<lambda>_. None), cfg_string = (\<lambda>_. None), cfg_slaves = None\<rparr> InitServerConfig)
      (CFtpServer 0)))) 5 \<noteq> Hang"
  using configured_server by blast

text \<open>A server that is stopped cannot accept again: after listening, accepting and stopping, the flag
  of the accepting thread is still set, so the next \<open>StartAccepting\<close> answers true, reports nothing and
  starts no thread, and no client is ever accepted.\<close>

theorem restarted_server_accepts_nobody:
  assumes "open_ok os" and "create_ok os" and "addr \<noteq> 2 ^ 32 - 1" and "port \<noteq> 0"
    and "\<not> bIsListening s0" and "\<not> bIsAccepting s0" and "accept_threads s0 = 0"
    and "StartListening os addr port s0 = (r1, s1, o1)" and "StartAccepting os s1 = (r2, s2, o2)"
    and "StopListening s2 = (r3, s3, o3)" and "StartListening os addr port s3 = (r4, s4, o4)"
    and "StartAccepting os s4 = (r5, s5, o5)"
  shows "r1 \<and> r2 \<and> accept_threads s2 = 1 \<and> r4 \<and> r5 \<and> o5 = [] \<and> accept_threads s5 = 0"
  using assms by (auto simp: StartListening_def StartAccepting_def StopListening_def IsListening_def IsAccepting_def)

theorem restarted_server_accepts_nobody_witness:
  "\<exists>s1 o1 s2 o2 s3 o3 s4 o4 s5. StartListening \<lparr>open_ok = True, create_ok = True\<rparr> 0 21 (CFtpServer 1) = (True, s1, o1) \<and>
     StartAccepting \<lparr>open_ok = True, create_ok = True\<rparr> s1 = (True, s2, o2) \<and> StopListening s2 = (True, s3, o3) \<and>
     StartListening \<lparr>open_ok = True, create_ok = True\<rparr> 0 21 s3 = (True, s4, o4) \<and>
     StartAccepting \<lparr>open_ok = True, create_ok = True\<rparr> s4 = (True, s5, []) \<and> accept_threads s5 = 0"
proof -
  let ?os = "\<lparr>open_ok = True, create_ok = True\<rparr>"
  obtain r1 s1 o1 where 1: "StartListening ?os 0 21 (CFtpServer 1) = (r1, s1, o1)" by (metis prod_cases3)
  obtain r2 s2 o2 where 2: "StartAccepting ?os s1 = (r2, s2, o2)" by (metis prod_cases3)
  obtain r3 s3 o3 where 3: "StopListening s2 = (r3, s3, o3)" by (metis prod_cases3)
  obtain r4 s4 o4 where 4: "StartListening ?os 0 21 s3 = (r4, s4, o4)" by (metis prod_cases3)
  obtain r5 s5 o5 where 5: "StartAccepting ?os s4 = (r5, s5, o5)" by (metis prod_cases3)
  have r3: r3 using 3 by (auto simp: StopListening_def split: if_splits)
  have "r1 \<and> r2 \<and> accept_threads s2 = 1 \<and> r4 \<and> r5 \<and> o5 = [] \<and> accept_threads s5 = 0"
    by (rule restarted_server_accepts_nobody[OF _ _ _ _ _ _ _ 1 2 3 4 5]) (simp_all add: CFtpServer_def)
  with 1 2 3 4 5 r3 show ?thesis by auto
qed

end
