(* ===== verification/Teardown.thy ===== *)
theory Teardown
  imports UserList Server
begin

text \<open>
  The destructor of the server object: it stops listening, deletes the users of its list one by one, and waits
  until none is left. The clients are objects of their own, with threads of their own.
\<close>

section \<open>The destructor\<close>

text \<open>The two counters, as the server object tells them.\<close>

definition GetNbUser :: "userlist \<Rightarrow> 32 word" where "GetNbUser U = uiNumberOfUser U"
definition GetNbClient :: "registry \<Rightarrow> 32 word" where "GetNbClient g = uiNumberOfClients g"

text \<open>The loop over the users; the successor is read before the entry is deleted.\<close>

partial_function (option) delete_users ::
  "nat option \<Rightarrow> userlist \<Rightarrow> (nat \<rightharpoonup> nat) \<Rightarrow> registry \<Rightarrow> (userlist \<times> (nat \<rightharpoonup> nat) \<times> registry) outcome option" where
  "delete_users p U owner g = (case p of
      None \<Rightarrow> Some (Ret (U, owner, g))
    | Some u \<Rightarrow> (case node (uchain U) u of
          None \<Rightarrow> Some (Crash UseAfterFree)
        | Some l \<Rightarrow> (case DeleteUser (Some u) U owner g of
              Crash e \<Rightarrow> Some (Crash e)
            | Hang \<Rightarrow> None
            | Ret r \<Rightarrow> delete_users (pNext l) (fst (snd r)) (fst (snd (snd r))) (snd (snd (snd r))))))"

text \<open>
  \<open>~CFtpServer\<close>. While users are counted it sleeps, and nobody changes the count any more. Then the locks are
  destroyed and the object is gone.
\<close>

definition destroy_CFtpServer :: "ftp_server \<Rightarrow> userlist \<Rightarrow> (nat \<rightharpoonup> nat) \<Rightarrow> registry \<Rightarrow>
    (ftp_server \<times> effect list \<times> userlist \<times> (nat \<rightharpoonup> nat) \<times> registry) outcome" where
  "destroy_CFtpServer s U owner g =
     (let (s', out) = (if IsListening s then snd (StopListening s) else (s, []))
      in case delete_users (pFirst (uchain U)) U owner g of
           None \<Rightarrow> Hang
         | Some r \<Rightarrow> and_then r (\<lambda>(U', owner', g').
             if uiNumberOfUser U' \<noteq> 0 then Hang else Ret (s', out, U', owner', g')))"

section \<open>What the loop does\<close>

definition dropped_entry :: "user_entry \<Rightarrow> user_entry option" where
  "dropped_entry x = (if uiNumberOfClient x = 0 then None else Some (x\<lparr>bIsEnabled := False, bDelete := True\<rparr>))"

text \<open>A client whose entry is among \<open>us\<close> is dropped.\<close>

definition drop_of :: "nat set \<Rightarrow> nat option \<Rightarrow> client \<Rightarrow> client" where
  "drop_of us w c = (case w of None \<Rightarrow> c
     | Some u \<Rightarrow> if u \<notin> us then c else if bIsLogged c then InitDelete c else c\<lparr>pUser := None\<rparr>)"

definition owner_of :: "nat set \<Rightarrow> nat option \<Rightarrow> client \<Rightarrow> nat option" where
  "owner_of us w c = (case w of None \<Rightarrow> None | Some u \<Rightarrow> if u \<in> us \<and> \<not> bIsLogged c then None else Some u)"

lemma logged_InitDelete: "bIsLogged (InitDelete c) = bIsLogged c"
  by (simp add: InitDelete_def)

lemma dropped_step:
  assumes "clients g b = Some c" and "b \<in> set xs" and "u \<notin> us"
  shows "\<exists>c'. clients (snd (dropped u xs owner g)) b = Some c' \<and>
    drop_of us (fst (dropped u xs owner g) b) c' = drop_of (insert u us) (owner b) c \<and>
    owner_of us (fst (dropped u xs owner g) b) c' = owner_of (insert u us) (owner b) c"
  using assms
  by (auto simp: dropped_def drop_client_def drop_of_def owner_of_def logged_InitDelete split: option.splits)

lemma user_list_deleted:
  assumes "user_list U (u # us)" and "represents c us" and "entries U u = Some x"
  shows "user_list \<lparr>uchain = c, entries = (entries U)(u := dropped_entry x), uiNumberOfUser = uiNumberOfUser U - 1\<rparr> us"
  using assms by (auto simp: user_list_def represents_def)

lemma delete_users_all:
  assumes "user_list U us" and "registry_list g xs"
  shows "\<exists>U' owner' g'. delete_users (head_or us None) U owner g = Some (Ret (U', owner', g')) \<and>
    user_list U' [] \<and> registry_list g' xs \<and>
    (\<forall>u. entries U' u = (if u \<in> set us then dropped_entry (the (entries U u)) else entries U u)) \<and>
    (\<forall>b c. clients g b = Some c \<longrightarrow> clients g' b = Some (drop_of (set us) (owner b) c) \<and>
       owner' b = owner_of (set us) (owner b) c)"
  using assms
proof (induction us arbitrary: U owner g)
  case Nil
  then show ?case
    by (auto simp: delete_users.simps drop_of_def owner_of_def split: option.splits)
next
  case (Cons u us)
  have r: "represents (uchain U) (u # us)" "u \<notin> set us" using Cons.prems(1) by (auto simp: user_list_def represents_def)
  then obtain p where n: "node (uchain U) u = Some \<lparr>pPrev = p, pNext = head_or us None\<rparr>"
    by (auto simp: represents_def head_or_def)
  obtain x where x: "entries U u = Some x" using Cons.prems(1) by (auto simp: user_list_def)
  let ?o = "fst (dropped u xs owner g)" and ?g = "snd (dropped u xs owner g)"
  obtain c where c: "represents c us" "DeleteUser (Some u) U owner g = Ret (True,
      \<lparr>uchain = c, entries = (entries U)(u := dropped_entry x), uiNumberOfUser = uiNumberOfUser U - 1\<rparr>, ?o, ?g)"
    (is "_ = Ret (True, ?U, _, _)")
    using DeleteUser_run[OF Cons.prems, of u x owner] x by (auto simp: dropped_entry_def)
  have "user_list ?U us" using user_list_deleted[OF Cons.prems(1) c(1) x] .
  from Cons.IH[OF this registry_dropped[OF Cons.prems(2), of u owner], of ?o] obtain U' owner' g' where
    i: "delete_users (head_or us None) ?U ?o ?g = Some (Ret (U', owner', g'))" "user_list U' []" "registry_list g' xs"
      "\<And>v. entries U' v = (if v \<in> set us then dropped_entry (the (entries ?U v)) else entries ?U v)"
      "\<And>b d. clients ?g b = Some d \<Longrightarrow> clients g' b = Some (drop_of (set us) (?o b) d) \<and> owner' b = owner_of (set us) (?o b) d"
    by blast
  have "delete_users (head_or (u # us) None) U owner g = Some (Ret (U', owner', g'))"
    by (subst delete_users.simps) (simp add: n c(2) i(1))
  moreover have "entries U' v = (if v \<in> set (u # us) then dropped_entry (the (entries U v)) else entries U v)" for v
    using i(4)[of v] x r(2) by simp
  moreover have "clients g' b = Some (drop_of (set (u # us)) (owner b) d) \<and> owner' b = owner_of (set (u # us)) (owner b) d"
    if "clients g b = Some d" for b d
  proof -
    have "b \<in> set xs" using that Cons.prems(2) by (auto simp: registry_list_def)
    from dropped_step[OF that this r(2), of owner] i(5) show ?thesis by auto
  qed
  ultimately show ?case using i(2,3) by blast
qed

section \<open>The property\<close>

text \<open>C21: On a well-formed user list and client list the destructor of the server returns: the server does not listen,
  the user list is empty, every entry is freed or, while clients are counted on it, marked to be freed; of
  the clients exactly those of the entries of the list lose their sockets or their entry. All the clients are
  still in the client list, so that their threads go on with a server object that is gone.\<close>

theorem destructor_returns:
  assumes "user_list U us" and "registry_list g xs"
  shows "\<exists>s' out U' owner' g'. destroy_CFtpServer s U owner g = Ret (s', out, U', owner', g') \<and>
    \<not> IsListening s' \<and> (IsListening s \<longrightarrow> \<not> ListeningSock s' \<and> STOP_LISTENING \<in> {ev. OnServerEvent ev \<in> set out}) \<and>
    user_list U' [] \<and> registry_list g' xs \<and>
    (\<forall>u. entries U' u = (if u \<in> set us then dropped_entry (the (entries U u)) else entries U u)) \<and>
    (\<forall>b c. clients g b = Some c \<longrightarrow> clients g' b = Some (drop_of (set us) (owner b) c))"
proof -
  have p: "pFirst (uchain U) = head_or us None" using assms(1) by (simp add: user_list_def represents_def)
  obtain U' owner' g' where d: "delete_users (pFirst (uchain U)) U owner g = Some (Ret (U', owner', g'))"
    "user_list U' []" "registry_list g' xs"
    "\<forall>u. entries U' u = (if u \<in> set us then dropped_entry (the (entries U u)) else entries U u)"
    "\<forall>b c. clients g b = Some c \<longrightarrow> clients g' b = Some (drop_of (set us) (owner b) c)"
    using delete_users_all[OF assms, of owner] unfolding p by blast
  obtain s' out where s: "(if IsListening s then snd (StopListening s) else (s, [])) = (s', out)" by fastforce
  then have "destroy_CFtpServer s U owner g = Ret (s', out, U', owner', g')"
    using d(1,2) by (simp add: destroy_CFtpServer_def outcome_simps user_list_def)
  moreover have "\<not> IsListening s' \<and> (IsListening s \<longrightarrow> \<not> ListeningSock s' \<and> OnServerEvent STOP_LISTENING \<in> set out)"
    using s by (auto simp: StopListening_def IsListening_def split: if_splits)
  ultimately show ?thesis using d(2-5) by blast
qed

text \<open>A client with a user of its own, as \<open>SearchUserFromLogin\<close> makes them, and one with the entry 1 of the list.\<close>

theorem destructor_returns_witness:
  "\<exists>U g U' owner' g' s' out c7. registry_list g [7, 8] \<and>
     destroy_CFtpServer (CFtpServer 0) U [8 \<mapsto> 1] g = Ret (s', out, U', owner', g') \<and> user_list U' [] \<and>
     entries U' 1 = None \<and> clients g' 7 = Some c7 \<and> CtrlSock c7 \<and> pUser (the (clients g' 8)) = None"
proof -
  let ?x = "new_user ''u'' None ''/''"
  let ?c = "(new_client 1 2)\<lparr>pUser := Some ?x\<rparr>"
  let ?U = "\<lparr>uchain = append_node 1 empty_chain, entries = [1 \<mapsto> ?x], uiNumberOfUser = 1\<rparr>"
  let ?g = "\<lparr>chain_of = append_node 8 (append_node 7 empty_chain), clients = [7 \<mapsto> ?c, 8 \<mapsto> ?c], uiNumberOfClients = 2\<rparr>"
  have "represents (append_node 1 empty_chain) [1]" "represents (append_node 7 empty_chain) [7]"
    using represents_append[OF represents_empty] by auto
  then have U: "user_list ?U [1]" and g: "registry_list ?g [7, 8]"
    using represents_append[of "append_node 7 empty_chain" "[7]" 8] by (auto simp: user_list_def registry_list_def)
  from destructor_returns[OF U g, of "CFtpServer 0" "[8 \<mapsto> 1]"] obtain s' out U' owner' g' where
    r: "destroy_CFtpServer (CFtpServer 0) ?U [8 \<mapsto> 1] ?g = Ret (s', out, U', owner', g')" "user_list U' []"
      and u: "\<forall>u. entries U' u = (if u \<in> set [1] then dropped_entry (the (entries ?U u)) else entries ?U u)"
      and k: "\<forall>b c. clients ?g b = Some c \<longrightarrow> clients g' b = Some (drop_of (set [1]) ([8 \<mapsto> 1] b) c)"
    by (elim exE conjE)
  have r': "entries U' 1 = dropped_entry ?x" "clients g' 7 = Some (drop_of {1} None ?c)"
    "clients g' 8 = Some (drop_of {1} (Some 1) ?c)"
    using u[rule_format, of 1] k[rule_format, of 7 ?c] k[rule_format, of 8 ?c] by simp_all
  have f: "dropped_entry ?x = None" "drop_of {1} None ?c = ?c" "CtrlSock ?c" "pUser (drop_of {1} (Some 1) ?c) = None"
    by (simp_all add: dropped_entry_def new_user_def CUserEntry_def drop_of_def new_client_def CClientEntry_def)
  have e: "entries U' 1 = None" using r'(1) f(1) by (simp only:)
  have c: "clients g' 7 = Some ?c" using r'(2) f(2) by (simp only:)
  have "pUser (the (clients g' 8)) = None" using r'(3) f(4) by (simp only: option.sel)
  then show ?thesis
    by (rule_tac exI[of _ ?U], rule_tac exI[of _ ?g], rule_tac exI[of _ U'], rule_tac exI[of _ owner'],
        rule_tac exI[of _ g'], rule_tac exI[of _ s'], rule_tac exI[of _ out], rule_tac exI[of _ ?c])
      (intro conjI g r(1,2) e c f(3))
qed

end
