(* ===== verification/EventLog.thy ===== *)
theory EventLog
  imports ShellClaims Server
begin

text \<open>
  The log of the meta server (metaserver_log.hpp): the callbacks that \<open>main\<close> registers for the events
  of the server object, of the users and of the clients. Each appends at most one entry to a file of
  the log directory.
\<close>

section \<open>The callbacks\<close>

text \<open>
  An entry: the file, and the text that is appended. \<open>opened\<close> tells whether the file can be opened, \<open>ts\<close> is
  \<open>asctime\<close> of the local time without its line end.
\<close>

type_synonym log_entry = "string \<times> string"

definition log_text :: "bool \<Rightarrow> bool \<Rightarrow> string \<Rightarrow> string \<Rightarrow> string \<Rightarrow> string \<Rightarrow> log_entry list" where
  "log_text enabled opened dir name ts text =
     (if enabled \<and> opened \<and> text \<noteq> [] then [(dir @ ''/metaserver.'' @ name @ ''.log'', ts @ text)] else [])"

definition LogServerEvent :: "metaserver_config \<Rightarrow> bool \<Rightarrow> string \<Rightarrow> event \<Rightarrow> log_entry list" where
  "LogServerEvent cfg opened ts ev =
     log_text (mc_EnableServerLogging cfg) opened (mc_LogDirectory cfg) ''server'' ts (case ev of
         START_LISTENING \<Rightarrow> '' - Server is listening !'' @ CRLF
       | START_ACCEPTING \<Rightarrow> '' - Server is accepting incoming connections !'' @ CRLF
       | STOP_LISTENING \<Rightarrow> '' - Server stopped listening !'' @ CRLF
       | STOP_ACCEPTING \<Rightarrow> '' - Server stopped accepting incoming connections !'' @ CRLF
       | MEM_ERROR \<Rightarrow> '' - Warning, the CFtpServer class could not allocate memory !'' @ CRLF
       | THREAD_ERROR \<Rightarrow> '' - Warning, the CFtpServer class could not create a thread !'' @ CRLF
       | ZLIB_VERSION_ERROR \<Rightarrow>
           '' - Warning, the Zlib header version differs from the Zlib library version !'' @ CRLF
       | ZLIB_STREAM_ERROR \<Rightarrow> '' - Warning, error during compressing/decompressing data !'' @ CRLF
       | THRIFT_ERROR \<Rightarrow> '' - Warning, error thrift server exception !'' @ CRLF
       | _ \<Rightarrow> [])"

text \<open>The log of the users is switched by the setting for the log of the server.\<close>

definition LogUserEvent :: "metaserver_config \<Rightarrow> bool \<Rightarrow> string \<Rightarrow> event \<Rightarrow> user_entry \<Rightarrow> log_entry list" where
  "LogUserEvent cfg opened ts ev u =
     log_text (mc_EnableServerLogging cfg) opened (mc_LogDirectory cfg) ''user'' ts (case ev of
         NEW_USER \<Rightarrow> '' - A new user has been created:'' @ CRLF @ [CHR 0x09] @ ''Login: '' @ szLogin u @ CRLF @
           [CHR 0x09] @ ''Password: '' @ szPassword u @ CRLF @ [CHR 0x09] @ ''Start directory: '' @
           szStartDirectory u @ CRLF
       | DELETE_USER \<Rightarrow> '' - '' @ [DQUOTE] @ szLogin u @ [DQUOTE] @ ''user is being deleted: '' @ CRLF
       | _ \<Rightarrow> [])"

definition inet_ntoa :: "int \<Rightarrow> string" where
  "inet_ntoa ip = show_int (ip mod 256) @ ''.'' @ show_int (ip div 256 mod 256) @ ''.'' @
     show_int (ip div 65536 mod 256) @ ''.'' @ show_int (ip div 16777216 mod 256)"

definition GetUser :: "client \<Rightarrow> user_entry option" where
  "GetUser c = (if bIsLogged c then pUser c else None)"

text \<open>A null pointer that the text needs: \<open>GetUser ()->GetLogin ()\<close>, and \<open>(char *) pArg\<close>.\<close>

definition the_login :: "client \<Rightarrow> string outcome" where
  "the_login c = (case GetUser c of None \<Rightarrow> Crash NullPointer | Some u \<Rightarrow> Ret (szLogin u))"

definition the_arg :: "string option \<Rightarrow> string outcome" where
  "the_arg a = (case a of None \<Rightarrow> Crash NullPointer | Some s \<Rightarrow> Ret s)"

definition login_or_none :: "client \<Rightarrow> string" where
  "login_or_none c = (case GetUser c of None \<Rightarrow> ''(Not logged in)'' | Some u \<Rightarrow> szLogin u)"

definition client_text :: "event \<Rightarrow> client \<Rightarrow> string option \<Rightarrow> string outcome" where
  "client_text ev c a = (case ev of
       NEW_CLIENT \<Rightarrow> Ret ('' - A new client has been created:'' @ CRLF @ ''Client IP: ['' @ inet_ntoa (ulClientIP c) @
         '']'' @ CRLF @ [CHR 0x09] @ ''Server IP: ['' @ inet_ntoa (ulServerIP c) @ '']'' @ CRLF)
     | DELETE_CLIENT \<Rightarrow> Ret ('' - A client is being deleted.'' @ CRLF)
     | CLIENT_AUTH \<Rightarrow> and_then (the_login c) (\<lambda>l.
         Ret ('' - A client has logged-in as '' @ [DQUOTE] @ l @ [DQUOTE] @ ''.'' @ CRLF))
     | CLIENT_SOFTWARE \<Rightarrow> and_then (the_arg a) (\<lambda>s.
         Ret ('' - A client has proceed the CLNT FTP command: '' @ s @ ''.'' @ CRLF))
     | CLIENT_DISCONNECT \<Rightarrow> Ret ('' - A client has disconnected.'' @ CRLF)
     | CLIENT_UPLOAD \<Rightarrow> and_then (the_login c) (\<lambda>l. and_then (the_arg a) (\<lambda>s.
         Ret ('' - A client logged-on as '' @ [DQUOTE] @ l @ [DQUOTE] @ '' is uploading a file: '' @ [DQUOTE] @ s @ [DQUOTE] @ CRLF)))
     | CLIENT_DOWNLOAD \<Rightarrow> and_then (the_login c) (\<lambda>l. and_then (the_arg a) (\<lambda>s.
         Ret ('' - A client logged-on as '' @ [DQUOTE] @ l @ [DQUOTE] @ '' is downloading a file: '' @ [DQUOTE] @ s @ [DQUOTE] @ CRLF)))
     | CLIENT_LIST \<Rightarrow> and_then (the_login c) (\<lambda>l. and_then (the_arg a) (\<lambda>s.
         Ret ('' - A client logged-on as '' @ [DQUOTE] @ l @ [DQUOTE] @ '' is listing a directory: '' @ [DQUOTE] @ s @ [DQUOTE] @ CRLF)))
     | CLIENT_CHANGE_DIR \<Rightarrow> and_then (the_login c) (\<lambda>l. and_then (the_arg a) (\<lambda>s.
         Ret ('' - A client logged-on as '' @ [DQUOTE] @ l @ [DQUOTE] @ '' has changed its working directory:'' @ CRLF @
           [CHR 0x09] @ ''Full path: '' @ [DQUOTE] @ s @ [DQUOTE] @ CRLF @ [CHR 0x09] @ ''Working directory: '' @
           [DQUOTE] @ szWorkingDir c @ [DQUOTE] @ CRLF)))
     | RECVD_CMD_LINE \<Rightarrow> and_then (the_arg a) (\<lambda>s.
         Ret ('' - Received: '' @ login_or_none c @ '' ('' @ inet_ntoa (ulClientIP c) @ '')>  '' @ s @ CRLF))
     | SEND_REPLY \<Rightarrow> and_then (the_arg a) (\<lambda>s.
         Ret ('' - Sent: '' @ login_or_none c @ '' ('' @ inet_ntoa (ulClientIP c) @ '')> '' @ s @ CRLF))
     | TOO_MANY_PASS_TRIES \<Rightarrow> Ret ('' - Too many pass tries for ('' @ inet_ntoa (ulClientIP c) @ '')'' @ CRLF)
     | _ \<Rightarrow> Ret [])"

definition LogClientEvent :: "metaserver_config \<Rightarrow> bool \<Rightarrow> string \<Rightarrow> event \<Rightarrow> client \<Rightarrow> string option \<Rightarrow>
    log_entry list outcome" where
  "LogClientEvent cfg opened ts ev c a =
     (if mc_EnableClientLogging cfg \<and> opened
      then and_then (client_text ev c a) (\<lambda>text. Ret (log_text True True (mc_LogDirectory cfg) ''client'' ts text))
      else Ret [])"

section \<open>What the command interpreter logs\<close>

text \<open>The events whose text needs the user, and those that need an argument.\<close>

definition needs_user :: "event \<Rightarrow> bool" where
  "needs_user ev \<longleftrightarrow> ev \<in> {CLIENT_AUTH, CLIENT_UPLOAD, CLIENT_DOWNLOAD, CLIENT_LIST, CLIENT_CHANGE_DIR}"

definition needs_arg :: "event \<Rightarrow> bool" where
  "needs_arg ev \<longleftrightarrow> ev \<in> {CLIENT_SOFTWARE, CLIENT_UPLOAD, CLIENT_DOWNLOAD, CLIENT_LIST, CLIENT_CHANGE_DIR,
     RECVD_CMD_LINE, SEND_REPLY}"

lemma LogClientEvent_safe:
  assumes "needs_user ev \<Longrightarrow> GetUser c \<noteq> None" and "needs_arg ev \<Longrightarrow> a \<noteq> None"
  shows "\<exists>l. LogClientEvent cfg opened ts ev c a = Ret l"
  using assms
  by (cases ev) (auto simp: LogClientEvent_def client_text_def the_login_def the_arg_def needs_user_def needs_arg_def
      outcome_simps)

fun loggable :: "bool \<Rightarrow> effect \<Rightarrow> bool" where
  "loggable logged (OnClientEvent ev a) \<longleftrightarrow> (needs_user ev \<longrightarrow> logged) \<and> (needs_arg ev \<longrightarrow> a \<noteq> None)"
| "loggable logged _ \<longleftrightarrow> True"

text \<open>Steps whose events have the arguments they need.\<close>

definition logs :: "'db step \<Rightarrow> bool" where
  "logs m \<longleftrightarrow> (\<forall>fl c' out db'. m = Ret (fl, c', out, db') \<longrightarrow> list_all (loggable True) out)"

lemma loggable_say [simp]: "list_all (loggable b) (say e t)" "list_all (loggable b) (say2 e t)"
  by (simp_all add: say_def say2_def SendReply_def SendReply2_def needs_user_def needs_arg_def Let_def)

lemma logs_intros:
  "list_all (loggable True) out \<Longrightarrow> logs (Ret (fl, c', out, db'))" "logs (answer e t c' db')" "logs (Crash f)"
  by (simp_all add: logs_def answer_def)

lemma logs_and_then: "(\<And>x. m = Ret x \<Longrightarrow> logs (f x)) \<Longrightarrow> logs (and_then m f)"
  by (cases m) (auto simp: logs_def)

lemmas logs_rules = logs_intros logs_and_then

named_theorems log_steps

lemma loggable_Reset: "ResetDataConnection b c = (c', out) \<Longrightarrow> list_all (loggable l) out"
  by (auto simp: ResetDataConnection_def)

lemma loggable_Open: "OpenDataConnection e c = Ret (r, c', out) \<Longrightarrow> list_all (loggable l) out"
  by (auto simp: OpenDataConnection_def Let_def and_then_eq_Ret split: if_splits prod.splits dest!: loggable_Reset)

lemma loggable_LogIn: "LogIn e c = (c', out) \<Longrightarrow> list_all (loggable l) out \<and> (bIsLogged c' = True)"
  by (auto simp: LogIn_def ResetTimeout_def)

lemma loggable_Search: "SearchUserFromLogin R ok n login db = Ret (u, out, db') \<Longrightarrow> list_all (loggable l) out"
  by (auto simp: SearchUserFromLogin_def and_then_eq_Ret split: if_splits prod.splits)

lemmas loggables = loggable_Reset loggable_Open loggable_LogIn loggable_Search

lemma log_simple [log_steps]:
  "logs (cmd_QUIT e c db)" "logs (cmd_CLNT e arg c db)" "logs (cmd_STRU e arg c db)" "logs (cmd_OPTS e arg c db)"
  "logs (cmd_MODE e arg c db)" "logs (cmd_TYPE e arg c db)" "logs (cmd_FEAT e c db)" "logs (cmd_PWD e c db)"
  "logs (cmd_REST e arg c db)" "logs (cmd_CDUP e c db)" "logs (answer e t c db)"
  by (auto simp: cmd_QUIT_def cmd_CLNT_def cmd_STRU_def cmd_OPTS_def cmd_MODE_def cmd_TYPE_def cmd_FEAT_def
      cmd_PWD_def cmd_REST_def cmd_CDUP_def invalid_args_def syntax_error_def needs_user_def needs_arg_def
      intro!: logs_rules split: option.splits)

lemma log_files [log_steps]:
  "logs (cmd_MDTM e arg c db)" "logs (cmd_SIZE e arg c db)" "logs (cmd_DELE e arg c db)" "logs (cmd_MKD e arg c db)"
  "logs (cmd_RMD e arg c db)" "logs (cmd_CWD e arg c db)" "logs (cmd_RNFR e arg c db)" "logs (cmd_RNTO e arg c db)"
  "logs (cmd_PRET e arg c db)"
  unfolding cmd_MDTM_def cmd_SIZE_def cmd_DELE_def cmd_MKD_def cmd_RMD_def cmd_CWD_def cmd_RNFR_def cmd_RNTO_def
    cmd_PRET_def invalid_args_def syntax_error_def Let_def
  by (auto split: prod.splits option.splits intro!: logs_rules simp: needs_user_def needs_arg_def)

lemma logs_cases:
  "logs a \<Longrightarrow> logs b \<Longrightarrow> logs (if P then a else b)"
  "(x = None \<Longrightarrow> logs n) \<Longrightarrow> (\<And>y. x = Some y \<Longrightarrow> logs (f y)) \<Longrightarrow> logs (case x of None \<Rightarrow> n | Some y \<Rightarrow> f y)"
  "(\<And>a b. z = (a, b) \<Longrightarrow> logs (g a b)) \<Longrightarrow> logs (case z of (a, b) \<Rightarrow> g a b)"
  "(l = [] \<Longrightarrow> logs n) \<Longrightarrow> (\<And>v vs. l = v # vs \<Longrightarrow> logs (h v vs)) \<Longrightarrow> logs (case l of [] \<Rightarrow> n | v # vs \<Rightarrow> h v vs)"
  by (auto split: option.splits prod.splits list.splits)

lemma loggable_maybe_Reset:
  "(if b then ResetDataConnection True c else (c, [])) = (c', out) \<Longrightarrow> list_all (loggable l) out"
  by (auto split: if_splits dest: loggable_Reset)

lemma log_PORT [log_steps]: "logs (cmd_PORT e arg c db)"
  unfolding cmd_PORT_def Let_def syntax_error_def
  by (intro logs_intros logs_and_then logs_cases; auto dest!: loggable_maybe_Reset)

lemma log_ABOR [log_steps]: "logs (cmd_ABOR e c db)"
  by (auto simp: cmd_ABOR_def split: prod.splits if_splits intro!: logs_intros dest!: loggable_Reset)

lemma loggable_pick: "pick_slave e c db = Ret (s, out, db') \<Longrightarrow> list_all (loggable l) out"
  by (auto simp: pick_slave_def and_then_eq_Ret split: if_splits prod.splits)

lemma log_PASV [log_steps]: "logs (cmd_PASV e c db)"
  unfolding cmd_PASV_def pasv_local_def pasv_slave_def Let_def
  by (intro logs_intros logs_and_then logs_cases; auto dest!: loggable_maybe_Reset loggable_pick)

lemma log_LIST [log_steps]: "logs (cmd_LIST e nCmd arg c db)"
  unfolding cmd_LIST_def Let_def
  by (auto split: prod.splits option.splits if_splits intro!: logs_rules dest!: loggables
      simp: and_then_eq_Ret needs_user_def needs_arg_def)

lemma log_start:
  "list_all (loggable True) out \<Longrightarrow> logs (start_transfer e kind ev status p out c db)"
  unfolding start_transfer_def Let_def
  by (auto split: prod.splits intro!: logs_rules dest!: loggables)

lemma log_RETR [log_steps]: "logs (cmd_RETR e arg c db)"
  unfolding cmd_RETR_def pasv_failed_def syntax_error_def
  by (auto split: prod.splits option.splits intro!: logs_rules log_start simp: open_pasv_def)

lemma loggable_store_path: "store_path e nCmd arg c db = Ret (q, out, db') \<Longrightarrow> list_all (loggable l) out"
  by (auto simp: store_path_def and_then_eq_Ret Let_def split: if_splits option.splits prod.splits)

lemma log_STOR [log_steps]: "logs (cmd_STOR e nCmd arg c db)"
  unfolding cmd_STOR_def pasv_failed_def syntax_error_def
  by (auto split: prod.splits option.splits if_splits intro!: logs_rules log_start
      dest!: loggable_store_path simp: and_then_eq_Ret open_pasv_def)

section \<open>The login\<close>

lemma log_USER: "cmd_USER e arg c db = Ret (fl, c', out, db') \<Longrightarrow> list_all (loggable l) out"
  by (auto simp: cmd_USER_def invalid_args_def answer_def Let_def and_then_eq_Ret split_beta LogIn_def
      split: option.splits if_splits dest!: loggable_Search)

lemma loggable_check: "check_password e arg c = (c', out) \<Longrightarrow> list_all (loggable l) out"
  by (auto simp: check_password_def split: option.splits if_splits dest!: loggables)

lemma log_PASS: "cmd_PASS e arg c db = Ret (fl, c', out, db') \<Longrightarrow> list_all (loggable (bIsLogged c')) out"
  by (auto simp: cmd_PASS_def Let_def needs_user_def needs_arg_def split: prod.splits if_splits dest!: loggable_check)

text \<open>The other commands leave a client logged in.\<close>

definition keeps_login :: "client \<Rightarrow> 'db step \<Rightarrow> bool" where
  "keeps_login c m \<longleftrightarrow> (\<forall>fl c' out db'. m = Ret (fl, c', out, db') \<longrightarrow> bIsLogged c' = bIsLogged c)"

lemma keeps_login_core: "keeps_core c m \<Longrightarrow> keeps_login c m"
  by (auto simp: keeps_core_def keeps_login_def core_def)

lemma keeps_login_paths:
  "keeps_login c (cmd_CWD e arg c db)" "keeps_login c (cmd_CDUP e c db)" "keeps_login c (cmd_RNFR e arg c db)"
  "keeps_login c (cmd_RNTO e arg c db)" "keeps_login c (answer e t c db)"
  by (auto simp: keeps_login_def cmd_CWD_def cmd_CDUP_def cmd_RNFR_def cmd_RNTO_def answer_def invalid_args_def
      syntax_error_def and_then_eq_Ret split: option.splits prod.splits if_splits)

lemmas login_steps = keeps_login_paths core_steps[THEN keeps_login_core]

lemma branch:
  "(P \<Longrightarrow> logs a) \<Longrightarrow> (\<not> P \<Longrightarrow> logs b) \<Longrightarrow> logs (if P then a else b)"
  "(P \<Longrightarrow> keeps_login c a) \<Longrightarrow> (\<not> P \<Longrightarrow> keeps_login c b) \<Longrightarrow> keeps_login c (if P then a else b)"
  by simp_all

lemma shell_step_logs:
  assumes "shell_step e nCmd arg c db = Ret (fl, c', out, db')"
  shows "list_all (loggable (bIsLogged c')) out"
proof (cases "nCmd = CMD_USER \<or> nCmd = CMD_PASS \<or> \<not> bIsLogged c")
  case True
  then show ?thesis
    using assms log_USER[of e arg c db fl c' out db' "bIsLogged c'"] log_PASS[of e arg c db fl c' out db']
    by (auto simp: shell_step_def cmd_QUIT_def answer_def needs_user_def needs_arg_def split: if_splits)
next
  case False
  then have n: "nCmd \<noteq> CMD_USER" "nCmd \<noteq> CMD_PASS" by simp_all
  have "logs (shell_step e nCmd arg c db)"
    unfolding shell_step_def by (intro branch(1) log_steps; use n in simp)
  moreover have "keeps_login c (shell_step e nCmd arg c db)"
    unfolding shell_step_def by (intro branch(2) login_steps; use n in simp)
  ultimately show ?thesis using assms False by (auto simp: logs_def keeps_login_def)
qed

section \<open>The property\<close>

text \<open>C32: Writing the log never reads through a null pointer: every event that a command of a session
  reports can be logged, with any settings of the log, for the client as the command leaves it. The texts
  that name the user belong to events of clients that are logged in, and the events whose text shows an
  argument have one.\<close>

theorem session_events_can_be_logged:
  assumes "session_ok c" and "shell_step e nCmd arg c db = Ret (fl, c', out, db')" and "OnClientEvent ev a \<in> set out"
  shows "\<exists>entries. LogClientEvent cfg opened ts ev c' a = Ret entries \<and> length entries \<le> 1"
proof -
  have "session_ok c'" using shell_step_session[of c e nCmd arg db] assms(1,2) unfolding keeps_session_def by blast
  then have u: "bIsLogged c' \<Longrightarrow> GetUser c' \<noteq> None" by (auto simp: session_ok_def GetUser_def split: option.splits)
  have "loggable (bIsLogged c') (OnClientEvent ev a)"
    using shell_step_logs[OF assms(2)] assms(3) by (auto simp: list_all_iff)
  then have "\<exists>l. LogClientEvent cfg opened ts ev c' a = Ret l" using u by (intro LogClientEvent_safe) auto
  then obtain l where "LogClientEvent cfg opened ts ev c' a = Ret l" ..
  moreover from this have "length l \<le> 1"
    by (auto simp: LogClientEvent_def log_text_def and_then_eq_Ret split: if_splits)
  ultimately show ?thesis by blast
qed

theorem session_events_can_be_logged_witness:
  "\<exists>c' out entries. shell_step demo_env CMD_STOR (Some ''x'') (demo_client 63) demo = Ret (Continue, c', out, demo) \<and>
     OnClientEvent CLIENT_UPLOAD (Some ''/x'') \<in> set out \<and>
     LogClientEvent InitServerConfig True ''now'' CLIENT_UPLOAD c' (Some ''/x'') = Ret entries"
proof -
  obtain c' out where r: "shell_step demo_env CMD_STOR (Some ''x'') (demo_client 63) demo = Ret (Continue, c', out, demo)"
    "OnClientEvent CLIENT_UPLOAD (Some ''/x'') \<in> set out"
    using demo_path demo_may[of 63 WRITEFILE] demo_client_ok(2)[of 63] demo_client_fields(5)[of 63]
    by (auto simp: shell_step_def cmd_STOR_def store_path_def open_pasv_def start_transfer_def demo_env_def
        outcome_simps WRITEFILE_def)
  from session_events_can_be_logged[OF demo_client_ok(1) r] r show ?thesis by blast
qed

end
