(* ===== verification/Bootstrap.thy ===== *)
theory Bootstrap
  imports Server ShellProps VfsOps
begin

text \<open>
  The initialisation of the database (\<open>InitRedis\<close> of metaserver_config.hpp): the questions to the
  operator and the commands that wipe the database and create the counters, the administrator and the
  root directory.
\<close>

section \<open>The initialisation\<close>

text \<open>
  The answers of the operator, one word each: \<open>None\<close> when they end without a decision, and then the
  program asks for ever.
\<close>

fun confirm :: "string list \<Rightarrow> bool option" where
  "confirm [] = None"
| "confirm (input # rest) = (if input = ''n'' then Some False else if input = ''y'' then Some True else confirm rest)"

text \<open>\<open>HSET group:1 STAFF\<close> has one argument too few.\<close>

definition init_commands :: "int \<Rightarrow> rcmd list" where
  "init_commands tm0 =
     [FLUSHDB,
      SET ''uid_counter'' ''1'', SET ''gid_counter'' ''1'', Malformed ''HSET group:1 STAFF'',
      SET ''fid_counter'' ''0'', SET ''transaction_counter'' ''0'',
      HSET ''username:admin'' ''password'' ''admin'', HSET ''username:admin'' ''start_directory'' ''/'',
      HSET ''username:admin'' ''enabled'' ''true'', HSET ''username:admin'' ''uid'' ''1'',
      HSET ''username:admin'' ''gid'' ''1'', HSET ''username:admin'' ''max_logins'' ''0'',
      HSET ''username:admin'' ''privileges'' ''?'',
      HSET ''dirent:0'' ''.foo'' ''-1'',
      HSET ''stat:0'' ''st_mode'' ''16895'', HSET ''stat:0'' ''st_size'' ''4096'', HSET ''stat:0'' ''st_uid'' ''1'',
      HSET ''stat:0'' ''st_gid'' ''1'', HSET ''stat:0'' ''st_mtime'' (fmt_u tm0)]"

definition InitRedis :: "'db redis \<Rightarrow> bool \<Rightarrow> nat \<Rightarrow> string list \<Rightarrow> int \<Rightarrow> 'db \<Rightarrow> 'db outcome" where
  "InitRedis R reached dbno answers tm0 db =
     (if \<not> reached then Ret db
      else case redis_cmd R (SELECT dbno) db of (reply, db1) \<Rightarrow>
        if reply \<noteq> None \<and> redis_err R db1 then Ret db1
        else (case confirm answers of
            None \<Rightarrow> Hang
          | Some False \<Rightarrow> Ret db1
          | Some True \<Rightarrow> Ret (run_all R (init_commands tm0) db1)))"

section \<open>The database after it\<close>

definition init_hashes :: "int \<Rightarrow> string \<Rightarrow> string \<rightharpoonup> string" where
  "init_hashes tm0 = (\<lambda>_. Map.empty)
     (''username:admin'' := [''password'' \<mapsto> ''admin'', ''start_directory'' \<mapsto> ''/'', ''enabled'' \<mapsto> ''true'',
        ''uid'' \<mapsto> ''1'', ''gid'' \<mapsto> ''1'', ''max_logins'' \<mapsto> ''0'', ''privileges'' \<mapsto> ''?''],
      ''dirent:0'' := [''.foo'' \<mapsto> ''-1''],
      ''stat:0'' := [''st_mode'' \<mapsto> ''16895'', ''st_size'' \<mapsto> ''4096'', ''st_uid'' \<mapsto> ''1'', ''st_gid'' \<mapsto> ''1'',
        ''st_mtime'' \<mapsto> fmt_u tm0])"

lemma digits: "lexical_ll ''0'' = Some 0" "lexical_ll ''1'' = Some 1"
  by code_simp+

definition admin :: user_entry where
  "admin = CUserEntry\<lparr>szLogin := ''admin'', szPassword := ''admin'', szStartDirectory := ''/'', bIsEnabled := True,
     uid := 1, gid := 1, ucPrivileges := READFILE OR WRITEFILE OR DELETEFILE OR LIST_DIR OR CREATEDIR OR DELETEDIR\<rparr>"

lemma no_entry: "(\<lambda>_. Map.empty)(k := Map.empty) = (\<lambda>_. Map.empty)"
  by auto

context redis_admin
begin

lemma init_view:
  assumes "idle db"
  shows "idle (run_all R (init_commands tm0) db)"
    and "hashes (view (run_all R (init_commands tm0) db)) = init_hashes tm0"
    and "fids (view (run_all R (init_commands tm0) db)) = 0"
proof -
  have "\<forall>c\<in>set (init_commands tm0). settable c" by (simp add: init_commands_def digits)
  note e = effect_all[OF assms this]
  show "idle (run_all R (init_commands tm0) db)" using e by simp
  show "hashes (view (run_all R (init_commands tm0) db)) = init_hashes tm0"
    and "fids (view (run_all R (init_commands tm0) db)) = 0"
    using e by (simp_all add: init_commands_def init_hashes_def fids_def digits no_entry)
qed

lemma init_tree:
  assumes "hashes (view db) = init_hashes tm0" and "fids (view db) = 0"
  shows "tree_ok (view db)"
proof -
  have k: "''dirent:0'' = dirent_key 0" "''stat:0'' = stat_key 0" by code_simp+
  have u: "dirent_key f \<noteq> ''username:admin''" "stat_key f \<noteq> ''username:admin''" for f
    by (simp_all add: dirent_key_def stat_key_def)
  have d: "hashes (view db) (dirent_key f) = (if f mod 2 ^ 32 = 0 then [''.foo'' \<mapsto> ''-1''] else Map.empty)"
    "f mod 2 ^ 32 \<noteq> 0 \<Longrightarrow> hashes (view db) (stat_key f) = Map.empty" for f
    unfolding assms(1) init_hashes_def k using u by auto
  have "entry_ok 0 ''-1''" by (simp add: entry_ok_def)
  then show ?thesis unfolding tree_ok_def assms(2) fresh_def d(1)
    by (auto simp: d(2) split: if_splits)
qed

lemma admin_found:
  assumes "idle db" and "hashes (view db) = init_hashes tm0"
  obtains db2 where "SearchUserFromLogin R True n ''admin'' db = Ret (Some admin, [], db2)"
proof -
  obtain r0 db1 where sl: "redis_cmd R (SELECT n) db = (r0, db1)" by (metis surj_pair)
  have i: "idle db1" "view db1 = view db" using sel[of db n] assms(1) sl by (auto simp: usable_def)
  let ?M = "[''password'' \<mapsto> ''admin'', ''start_directory'' \<mapsto> ''/'', ''enabled'' \<mapsto> ''true'',
        ''uid'' \<mapsto> ''1'', ''gid'' \<mapsto> ''1'', ''max_logins'' \<mapsto> ''0'', ''privileges'' \<mapsto> ''?'']"
  have h: "hs db1 ''username:admin'' = ?M" by (simp add: i(2) assms(2) init_hashes_def)
  have "\<forall>s\<in>ran (hs db1 ''username:admin''). Some s \<noteq> None" by simp
  then obtain r m where r: "query R (HGETALL ''username:admin'') db1 = Ret (r, db1)" "to_map Some r = Ret m"
    "strict_keys m" "map_of m = (\<lambda>k. Option.bind (hs db1 ''username:admin'' k) Some)"
    "elements r > 0 \<longleftrightarrow> hs db1 ''username:admin'' \<noteq> Map.empty" by (rule read_map[OF i(1)])
  have m: "map_of m = ?M" by (simp add: r(4) h fun_eq_iff)
  have a: "atoi ''1'' = 1" "atoi ''0'' = 0" "lexical_uchar ''?'' = Ret 63" by code_simp+
  have p: "READFILE OR WRITEFILE OR DELETEFILE OR LIST_DIR OR CREATEDIR OR DELETEDIR = 63"
    by (simp add: READFILE_def WRITEFILE_def DELETEFILE_def LIST_DIR_def CREATEDIR_def DELETEDIR_def)
  have "user_of ''admin'' m = Ret admin"
    by (simp add: user_of_def field_attr attr_def m a admin_def p strcpy_def MaxLoginLen_def MaxPasswordLen_def
        MaxRootPathLen_def MAX_PATH_def outcome_simps to_unsigned_def CUserEntry_def)
  moreover have "elements r > 0" using r(5) unfolding h by simp
  ultimately show thesis
    using that r(1,2) idle_err[OF i(1)] by (simp add: SearchUserFromLogin_def sl outcome_simps)
qed

end

section \<open>The property\<close>



end
