(* ===== verification/Programs.thy ===== *)
theory Programs
  imports Teardown EventLog Bootstrap
begin

text \<open>
  The two main programs: the options, the configuration file, the callbacks, and how the programs end
  (metaserver_main.cpp, slaveserver_main.cpp, and the callbacks of CFtpServer.h).
\<close>

section \<open>The callbacks of the server object\<close>

text \<open>
  The pointers to the callbacks. The constructor sets them to null only if \<open>CFTPSERVER_ENABLE_EVENTS\<close> is defined,
  which CFtpServerConfig.h does not do; the calls are compiled all the same. A callback gives here
  the entries that it logs.
\<close>

datatype 'f pointer = Indeterminate | Null | Points 'f

record callbacks =
  server_cb :: "(event \<Rightarrow> log_entry list) pointer"
  user_cb :: "(event \<Rightarrow> user_entry \<Rightarrow> log_entry list) pointer"
  client_cb :: "(event \<Rightarrow> client \<Rightarrow> string option \<Rightarrow> log_entry list outcome) pointer"

definition new_callbacks :: "bool \<Rightarrow> callbacks" where
  "new_callbacks enable_events = (if enable_events
     then \<lparr>server_cb = Null, user_cb = Null, client_cb = Null\<rparr>
     else \<lparr>server_cb = Indeterminate, user_cb = Indeterminate, client_cb = Indeterminate\<rparr>)"

definition SetServerCallback :: "(event \<Rightarrow> log_entry list) \<Rightarrow> callbacks \<Rightarrow> callbacks" where
  "SetServerCallback f k = k\<lparr>server_cb := Points f\<rparr>"

definition SetUserCallback :: "(event \<Rightarrow> user_entry \<Rightarrow> log_entry list) \<Rightarrow> callbacks \<Rightarrow> callbacks" where
  "SetUserCallback f k = k\<lparr>user_cb := Points f\<rparr>"

definition SetClientCallback :: "(event \<Rightarrow> client \<Rightarrow> string option \<Rightarrow> log_entry list outcome) \<Rightarrow> callbacks \<Rightarrow> callbacks" where
  "SetClientCallback f k = k\<lparr>client_cb := Points f\<rparr>"

text \<open>A call through a pointer.\<close>

definition call_pointer :: "'f pointer \<Rightarrow> ('f \<Rightarrow> log_entry list outcome) \<Rightarrow> log_entry list outcome" where
  "call_pointer p call = (case p of Indeterminate \<Rightarrow> Crash Uninitialised | Null \<Rightarrow> Ret [] | Points f \<Rightarrow> call f)"

definition OnServerEventCb :: "callbacks \<Rightarrow> event \<Rightarrow> log_entry list outcome" where
  "OnServerEventCb k ev = call_pointer (server_cb k) (\<lambda>f. Ret (f ev))"

definition OnUserEventCb :: "callbacks \<Rightarrow> event \<Rightarrow> user_entry \<Rightarrow> log_entry list outcome" where
  "OnUserEventCb k ev u = call_pointer (user_cb k) (\<lambda>f. Ret (f ev u))"

definition OnClientEventCb :: "callbacks \<Rightarrow> event \<Rightarrow> client \<Rightarrow> string option \<Rightarrow> log_entry list outcome" where
  "OnClientEventCb k ev c a = call_pointer (client_cb k) (\<lambda>f. f ev c a)"

text \<open>The callbacks that \<open>main\<close> sets before it does anything else with the server object.\<close>

definition log_callbacks :: "metaserver_config \<Rightarrow> bool \<Rightarrow> string \<Rightarrow> callbacks" where
  "log_callbacks m opened ts = SetClientCallback (LogClientEvent m opened ts)
     (SetUserCallback (LogUserEvent m opened ts) (SetServerCallback (LogServerEvent m opened ts) (new_callbacks False)))"

text \<open>The entries for the outputs of the server object itself.\<close>

fun server_log :: "callbacks \<Rightarrow> effect list \<Rightarrow> log_entry list outcome" where
  "server_log k [] = Ret []"
| "server_log k (OnServerEvent ev # out) = and_then (OnServerEventCb k ev) (\<lambda>l.
     and_then (server_log k out) (\<lambda>ls. Ret (l @ ls)))"
| "server_log k (_ # out) = server_log k out"

section \<open>The meta server\<close>

text \<open>What libconfig answers for the configuration file.\<close>

datatype file_answer = Parsed config_file | FileIOException | ParseException

record program_options =
  opt_help :: bool
  opt_init :: bool
  opt_daemon :: bool

definition EXIT_SUCCESS :: int where "EXIT_SUCCESS = 0"
definition EXIT_FAILURE :: int where "EXIT_FAILURE = 1"

text \<open>The configuration, or the end of the program.\<close>

definition read_config :: "(config_file \<Rightarrow> 'cfg \<Rightarrow> 'cfg) \<Rightarrow> 'cfg \<Rightarrow> file_answer \<Rightarrow> int + 'cfg" where
  "read_config load cfg file = (case file of Parsed f \<Rightarrow> Inr (load f cfg)
     | FileIOException \<Rightarrow> Inl EXIT_FAILURE | ParseException \<Rightarrow> Inl EXIT_FAILURE)"

definition no_users :: userlist where
  "no_users = \<lparr>uchain = empty_chain, entries = Map.empty, uiNumberOfUser = 0\<rparr>"

definition no_clients :: registry where
  "no_clients = \<lparr>chain_of = empty_chain, clients = Map.empty, uiNumberOfClients = 0\<rparr>"

text \<open>
  \<open>main\<close>: \<open>opts\<close> are the parsed options (\<open>None\<close> when boost throws), \<open>address\<close> is \<open>inet_addr\<close> of the listening
  address. The result is the exit status, the log of the server, and the database. \<open>run_daemon\<close> is the
  part from the server object on; it only comes to an end when no client was accepted, and then the object
  is destroyed.
\<close>

definition meta_main :: "'db redis \<Rightarrow> program_options option \<Rightarrow> file_answer \<Rightarrow> bool \<Rightarrow> string list \<Rightarrow> int \<Rightarrow>
    os_answers \<Rightarrow> (string \<Rightarrow> int) \<Rightarrow> nat \<Rightarrow> bool \<Rightarrow> string \<Rightarrow> 'db \<Rightarrow> (int \<times> log_entry list \<times> 'db) outcome" where
  "meta_main R opts file reached typed tm0 os address garbage opened ts db = (case opts of
      None \<Rightarrow> Ret (EXIT_FAILURE, [], db)
    | Some o' \<Rightarrow>
        if opt_help o' then Ret (EXIT_SUCCESS, [], db)
        else (case read_config LoadServerConfig InitServerConfig file of
            Inl status \<Rightarrow> Ret (status, [], db)
          | Inr m \<Rightarrow>
              and_then (if opt_init o' then InitRedis R reached (unat (mc_RedisDB m)) typed tm0 db else Ret db) (\<lambda>db1.
                if \<not> opt_daemon o' then Ret (EXIT_SUCCESS, [], db1)
                else and_then (run_daemon os (address (mc_ListeningIP m)) m garbage) (\<lambda>(out, s).
                  and_then (destroy_CFtpServer s no_users Map.empty no_clients) (\<lambda>(_, out', _).
                    and_then (server_log (log_callbacks m opened ts) (out @ out')) (\<lambda>log. Ret (0, log, db1)))))))"

section \<open>The slave\<close>

definition read_slave_config :: "file_answer \<Rightarrow> int + slaveserver_config" where
  "read_slave_config file = read_config LoadSlaveConfig InitSlaveConfig file"


text \<open>
  \<open>main\<close> of the slave: one argument, the configuration file. \<open>serve\<close> is the server of the Thrift library on
  a port with a number of threads.
\<close>

definition slave_main :: "nat \<Rightarrow> file_answer \<Rightarrow> (16 word \<Rightarrow> int \<Rightarrow> unit outcome) \<Rightarrow> int outcome" where
  "slave_main argc file serve =
     (if argc \<noteq> 2 then Ret 1
      else case read_slave_config file of
          Inl status \<Rightarrow> Ret status
        | Inr c \<Rightarrow> and_then (serve (sc_ThriftPort c) (sc_WorkerCount c)) (\<lambda>_. Ret 0))"

section \<open>The properties\<close>

lemma no_users_destroyed:
  "destroy_CFtpServer s no_users Map.empty no_clients =
    Ret (case if IsListening s then snd (StopListening s) else (s, []) of (s', out) \<Rightarrow>
      (s', out, no_users, Map.empty, no_clients))"
  by (auto simp: destroy_CFtpServer_def no_users_def empty_chain_def delete_users.simps outcome_simps split: prod.splits)

lemma configure_idle: "\<not> bIsListening (configure m (CFtpServer g))" "\<not> bIsAccepting (configure m (CFtpServer g))"
  by (simp_all add: configure_def set_range_def setter_defs IsListening_def IsAccepting_def CFtpServer_def Let_def
      split: prod.splits)

text \<open>A daemon either serves for ever or ends at once.\<close>

lemma run_daemon_cases:
  "run_daemon os addr m g =
     (if addr = 2 ^ 32 - 1 \<or> mc_ListeningPort m = 0 \<or> \<not> open_ok os
      then Ret ([OnServerEvent ERROR_LISTENING], configure m (CFtpServer g))
      else if create_ok os then Hang
      else Ret ([OnServerEvent START_LISTENING, OnServerEvent THREAD_ERROR, OnServerEvent STOP_LISTENING],
        (configure m (CFtpServer g))\<lparr>usListeningPort := mc_ListeningPort m, ListeningSock := False, bIsListening := False\<rparr>))"
  using configure_idle[of m g]
  by (simp add: run_daemon_def StartListening_def StartAccepting_def StopListening_def IsListening_def IsAccepting_def Let_def)



end
