(* ===== verification/Spec2Isabelle.thy ===== *)
theory Spec2Isabelle
  imports Lifecycle ListingProps Concurrency ThriftNodes ThriftHandlers SlaveOverlap ServerLocks TransferAbort Programs
begin

text \<open>
  A verification library for clusterftpd, an FTP server whose directory tree lives in Redis and whose
  file contents live on slave servers that are reached over Thrift.

  The program. The meta server (src/src/CFtpServer, src/src/metaserver-cpp) accepts control connections;
  every client has an object of the class \<open>CClientEntry\<close> and a thread that reads command lines and runs them
  (\<open>Shell\<close>). The directory tree, the users and the counters of file ids and transactions are in Redis
  (src/src/redis_classes.hpp). Transfers and listings run in threads of their own. The contents of a file are
  kept by a slave (src/src/slaveserver-cpp), which also makes the data connection to the client; the meta
  server calls its six operations with Thrift (src/src/gen-cpp).

  How code is modelled. A function of the source is a definition with the same name where HOL allows it (the
  handler of the command X is \<open>cmd_X\<close>, and \<open>vfs_\<close> is put before the names of system calls). It takes the state it
  reads and returns the state it leaves, with the list of what it does to the outside (\<open>effect\<close>: events,
  bytes on the control connection, threads that are started or cancelled, sleeps) in order. Its result is
  an \<open>outcome\<close>: \<open>Ret\<close> a value, \<open>Crash\<close> with the fault that stops the process or is undefined behaviour (an
  uncaught exception, a null or freed object, an access out of bounds, a value never stored), or \<open>Hang\<close>, a
  loop that never ends. Loops are recursive functions; those that may not end are partial functions, for
  which not returning is \<open>None\<close>. Strings are lists of characters before the NUL, ports and privileges are
  words, sizes that the code truncates are reduced at their width. What the world answers (sockets, the
  clock, \<open>rand\<close>, the network, the disk) is in the records \<open>env\<close>, \<open>reader_env\<close> and \<open>slave_os\<close>, over which every
  theorem is quantified. No fuel is used; a bound in a statement is a bound of the code.

  The theories, from the bottom:

  \<^item> \<open>Prelude\<close>: outcomes, platform constants, lemmas on lists. \<open>CString\<close>: the C library functions on strings
    that the code calls (\<open>strstr\<close>, \<open>atoi\<close>, \<open>snprintf\<close>, \<open>lexical_cast\<close>, \<open>boost::split\<close>), with their round trips.
  \<^item> \<open>Paths\<close> (CFtpServer.cpp: \<open>SimplifyPath\<close>, \<open>BuildVirtualPath\<close>, \<open>BuildPath\<close>): every in-place pass in order,
    against a reference normal form on path components; a path that is built stays below the user's start
    directory.
  \<^item> \<open>Events\<close>, \<open>Commands\<close> (\<open>ParseLine\<close>, its nested switch against a table), \<open>LineReader\<close> (\<open>ReceiveLine\<close>: buffer
    positions, overlong lines, timeouts; the lines of the stream whatever its segments), \<open>DataPorts\<close> (the port
    range and the search on 16-bit words).
  \<^item> \<open>RedisDb\<close>: Redis through hiredis, a parameter (\<open>redis\<close>, a function from commands to replies). What the code
    relies on is the locale \<open>redis_server\<close> (reads agree with what was written, a transaction takes effect as a
    whole), extended by \<open>redis_admin\<close> for the commands of the initialisation; both hold of an in-memory store.
    \<open>RedisVfs\<close> is redis_classes.hpp. \<open>VfsTree\<close> shows that a lookup is a walk through directory entries,
    \<open>VfsOps\<close> and \<open>VfsProps\<close> what every operation does to the tree and that it keeps the invariant \<open>tree_ok\<close>.
    \<open>Concurrency\<close> cuts the operations into lookups and transaction and interleaves those of many clients.
  \<^item> \<open>Users\<close> (\<open>CUserEntry\<close>, \<open>SearchUserFromLogin\<close>), \<open>UserList\<close> (\<open>AddUser\<close>, \<open>DeleteUser\<close>), \<open>Session\<close> (the client
    object, login, data connection), \<open>Shell\<close> (every command handler, the main loop and its end), \<open>ShellProps\<close>
    and \<open>ShellClaims\<close> (session invariant, login and privileges, replies), \<open>EventLog\<close> (metaserver_log.hpp).
  \<^item> \<open>SlaveService\<close> and \<open>SlaveProps\<close> (slave_servicesHandler.hpp: files, data connections, the two copying
    loops). \<open>SlaveOverlap\<close> cuts its calls into pieces that interleave: they are independent but for the sizes that
    uploads report. \<open>Thrift\<close> (slave_services_types.cpp) and \<open>ThriftService\<close> (slave_services.cpp) are the generated code over
    the library's protocol, a parameter whose laws are the locale \<open>thrift_protocol\<close>: what is written and
    flushed is read at the other end, call by call, and a skip takes one value. \<open>ThriftLaws\<close> shows that reading
    a structure is a fold over its fields, \<open>ThriftStructs\<close> and \<open>ThriftCalls\<close> that arguments and results come
    back, \<open>ThriftRemote\<close> that a remote call is the call of the handler. \<open>ThriftValues\<close> holds the setters, the
    comparisons and \<open>swap\<close>, \<open>ThriftHandlers\<close> the null and the multiple handler and the factories.
  \<^item> \<open>Transfers\<close> (\<open>StoreThread\<close>, \<open>RetrieveThread\<close>) and \<open>TransferProps\<close>, where the contract of the slaves is the
    locale \<open>slave_nodes\<close>; \<open>SlaveService\<close> keeps it, and \<open>ThriftNodes\<close> shows by a sublocale that the slaves keep it
    behind their processors over every protocol that obeys the laws. \<open>Lifecycle\<close> interleaves the command
    thread and the transfer threads of one client. \<open>Listing\<close> and \<open>ListingProps\<close> are \<open>ListThread\<close>.
  \<^item> \<open>Server\<close> (constructor, start, stop, settings, the configuration files of both servers), \<open>Registry\<close> (the
    doubly linked list of clients), \<open>Bootstrap\<close> (\<open>InitRedis\<close>), \<open>Teardown\<close> (the destructor), \<open>Programs\<close> (the
    callbacks and the main programs of both servers).
  \<^item> \<open>Locks\<close>: threads that are lists of lock operations, uses of shared data, starts and joins, with a step that
    runs any of them; a locale states the order of locks and joins and shows that there is no deadlock and no
    race on protected data. \<open>ServerLocks\<close> has the lock operations of every function of the server and
    interprets the locale on them. \<open>TransferAbort\<close> cuts \<open>ResetDataConnection\<close> and the end of a transfer thread
    into single accesses of the client object and interleaves them.

  What the lemmas show. Equivalences: path simplification, command parsing and lookups agree with short
  reference definitions. Refinements: the linked lists implement lists, a remote call implements the call.
  Invariants: of a session, of the tree under single and interleaved operations, of the connections of a slave.
  Functional and round-trip theorems: what is uploaded is downloaded, what is listed is the directory,
  what is sent is read. Bounds: the command buffer, the reply buffer of a slave, port ranges. Liveness: the threads of the server never deadlock. Many theorems
  state where the code does something else than it means to; these are listed as findings.

  Simplifications. The lookups of one operation of the file system are taken together, and its transaction is
  one step. A transfer thread reads the client object when it starts (and again, as a second argument, when
  the slave has answered); \<open>eDataConnection\<close> is read once. A command, or the end of a thread, is one step of
  \<open>Lifecycle\<close>. A call on a slave is at most five steps of \<open>SlaveOverlap\<close>, and one step for the transfer threads. \<open>Locks\<close>
  keeps of a thread only its lock operations and the shared data it uses. The file id, counter and size hypotheses (below 2 to the
  31 for file ids, 2 to the 63 for transaction ids and sizes) are the ranges of the types in the code.

  Not modelled: the branches for Windows, zlib and the extra commands (\<open>SITE\<close>, \<open>XCRC\<close> and others), which are
  not compiled; the event handlers of the generated processor, which nobody installs, and its skeleton, which
  is not built; what happens to a lock whose holder is cancelled. Parameters of the model are Redis, the byte format of
  the Thrift protocol and its server with its pool of threads, libconfig and the parsing of program options.

  What is left: steps finer than a command in \<open>Lifecycle\<close> and than a plan in \<open>Concurrency\<close>, and slaves whose
  calls overlap under the transfer threads of the meta server.
\<close>

end
